(* ===== verification/Capture_Prelude.thy ===== *)
theory Capture_Prelude
  imports Main "HOL-Library.Word" "HOL-Library.Sublist"
begin

unbundle bit_operations_syntax

text \<open>
  Shared vocabulary of the development: the machine integer types of the C++ sources, the
  exceptions the program throws, a result type for code that may throw, and generic facts on
  lists, result values and little-endian byte strings that the component theories use.

  Conventions used everywhere:
  \<^item> \<open>std::uint8_t\<close> ... \<open>std::uint64_t\<close> and \<open>__u32\<close> are words of that width; \<open>std::size_t\<close> values that
    index or count elements of an existing container are \<open>nat\<close>; the signed \<open>int\<close> and \<open>long\<close> are
    \<open>int\<close> (the theorems that need it show that the values stay inside the C++ range);
  \<^item> a thrown exception is \<open>Inl e\<close>, a normal return is \<open>Inr v\<close>;
  \<^item> results of system calls and clocks are arguments of the definitions.
\<close>

type_synonym u8 = "8 word"
type_synonym u16 = "16 word"
type_synonym u32 = "32 word"
type_synonym u64 = "64 word"
type_synonym bytes = "u8 list"

named_theorems wire_simps \<open>layout equations of the frame header codec\<close>
named_theorems ring_simps \<open>field equations of the ring buffer operations\<close>
named_theorems recovery_simps \<open>field equations of the recovery controllers\<close>

section \<open>Exceptions and results\<close>

text \<open>The exception classes of the sources; the string is what \<open>e.what()\<close> returns.\<close>

datatype camera_capture_error_kind =
    Timeout
  | TemporaryUnavailable
  | DeviceUnavailable
  | StreamFailure
  | InvalidBufferMetadata

datatype exn =
    RuntimeError string
  | InvalidArgument string
  | OutOfRange string
  | SendTimeout string
  | SendCancelled string
  | CameraCaptureError camera_capture_error_kind int string

fun what :: "exn \<Rightarrow> string" where
  "what (RuntimeError m) = m"
| "what (InvalidArgument m) = m"
| "what (OutOfRange m) = m"
| "what (SendTimeout m) = m"
| "what (SendCancelled m) = m"
| "what (CameraCaptureError k n m) = m"

type_synonym 'a result = "exn + 'a"

definition bind_r :: "'a result \<Rightarrow> ('a \<Rightarrow> 'b result) \<Rightarrow> 'b result" where
  "bind_r r f = (case r of Inl e \<Rightarrow> Inl e | Inr x \<Rightarrow> f x)"

lemma bind_r_simps [simp]:
  "bind_r (Inl e) f = Inl e"
  "bind_r (Inr x) f = f x"
  by (simp_all add: bind_r_def)

lemma bind_r_eq_Inr [simp]:
  "bind_r r f = Inr y \<longleftrightarrow> (\<exists>x. r = Inr x \<and> f x = Inr y)"
  by (cases r) auto

lemma bind_r_eq_Inl:
  "bind_r r f = Inl e \<longleftrightarrow> r = Inl e \<or> (\<exists>x. r = Inr x \<and> f x = Inl e)"
  by (cases r) auto

text \<open>\<open>if (cond) throw e;\<close> followed by the rest of a function body.\<close>

definition throw_if :: "bool \<Rightarrow> exn \<Rightarrow> 'a result \<Rightarrow> 'a result" where
  "throw_if c e rest = (if c then Inl e else rest)"

lemma throw_if_simps [simp]:
  "throw_if True e rest = Inl e"
  "throw_if False e rest = rest"
  by (simp_all add: throw_if_def)

lemma throw_if_eq_Inr [simp]:
  "throw_if c e rest = Inr x \<longleftrightarrow> \<not> c \<and> rest = Inr x"
  by (simp add: throw_if_def)

lemma if_Some_eq_None: "(if c then Some x else r) = None \<longleftrightarrow> \<not> c \<and> r = None"
  by simp

section \<open>Operating system vocabulary\<close>

text \<open>
  The error numbers the sources compare with, and the bits of \<open>pollfd.revents\<close>. The texts of
  \<open>std::strerror\<close> are a parameter of the definitions that print them.
\<close>

datatype errno = EINTR | EAGAIN | EWOULDBLOCK | ENODEV | ENXIO | EBADF | EINVAL | Errno int

text \<open>What the file system answers when a file is created and written.\<close>

datatype file_result = FileOk | CreateDirsFailed string | OpenFailed | WriteFailed

text \<open>An answer of \<open>poll\<close> on one descriptor: its result, \<open>errno\<close> and \<open>revents\<close>.\<close>

record poll_answer =
  pa_ret :: int
  pa_errno :: errno
  pa_revents :: u16

definition POLLIN :: u16 where "POLLIN = 0x1"
definition POLLOUT :: u16 where "POLLOUT = 0x4"
definition POLLERR :: u16 where "POLLERR = 0x8"
definition POLLHUP :: u16 where "POLLHUP = 0x10"
definition POLLNVAL :: u16 where "POLLNVAL = 0x20"

section \<open>Lists\<close>

lemma split_at_slice:
  "off + k \<le> length xs \<Longrightarrow> xs = take off xs @ take k (drop off xs) @ drop (off + k) xs"
  by (metis add.commute append_take_drop_id drop_drop)

lemma slices_join_end: "take a xs @ take b (drop a xs) = take (a + b) xs"
  by (simp add: take_add)

lemma slices_join: "take a xs @ take b (drop a xs) @ rest = take (a + b) xs @ rest"
  by (simp add: take_add)

lemma list_update_run:
  assumes "off + k \<le> length xs"
  shows "fold (\<lambda>i w. w[off + i := f i]) [0..<k] xs = take off xs @ map f [0..<k] @ drop (off + k) xs"
  using assms
proof (induction k)
  case 0
  then show ?case by simp
next
  case (Suc k)
  then have "drop (off + k) xs = xs ! (off + k) # drop (off + Suc k) xs"
    by (simp add: Cons_nth_drop_Suc)
  with Suc show ?case
    by (simp add: list_update_append)
qed

lemma upt_split_at:
  assumes "k < n"
  shows "[0..<n] = [0..<k] @ k # [Suc k..<n]"
proof -
  have "[0..<k + (n - k)] = [0..<k] @ [k..<k + (n - k)]" by (rule upt_add_eq_append) simp
  with assms show ?thesis by (simp add: upt_conv_Cons)
qed

lemma subseq_snoc_trans: "subseq xs ys \<Longrightarrow> subseq (xs @ [x]) (ys @ [x])"
  by (simp add: subseq_append')

lemma subseq_append_left: "subseq (xs @ ys) zs \<Longrightarrow> subseq xs zs"
  by (meson subseq_order.order_refl subseq_order.order_trans subseq_rev_drop_many)

lemma subseq_set: "subseq xs ys \<Longrightarrow> set xs \<subseteq> set ys"
  by (auto dest: list_emb_set)

lemma subseq_snoc_right: "subseq xs ys \<Longrightarrow> subseq xs (ys @ [x])"
  using subseq_rev_drop_many by auto

text \<open>Four consecutive stores \<open>payload[offset++] = ...\<close>, one macropixel of a YUYV image.\<close>

definition store4 :: "bytes \<Rightarrow> nat \<Rightarrow> u8 \<Rightarrow> u8 \<Rightarrow> u8 \<Rightarrow> u8 \<Rightarrow> bytes" where
  "store4 payload offset a b c d =
     payload[offset := a, offset + 1 := b, offset + 2 := c, offset + 3 := d]"

lemma length_store4 [simp]: "length (store4 p off a b c d) = length p"
  by (simp add: store4_def)

section \<open>Little-endian byte strings\<close>

lemma xor_cancel_left: "a XOR b = a XOR c \<longleftrightarrow> b = (c :: 'a::len word)"
  by (metis xor.assoc xor.left_neutral xor_self_eq)

lemma xor_cancel_right: "b XOR a = c XOR a \<longleftrightarrow> b = (c :: 'a::len word)"
  by (metis xor_cancel_left xor.commute)

lemma unat_ucast_mod: "unat (ucast (w :: 'a::len word) :: 'b::len word) = unat w mod 2 ^ LENGTH('b)"
  by (simp add: unsigned_ucast_eq take_bit_eq_mod)

lemma unat_less: "unat (w :: 'a::len word) < 2 ^ LENGTH('a)"
  by (rule unsigned_less)

lemma unat_of_nat_small: "n < 2 ^ LENGTH('a) \<Longrightarrow> unat (of_nat n :: 'a::len word) = n"
  by (simp add: unsigned_of_nat take_bit_nat_eq_self)

lemma unat_u32_u64 [simp]: "unat (ucast (w :: u32) :: u64) = unat w"
proof -
  have "unat w < 2 ^ 64" using unat_less [of w] by simp
  then show ?thesis by (simp add: unat_ucast_mod)
qed

definition le_bytes :: "nat \<Rightarrow> 'a::len word \<Rightarrow> bytes" where
  "le_bytes k v = map (\<lambda>i. ucast (drop_bit (i * 8) v AND 0xff)) [0..<k]"

definition le_word :: "bytes \<Rightarrow> 'a::len word" where
  "le_word bs = fold (\<lambda>i v. v OR push_bit (i * 8) (ucast (bs ! i))) [0..<length bs] 0"

lemma length_le_bytes [simp]: "length (le_bytes k v) = k"
  by (simp add: le_bytes_def)

lemma byte_mask: "(0xff :: 'a::len word) = mask 8"
  by (simp add: mask_eq_exp_minus_1)

lemma bit_byte_of:
  "bit (ucast (drop_bit k (v :: 'a::len word) AND 0xff) :: u8) n \<longleftrightarrow> n < 8 \<and> bit v (k + n)"
  unfolding byte_mask by (auto simp: bit_simps dest: bit_imp_le_length)

lemma bit_or_bytes:
  "bit (fold (\<lambda>i v. v OR push_bit (i * 8) (ucast (bs ! i))) [0..<k] (0 :: 'a::len word)) n
     \<longleftrightarrow> n < LENGTH('a) \<and> n < 8 * k \<and> bit (bs ! (n div 8) :: u8) (n mod 8)"
proof (induction k)
  case 0
  then show ?case by simp
next
  case (Suc k)
  have new: "bit (push_bit (k * 8) (ucast (bs ! k)) :: 'a word) n
      \<longleftrightarrow> n < LENGTH('a) \<and> 8 * k \<le> n \<and> n < 8 * Suc k \<and> bit (bs ! (n div 8)) (n mod 8)"
  proof (cases "8 * k \<le> n \<and> n < 8 * Suc k")
    case True
    then have d: "n div 8 = k" by (simp add: div_nat_eqI)
    then have "n mod 8 = n - k * 8" by (simp add: modulo_nat_def)
    with True d show ?thesis by (auto simp: bit_simps)
  next
    case False
    then show ?thesis
      by (auto simp: bit_simps dest: bit_imp_le_length)
  qed
  show ?case
    by (simp add: bit_or_iff Suc.IH new) (auto simp: less_Suc_eq_le)
qed

lemma bit_le_word:
  "bit (le_word bs :: 'a::len word) n
     \<longleftrightarrow> n < LENGTH('a) \<and> n < 8 * length bs \<and> bit (bs ! (n div 8)) (n mod 8)"
  by (simp add: le_word_def bit_or_bytes)

lemma le_word_le_bytes:
  assumes "LENGTH('a::len) = 8 * k"
  shows "le_word (le_bytes k (v :: 'a word)) = v"
proof (rule bit_word_eqI)
  fix n assume "n < LENGTH('a)"
  with assms have n: "n < 8 * k" by simp
  then have "n div 8 < k" by (simp add: less_mult_imp_div_less mult.commute)
  then have "le_bytes k v ! (n div 8) = ucast (drop_bit (n div 8 * 8) v AND 0xff)"
    by (simp add: le_bytes_def)
  with n \<open>n < LENGTH('a)\<close> show "bit (le_word (le_bytes k v) :: 'a word) n = bit v n"
    by (simp add: bit_le_word bit_byte_of)
qed

lemma le_word_snoc:
  "le_word (bs @ [c]) = (le_word bs XOR push_bit (length bs * 8) (ucast c) :: 'a::len word)"
proof (rule bit_word_eqI)
  fix n assume n: "n < LENGTH('a)"
  consider "n < 8 * length bs" | "8 * length bs \<le> n" "n < 8 * length bs + 8" | "8 * length bs + 8 \<le> n"
    by linarith
  then show "bit (le_word (bs @ [c]) :: 'a word) n =
      bit (le_word bs XOR push_bit (length bs * 8) (ucast c) :: 'a word) n"
  proof cases
    case 1
    then have "n div 8 < length bs" by (simp add: less_mult_imp_div_less mult.commute)
    with 1 n show ?thesis by (simp add: bit_le_word bit_simps nth_append)
  next
    case 2
    then have d: "n div 8 = length bs" by (simp add: div_nat_eqI)
    then have "n mod 8 = n - length bs * 8" by (simp add: modulo_nat_def)
    with 2 n d show ?thesis by (auto simp: bit_le_word bit_simps nth_append)
  next
    case 3
    with n show ?thesis by (auto simp: bit_le_word bit_simps dest: bit_imp_le_length)
  qed
qed

lemma le_bytes_le_word:
  assumes "8 * k \<le> LENGTH('a::len)" and "length bs = k"
  shows "le_bytes k (le_word bs :: 'a word) = bs"
proof (rule nth_equalityI)
  show "length (le_bytes k (le_word bs :: 'a word)) = length bs" using assms by simp
next
  fix i assume "i < length (le_bytes k (le_word bs :: 'a word))"
  then have i: "i < k" by simp
  show "le_bytes k (le_word bs :: 'a word) ! i = bs ! i"
  proof (rule bit_word_eqI)
    fix n assume n: "n < LENGTH(8)"
    then have "i * 8 + n < 8 * k" using i by simp
    moreover have "(i * 8 + n) div 8 = i" "(i * 8 + n) mod 8 = n" using n by simp_all
    ultimately show "bit (le_bytes k (le_word bs :: 'a word) ! i) n = bit (bs ! i) n"
      using i n assms by (simp add: le_bytes_def bit_byte_of bit_le_word)
  qed
qed

end
