(* ===== verification/Ring_Buffer.thy ===== *)
theory Ring_Buffer
  imports Capture_Prelude
begin

text \<open>
  The template class of \<open>include/ring_buffer.hpp\<close>: a bounded queue over a vector with a read and a
  write index that overwrites the oldest element when it is full. Every public method holds the
  mutex for its whole body, so each one is a single state transformation.

  \<open>try_pop_oldest\<close> moves the element out of its slot; what a moved-from element looks like is up to
  the element type, so it is the argument \<open>moved\<close> of the definition. \<open>snapshot\<close> of the source is
  also the abstraction function: the queue a client sees. The locale \<open>drop_oldest_queue\<close> is the
  contract clients rely on and \<open>ring\<close> implements it.
\<close>

record 'a ring =
  rb_buffer :: "'a list"
  rb_read_index :: nat
  rb_write_index :: nat
  rb_size :: nat
  rb_dropped_count :: nat

definition RingBuffer :: "'a \<Rightarrow> nat \<Rightarrow> 'a ring result" where
  "RingBuffer default_value capacity =
     throw_if (capacity = 0) (InvalidArgument ''RingBuffer capacity must be greater than 0'')
       (Inr \<lparr>rb_buffer = replicate capacity default_value, rb_read_index = 0, rb_write_index = 0,
             rb_size = 0, rb_dropped_count = 0\<rparr>)"

definition push_locked :: "'a \<Rightarrow> 'a ring \<Rightarrow> 'a ring" where
  "push_locked item r =
     (let r = r\<lparr>rb_buffer := (rb_buffer r)[rb_write_index r := item]\<rparr>;
          r = (if rb_size r = length (rb_buffer r)
               then r\<lparr>rb_read_index := (rb_read_index r + 1) mod length (rb_buffer r),
                      rb_dropped_count := rb_dropped_count r + 1\<rparr>
               else r\<lparr>rb_size := rb_size r + 1\<rparr>)
      in r\<lparr>rb_write_index := (rb_write_index r + 1) mod length (rb_buffer r)\<rparr>)"

definition push :: "'a \<Rightarrow> 'a ring \<Rightarrow> 'a ring" where
  "push item r = push_locked item r"

definition try_pop_oldest :: "('a \<Rightarrow> 'a) \<Rightarrow> 'a ring \<Rightarrow> 'a option \<times> 'a ring" where
  "try_pop_oldest moved r =
     (if rb_size r = 0 then (None, r)
      else let out = rb_buffer r ! rb_read_index r;
               r = r\<lparr>rb_buffer := (rb_buffer r)[rb_read_index r := moved out]\<rparr>;
               r = r\<lparr>rb_read_index := (rb_read_index r + 1) mod length (rb_buffer r)\<rparr>;
               r = r\<lparr>rb_size := rb_size r - 1\<rparr>
           in (Some out, r))"

definition snapshot :: "'a ring \<Rightarrow> 'a list" where
  "snapshot r = map (\<lambda>i. rb_buffer r ! ((rb_read_index r + i) mod length (rb_buffer r))) [0..<rb_size r]"

definition ring_size :: "'a ring \<Rightarrow> nat" where "ring_size r = rb_size r"
definition capacity :: "'a ring \<Rightarrow> nat" where "capacity r = length (rb_buffer r)"
definition dropped_count :: "'a ring \<Rightarrow> nat" where "dropped_count r = rb_dropped_count r"
definition ring_empty :: "'a ring \<Rightarrow> bool" where "ring_empty r = (rb_size r = 0)"

text \<open>The class invariant.\<close>

definition ring_wf :: "'a ring \<Rightarrow> bool" where
  "ring_wf r \<longleftrightarrow>
     0 < length (rb_buffer r) \<and> rb_read_index r < length (rb_buffer r) \<and>
     rb_size r \<le> length (rb_buffer r) \<and>
     rb_write_index r = (rb_read_index r + rb_size r) mod length (rb_buffer r)"

text \<open>The abstract queue: append, and forget the oldest element when the capacity is exceeded.\<close>

definition drop_oldest_push :: "nat \<Rightarrow> 'a \<Rightarrow> 'a list \<Rightarrow> 'a list" where
  "drop_oldest_push cap x xs = (if length xs = cap then tl xs @ [x] else xs @ [x])"

fun list_pop :: "'a list \<Rightarrow> 'a option \<times> 'a list" where
  "list_pop [] = (None, [])"
| "list_pop (x # xs) = (Some x, xs)"

text \<open>An operation of a client and its run against the ring; the output lists the popped elements.\<close>

datatype 'a queue_op = Push 'a | Pop

fun run_queue ::
    "('a \<Rightarrow> 'q \<Rightarrow> 'q) \<Rightarrow> ('q \<Rightarrow> 'a option \<times> 'q) \<Rightarrow> 'q \<Rightarrow> 'a queue_op list \<Rightarrow> 'a list \<times> 'q" where
  "run_queue enq deq q [] = ([], q)"
| "run_queue enq deq q (Push x # ops) = run_queue enq deq (enq x q) ops"
| "run_queue enq deq q (Pop # ops) =
     (case deq q of
        (None, q') \<Rightarrow> run_queue enq deq q' ops
      | (Some x, q') \<Rightarrow> (let (out, q'') = run_queue enq deq q' ops in (x # out, q'')))"

definition run_ring :: "('a \<Rightarrow> 'a) \<Rightarrow> 'a ring \<Rightarrow> 'a queue_op list \<Rightarrow> 'a list \<times> 'a ring" where
  "run_ring moved = run_queue push (try_pop_oldest moved)"

fun pushes :: "'a queue_op list \<Rightarrow> 'a list" where
  "pushes [] = []"
| "pushes (Push x # ops) = x # pushes ops"
| "pushes (Pop # ops) = pushes ops"

section \<open>Contract of a queue that drops its oldest element\<close>

locale drop_oldest_queue =
  fixes enq :: "'a \<Rightarrow> 'q \<Rightarrow> 'q"
    and deq :: "'q \<Rightarrow> 'a option \<times> 'q"
    and items :: "'q \<Rightarrow> 'a list"
    and limit :: "'q \<Rightarrow> nat"
    and drops :: "'q \<Rightarrow> nat"
    and wf :: "'q \<Rightarrow> bool"
  assumes wf_enq: "wf q \<Longrightarrow> wf (enq x q)"
    and wf_deq: "wf q \<Longrightarrow> wf (snd (deq q))"
    and items_enq: "wf q \<Longrightarrow> items (enq x q) = drop_oldest_push (limit q) x (items q)"
    and drops_enq: "wf q \<Longrightarrow> drops (enq x q) = drops q + (if length (items q) = limit q then 1 else 0)"
    and limit_enq: "wf q \<Longrightarrow> limit (enq x q) = limit q"
    and limit_pos: "wf q \<Longrightarrow> 0 < limit q"
    and items_limit: "wf q \<Longrightarrow> length (items q) \<le> limit q"
    and deq_Nil: "wf q \<Longrightarrow> items q = [] \<Longrightarrow> deq q = (None, q)"
    and deq_Cons: "wf q \<Longrightarrow> items q = x # xs \<Longrightarrow>
          fst (deq q) = Some x \<and> items (snd (deq q)) = xs \<and>
          limit (snd (deq q)) = limit q \<and> drops (snd (deq q)) = drops q"
begin

text \<open>An element enters at the end and only the oldest element can be lost.\<close>

lemma enq_cases:
  assumes "wf q"
  obtains (room) "items (enq x q) = items q @ [x]" "drops (enq x q) = drops q"
        | (full) y ys where "items q = y # ys" "items (enq x q) = ys @ [x]" "drops (enq x q) = drops q + 1"
proof (cases "length (items q) = limit q")
  case True
  with limit_pos [OF assms] obtain y ys where "items q = y # ys" by (cases "items q") auto
  with True assms show thesis by (intro full) (auto simp: items_enq drops_enq drop_oldest_push_def)
next
  case False
  with assms show thesis by (intro room) (auto simp: items_enq drops_enq drop_oldest_push_def)
qed

lemma enq_balance:
  assumes "wf q"
  shows "length (items (enq x q)) + drops (enq x q) = length (items q) + drops q + 1"
  using assms by (cases rule: enq_cases [of q x]) auto

lemma enq_suffix:
  assumes "wf q"
  shows "\<exists>lost. lost @ items (enq x q) = items q @ [x] \<and> length lost \<le> 1"
  using assms by (cases rule: enq_cases [of q x]) (auto intro: exI [of _ "[]"])

lemma items_deq:
  assumes "wf q"
  shows "items q = (case fst (deq q) of None \<Rightarrow> [] | Some x \<Rightarrow> x # items (snd (deq q)))"
  using assms deq_Nil deq_Cons by (cases "items q") auto

lemma deq_keeps:
  assumes "wf q"
  shows "drops (snd (deq q)) = drops q" and "limit (snd (deq q)) = limit q"
  using assms deq_Nil deq_Cons by (cases "items q"; force)+

text \<open>Every run of the implementation is the run of the abstract queue on its contents.\<close>

lemma run_queue_refines:
  "wf q \<Longrightarrow> limit q = n \<Longrightarrow>
   run_queue (drop_oldest_push n) list_pop (items q) ops =
     (fst (run_queue enq deq q ops), items (snd (run_queue enq deq q ops)))"
proof (induction ops arbitrary: q)
  case Nil
  then show ?case by simp
next
  case (Cons a ops)
  show ?case
  proof (cases a)
    case (Push x)
    with Cons.IH [of "enq x q"] Cons.prems show ?thesis by (simp add: wf_enq limit_enq items_enq)
  next
    case Pop
    show ?thesis
    proof (cases "items q")
      case Nil
      with Pop Cons.IH [OF Cons.prems] Cons.prems(1) show ?thesis by (simp add: deq_Nil)
    next
      case items: (Cons x xs)
      then obtain q1 where d: "deq q = (Some x, q1)" "items q1 = xs" "limit q1 = n"
        using deq_Cons [OF \<open>wf q\<close> items] \<open>limit q = n\<close> by (cases "deq q") auto
      with wf_deq [OF \<open>wf q\<close>] have "wf q1" by simp
      with Cons.IH [of q1] d Pop items show ?thesis by (simp add: case_prod_beta Let_def)
    qed
  qed
qed

lemma run_queue_limit: "wf q \<Longrightarrow> run_queue enq deq q ops = (out, q') \<Longrightarrow> limit q' = limit q"
proof (induction ops arbitrary: q out)
  case (Cons a ops)
  then show ?case
    using wf_deq [of q] deq_keeps(2) [of q] wf_enq [of q] limit_enq [of q]
    by (cases a) (force split: prod.splits option.splits)+
qed simp

text \<open>
  Over any sequence of operations: what was popped and what is still queued is a subsequence, in
  order, of what was there and what was pushed, and the drop counter accounts for the difference.
\<close>

lemma run_queue_fifo:
  "wf q \<Longrightarrow> run_queue enq deq q ops = (out, q') \<Longrightarrow>
   wf q' \<and> subseq (out @ items q') (items q @ pushes ops) \<and>
   length out + length (items q') + drops q' = length (items q) + drops q + length (pushes ops)"
proof (induction ops arbitrary: q out)
  case Nil
  then show ?case by auto
next
  case (Cons a ops)
  show ?case
  proof (cases a)
    case (Push x)
    with Cons.prems have "run_queue enq deq (enq x q) ops = (out, q')" by simp
    with Cons.IH [OF wf_enq [OF Cons.prems(1)]]
    have "wf q' \<and> subseq (out @ items q') (items (enq x q) @ pushes ops) \<and>
        length out + length (items q') + drops q' =
        length (items (enq x q)) + drops (enq x q) + length (pushes ops)" .
    moreover have "subseq (items (enq x q) @ pushes ops) (items q @ x # pushes ops)"
      using Cons.prems(1) by (cases rule: enq_cases [of q x]) auto
    ultimately show ?thesis
      using Push enq_balance [OF Cons.prems(1), of x] subseq_order.order_trans by fastforce
  next
    case Pop
    obtain oo q1 where d: "deq q = (oo, q1)" by fastforce
    then have q1: "wf q1" "drops q1 = drops q" and it: "items q = (case oo of None \<Rightarrow> [] | Some x \<Rightarrow> x # items q1)"
      using wf_deq [OF Cons.prems(1)] deq_keeps [OF Cons.prems(1)] items_deq [OF Cons.prems(1)]
      by (simp_all split: option.split)
    show ?thesis
    proof (cases oo)
      case None
      then have "q1 = q" using d it deq_Nil [OF Cons.prems(1)] by simp
      with Pop None d Cons show ?thesis by simp
    next
      case (Some x)
      then obtain out' where "run_queue enq deq q1 ops = (out', q')" "out = x # out'"
        using Pop d Cons.prems(2) by (auto split: prod.splits)
      with Cons.IH [OF q1(1)] it Some Pop q1(2) show ?thesis by fastforce
    qed
  qed
qed

end

section \<open>The ring implements the contract\<close>

lemma length_snapshot [simp]: "length (snapshot r) = rb_size r"
  by (simp add: snapshot_def)

lemma rotate_index: "r < c \<Longrightarrow> i \<le> c \<Longrightarrow> (r + i) mod c = (if r + i < c then r + i else r + i - c)"
  for c r i :: nat
  by (simp add: mod_if)

lemma rotate_index_inj:
  fixes c r i j :: nat
  assumes "r < c" and "i < c" and "j < c" and "(r + i) mod c = (r + j) mod c"
  shows "i = j"
  using assms by (simp add: rotate_index split: if_splits)

lemma ring_wf_push: "ring_wf r \<Longrightarrow> ring_wf (push x r)"
  by (auto simp: ring_wf_def push_def push_locked_def Let_def mod_simps)

lemma ring_wf_pop: "ring_wf r \<Longrightarrow> ring_wf (snd (try_pop_oldest moved r))"
proof (cases "rb_size r")
  case 0
  then show "ring_wf r \<Longrightarrow> ?thesis" by (simp add: try_pop_oldest_def)
next
  case (Suc n)
  then show "ring_wf r \<Longrightarrow> ?thesis" by (auto simp: ring_wf_def try_pop_oldest_def Let_def mod_simps)
qed

lemma snapshot_push_room:
  assumes wf: "ring_wf r" and room: "rb_size r < length (rb_buffer r)"
  shows "snapshot (push x r) = snapshot r @ [x]"
proof (rule nth_equalityI)
  let ?c = "length (rb_buffer r)"
  show "length (snapshot (push x r)) = length (snapshot r @ [x])"
    using room by (simp add: push_def push_locked_def)
  fix i assume "i < length (snapshot (push x r))"
  then have i: "i \<le> rb_size r" using room by (simp add: push_def push_locked_def)
  show "snapshot (push x r) ! i = (snapshot r @ [x]) ! i"
  proof (cases "i = rb_size r")
    case True
    then show ?thesis using wf room
      by (simp add: snapshot_def push_def push_locked_def ring_wf_def nth_append)
  next
    case False
    with i have lt: "i < rb_size r" by simp
    have "(rb_read_index r + rb_size r) mod ?c \<noteq> (rb_read_index r + i) mod ?c"
      using wf room lt rotate_index_inj [of "rb_read_index r" ?c "rb_size r" i] by (auto simp: ring_wf_def)
    then show ?thesis using wf room lt
      by (simp add: snapshot_def push_def push_locked_def ring_wf_def nth_append)
  qed
qed

lemma snapshot_push_full:
  assumes wf: "ring_wf r" and full: "rb_size r = length (rb_buffer r)"
  shows "snapshot (push x r) = tl (snapshot r) @ [x]"
proof (rule nth_equalityI)
  let ?c = "length (rb_buffer r)"
  have c: "0 < ?c" and rd: "rb_read_index r < ?c" and wr: "rb_write_index r = rb_read_index r"
    using wf full by (auto simp: ring_wf_def)
  show "length (snapshot (push x r)) = length (tl (snapshot r) @ [x])"
    using c full by (simp add: push_def push_locked_def)
  fix i assume "i < length (snapshot (push x r))"
  then have i: "i < ?c" using full by (simp add: push_def push_locked_def)
  have idx: "(Suc (rb_read_index r) mod ?c + i) mod ?c = (rb_read_index r + Suc i) mod ?c"
    by (simp add: mod_simps)
  show "snapshot (push x r) ! i = (tl (snapshot r) @ [x]) ! i"
  proof (cases "Suc i = ?c")
    case True
    then have "(rb_read_index r + Suc i) mod ?c = rb_read_index r" using rd by simp
    moreover have "\<not> i < ?c - Suc 0" "i - (?c - Suc 0) = 0" using True by simp_all
    ultimately show ?thesis using full i rd wr idx
      by (simp add: snapshot_def push_def push_locked_def nth_append)
  next
    case False
    then have si: "Suc i < ?c" using i by simp
    then have "(rb_read_index r + Suc i) mod ?c \<noteq> rb_read_index r"
      using rotate_index_inj [of "rb_read_index r" ?c "Suc i" 0] rd by force
    moreover have "i < ?c - Suc 0" using si by simp
    ultimately show ?thesis using full i rd wr idx si
      by (simp add: snapshot_def push_def push_locked_def nth_append nth_tl)
  qed
qed

lemma snapshot_pop:
  assumes wf: "ring_wf r" and ne: "rb_size r \<noteq> 0"
  shows "snapshot r = rb_buffer r ! rb_read_index r # snapshot (snd (try_pop_oldest moved r))"
proof (rule nth_equalityI)
  let ?c = "length (rb_buffer r)"
  have rd: "rb_read_index r < ?c" and sz: "rb_size r \<le> ?c" using wf by (auto simp: ring_wf_def)
  show "length (snapshot r) = length (rb_buffer r ! rb_read_index r # snapshot (snd (try_pop_oldest moved r)))"
    using ne by (simp add: try_pop_oldest_def Let_def)
  fix i assume "i < length (snapshot r)"
  then have i: "i < rb_size r" by simp
  show "snapshot r ! i = (rb_buffer r ! rb_read_index r # snapshot (snd (try_pop_oldest moved r))) ! i"
  proof (cases i)
    case 0
    then show ?thesis using i rd by (simp add: snapshot_def)
  next
    case (Suc j)
    then have "(rb_read_index r + Suc j) mod ?c \<noteq> rb_read_index r"
      using rotate_index_inj [of "rb_read_index r" ?c "Suc j" 0] rd sz i by force
    then show ?thesis using Suc i ne
      by (simp add: snapshot_def try_pop_oldest_def Let_def mod_simps)
  qed
qed

interpretation rq: drop_oldest_queue push "try_pop_oldest moved" snapshot capacity dropped_count ring_wf
proof
  fix q :: "'a ring" and x :: 'a and xs :: "'a list"
  assume wf: "ring_wf q"
  show "ring_wf (push x q)" using wf by (rule ring_wf_push)
  show "ring_wf (snd (try_pop_oldest moved q))" using wf by (rule ring_wf_pop)
  show "snapshot (push x q) = drop_oldest_push (capacity q) x (snapshot q)"
    using wf snapshot_push_full [OF wf] snapshot_push_room [OF wf]
    by (auto simp: drop_oldest_push_def capacity_def ring_wf_def nat_less_le)
  show "dropped_count (push x q) = dropped_count q + (if length (snapshot q) = capacity q then 1 else 0)"
    by (simp add: dropped_count_def push_def push_locked_def capacity_def Let_def)
  show "capacity (push x q) = capacity q"
    by (simp add: capacity_def push_def push_locked_def Let_def)
  show "0 < capacity q" and "length (snapshot q) \<le> capacity q"
    using wf by (auto simp: capacity_def ring_wf_def)
  show "snapshot q = [] \<Longrightarrow> try_pop_oldest moved q = (None, q)"
    using length_snapshot [of q] by (simp add: try_pop_oldest_def)
  show "snapshot q = x # xs \<Longrightarrow>
      fst (try_pop_oldest moved q) = Some x \<and> snapshot (snd (try_pop_oldest moved q)) = xs \<and>
      capacity (snd (try_pop_oldest moved q)) = capacity q \<and>
      dropped_count (snd (try_pop_oldest moved q)) = dropped_count q"
    using snapshot_pop [OF wf, of moved] length_snapshot [of q]
    by (auto simp: try_pop_oldest_def capacity_def dropped_count_def Let_def)
qed

lemma ring_wf_RingBuffer: "RingBuffer d n = Inr r \<Longrightarrow> ring_wf r"
  by (auto simp: RingBuffer_def ring_wf_def)

lemma RingBuffer_fields:
  "RingBuffer d n = Inr r \<Longrightarrow> snapshot r = [] \<and> capacity r = n \<and> dropped_count r = 0 \<and> 0 < n"
  by (auto simp: RingBuffer_def snapshot_def capacity_def dropped_count_def)

section \<open>Properties\<close>

text \<open>
  C9: the ring buffer refines the abstract bounded queue. Whatever sequence of pushes and pops is run
  on a ring of capacity \<open>n\<close>, the popped elements and the final snapshot are those of a list to which
  elements are appended, from which the head is removed, and which forgets its head when an element
  is appended to \<open>n\<close> others. The wrap-around of the indices is never visible.
\<close>

theorem ring_refines_queue:
  assumes "RingBuffer d n = Inr r"
  shows "run_queue (drop_oldest_push n) list_pop [] ops =
    (fst (run_ring moved r ops), snapshot (snd (run_ring moved r ops)))"
  using rq.run_queue_refines [OF ring_wf_RingBuffer [OF assms], of n ops moved] RingBuffer_fields [OF assms]
  by (simp add: run_ring_def)

theorem ring_refines_queue_witness:
  "run_queue (drop_oldest_push 2) list_pop [] [Push (1 :: nat), Push 2, Push 3, Pop, Push 4] =
    (fst (run_ring id \<lparr>rb_buffer = [0, 0], rb_read_index = 0, rb_write_index = 0, rb_size = 0, rb_dropped_count = 0\<rparr>
       [Push 1, Push 2, Push 3, Pop, Push 4]),
     snapshot (snd (run_ring id \<lparr>rb_buffer = [0, 0], rb_read_index = 0, rb_write_index = 0, rb_size = 0, rb_dropped_count = 0\<rparr>
       [Push 1, Push 2, Push 3, Pop, Push 4])))"
  by (rule ring_refines_queue [of 0]) (simp add: RingBuffer_def numeral_2_eq_2)

text \<open>
  No element is reordered, duplicated or lost silently. After any run on a fresh ring the class
  invariant holds, the popped elements followed by the queued ones are a subsequence of the pushed
  ones, at most \<open>capacity\<close> elements are queued, and popped, queued and dropped elements add up to the
  pushed ones.
\<close>

theorem ring_conservation:
  assumes "RingBuffer d n = Inr r" and "run_ring moved r ops = (out, r')"
  shows "ring_wf r' \<and> subseq (out @ snapshot r') (pushes ops) \<and> ring_size r' \<le> n \<and>
    length out + ring_size r' + dropped_count r' = length (pushes ops)"
proof -
  note init = RingBuffer_fields [OF assms(1)]
  have "ring_wf r' \<and> subseq (out @ snapshot r') (snapshot r @ pushes ops) \<and>
      length out + length (snapshot r') + dropped_count r' = length (snapshot r) + dropped_count r + length (pushes ops)"
    using rq.run_queue_fifo [OF ring_wf_RingBuffer [OF assms(1)]] assms(2) by (simp add: run_ring_def)
  moreover from this have "length (snapshot r') \<le> n"
    using rq.items_limit [of r'] rq.run_queue_limit [OF ring_wf_RingBuffer [OF assms(1)]] assms(2) init by (simp add: run_ring_def)
  ultimately show ?thesis using init by (simp add: ring_size_def)
qed

theorem ring_conservation_witness:
  "let (out, r') = run_ring id \<lparr>rb_buffer = [0, 0], rb_read_index = 0, rb_write_index = 0, rb_size = 0, rb_dropped_count = 0\<rparr>
         [Push (1 :: nat), Push 2, Push 3, Pop]
   in out = [2] \<and> subseq (out @ snapshot r') [1, 2, 3] \<and> length out + ring_size r' + dropped_count r' = 3"
proof -
  let ?r = "\<lparr>rb_buffer = [0, 0 :: nat], rb_read_index = 0, rb_write_index = 0, rb_size = 0, rb_dropped_count = 0\<rparr>"
  let ?ops = "[Push (1 :: nat), Push 2, Push 3, Pop]"
  have "RingBuffer 0 2 = Inr ?r" by (simp add: RingBuffer_def numeral_2_eq_2)
  from ring_conservation [OF this surjective_pairing, of id ?ops]
  have "subseq (fst (run_ring id ?r ?ops) @ snapshot (snd (run_ring id ?r ?ops))) [1, 2, 3] \<and>
    length (fst (run_ring id ?r ?ops)) + ring_size (snd (run_ring id ?r ?ops)) +
    dropped_count (snd (run_ring id ?r ?ops)) = 3" by simp
  moreover have "fst (run_ring id ?r ?ops) = [2]"
    by (simp add: run_ring_def push_def push_locked_def try_pop_oldest_def)
  ultimately show ?thesis by (simp add: case_prod_beta)
qed

end
