(* ===== verification/Capture_Recovery.thy ===== *)
theory Capture_Recovery
  imports Capture_Prelude
begin

text \<open>
  The policy objects of \<open>include/capture_recovery.hpp\<close> and the error names of
  \<open>include/camera_capture_error.hpp\<close>. \<open>CaptureRecoveryController\<close> decides when a capture error makes
  the pipeline rebuild the V4L2 stream and how many attempts one incident may take;
  \<open>InvalidFrameRecoveryController\<close> watches frames that fail validation and asks for a rebuild after a
  streak, subject to a cooldown and a budget per process. Both are plain state machines: a method is
  a function from the state to its result and the new state.
\<close>

definition camera_capture_error_kind_name :: "camera_capture_error_kind \<Rightarrow> string" where
  "camera_capture_error_kind_name kind = (case kind of
      Timeout \<Rightarrow> ''timeout''
    | TemporaryUnavailable \<Rightarrow> ''temporary_unavailable''
    | DeviceUnavailable \<Rightarrow> ''device_unavailable''
    | StreamFailure \<Rightarrow> ''stream_failure''
    | InvalidBufferMetadata \<Rightarrow> ''invalid_buffer_metadata'')"

section \<open>Capture errors\<close>

record capture_recovery =
  timeout_threshold :: int
  max_recovery_attempts :: int
  consecutive_timeouts :: int
  recovery_attempts :: int

definition CaptureRecoveryController :: "int \<Rightarrow> int \<Rightarrow> capture_recovery result" where
  "CaptureRecoveryController threshold max_attempts =
     throw_if (threshold \<le> 0) (InvalidArgument ''timeout_threshold must be positive'')
     (throw_if (max_attempts \<le> 0) (InvalidArgument ''max_recovery_attempts must be positive'')
     (Inr \<lparr>timeout_threshold = threshold, max_recovery_attempts = max_attempts,
           consecutive_timeouts = 0, recovery_attempts = 0\<rparr>))"

definition should_reinitialize ::
    "camera_capture_error_kind \<Rightarrow> capture_recovery \<Rightarrow> bool \<times> capture_recovery" where
  "should_reinitialize kind c = (case kind of
      Timeout \<Rightarrow>
        (let c = c\<lparr>consecutive_timeouts := consecutive_timeouts c + 1\<rparr>
         in (consecutive_timeouts c \<ge> timeout_threshold c, c))
    | TemporaryUnavailable \<Rightarrow> (False, c)
    | _ \<Rightarrow> (True, c))"

definition begin_recovery_attempt :: "capture_recovery \<Rightarrow> bool \<times> capture_recovery" where
  "begin_recovery_attempt c =
     (if recovery_attempts c \<ge> max_recovery_attempts c then (False, c)
      else (True, c\<lparr>recovery_attempts := recovery_attempts c + 1\<rparr>))"

definition on_capture_success :: "capture_recovery \<Rightarrow> capture_recovery" where
  "on_capture_success c = c\<lparr>consecutive_timeouts := 0, recovery_attempts := 0\<rparr>"

definition on_recovery_success :: "capture_recovery \<Rightarrow> capture_recovery" where
  "on_recovery_success c = c\<lparr>consecutive_timeouts := 0, recovery_attempts := 0\<rparr>"

section \<open>Invalid frames\<close>

datatype invalid_frame_decision = NoAction | Recover | SuppressedByCooldown | SuppressedByBudget

record invalid_recovery =
  if_threshold :: int
  cooldown_frames :: int
  max_recoveries :: int
  consecutive_invalid :: int
  peak_invalid :: int
  cooldown_remaining :: int
  recoveries_completed :: int
  suppressed_by_cooldown :: int
  suppressed_by_budget :: int

definition InvalidFrameRecoveryController :: "int \<Rightarrow> int \<Rightarrow> int \<Rightarrow> invalid_recovery result" where
  "InvalidFrameRecoveryController threshold cooldown recoveries =
     throw_if (threshold \<le> 0) (InvalidArgument ''invalid-frame threshold must be positive'')
     (throw_if (cooldown < 0) (InvalidArgument ''invalid-frame cooldown must be non-negative'')
     (throw_if (recoveries \<le> 0) (InvalidArgument ''invalid-frame recovery budget must be positive'')
     (Inr \<lparr>if_threshold = threshold, cooldown_frames = cooldown, max_recoveries = recoveries,
           consecutive_invalid = 0, peak_invalid = 0, cooldown_remaining = 0,
           recoveries_completed = 0, suppressed_by_cooldown = 0, suppressed_by_budget = 0\<rparr>)))"

definition observe :: "bool \<Rightarrow> invalid_recovery \<Rightarrow> invalid_frame_decision \<times> invalid_recovery" where
  "observe frame_valid c =
    (let c = (if cooldown_remaining c > 0
              then c\<lparr>cooldown_remaining := cooldown_remaining c - 1\<rparr> else c) in
     if frame_valid then (NoAction, c\<lparr>consecutive_invalid := 0\<rparr>)
     else
       let c = c\<lparr>consecutive_invalid := consecutive_invalid c + 1\<rparr>;
           c = (if consecutive_invalid c > peak_invalid c
                then c\<lparr>peak_invalid := consecutive_invalid c\<rparr> else c) in
       if consecutive_invalid c < if_threshold c then (NoAction, c)
       else
         let c = c\<lparr>consecutive_invalid := 0\<rparr> in
         if cooldown_remaining c > 0 then
           (SuppressedByCooldown, c\<lparr>suppressed_by_cooldown := suppressed_by_cooldown c + 1\<rparr>)
         else if recoveries_completed c \<ge> max_recoveries c then
           (SuppressedByBudget, c\<lparr>suppressed_by_budget := suppressed_by_budget c + 1\<rparr>)
         else (Recover, c))"

definition on_invalid_frame_recovery_success :: "invalid_recovery \<Rightarrow> invalid_recovery" where
  "on_invalid_frame_recovery_success c =
     c\<lparr>consecutive_invalid := 0, cooldown_remaining := cooldown_frames c,
       recoveries_completed := recoveries_completed c + 1\<rparr>"

definition on_external_recovery_success :: "invalid_recovery \<Rightarrow> invalid_recovery" where
  "on_external_recovery_success c =
     c\<lparr>consecutive_invalid := 0, cooldown_remaining := cooldown_frames c\<rparr>"

section \<open>Runs\<close>

text \<open>
  What the producer does with the controller: it reports every frame, and a rebuild it was asked for
  may succeed (\<open>Observe v True\<close>) or not; a rebuild after a capture error is \<open>External\<close>.
\<close>

datatype invalid_event = Observe bool bool | External

definition invalid_step :: "invalid_event \<Rightarrow> invalid_recovery \<Rightarrow> invalid_frame_decision \<times> invalid_recovery" where
  "invalid_step e c = (case e of
      Observe v rebuilt \<Rightarrow>
        (case observe v c of (d, c') \<Rightarrow>
           (d, if d = Recover \<and> rebuilt then on_invalid_frame_recovery_success c' else c'))
    | External \<Rightarrow> (NoAction, on_external_recovery_success c))"

fun invalid_run :: "invalid_event list \<Rightarrow> invalid_recovery \<Rightarrow> invalid_frame_decision list \<times> invalid_recovery" where
  "invalid_run [] c = ([], c)"
| "invalid_run (e # es) c =
     (case invalid_step e c of (d, c') \<Rightarrow> case invalid_run es c' of (ds, c'') \<Rightarrow> (d # ds, c''))"

text \<open>The number of invalid frames at the end of the history, newest event last.\<close>

definition streak :: "invalid_event list \<Rightarrow> nat" where
  "streak es = length (takeWhile (\<lambda>e. \<exists>b. e = Observe False b) (rev es))"

text \<open>Repeated calls of \<open>should_reinitialize\<close> and \<open>begin_recovery_attempt\<close>.\<close>

fun reinitialize_run :: "camera_capture_error_kind list \<Rightarrow> capture_recovery \<Rightarrow> bool list \<times> capture_recovery" where
  "reinitialize_run [] c = ([], c)"
| "reinitialize_run (k # ks) c =
     (case should_reinitialize k c of (b, c') \<Rightarrow>
        case reinitialize_run ks c' of (bs, c'') \<Rightarrow> (b # bs, c''))"

fun attempt_run :: "nat \<Rightarrow> capture_recovery \<Rightarrow> bool list \<times> capture_recovery" where
  "attempt_run 0 c = ([], c)"
| "attempt_run (Suc n) c =
     (case begin_recovery_attempt c of (b, c') \<Rightarrow>
        case attempt_run n c' of (bs, c'') \<Rightarrow> (b # bs, c''))"

text \<open>The state invariants: counters inside the configured limits, so no \<open>int\<close> can overflow.\<close>

definition capture_recovery_wf :: "capture_recovery \<Rightarrow> bool" where
  "capture_recovery_wf c \<longleftrightarrow>
     0 < timeout_threshold c \<and> 0 < max_recovery_attempts c \<and> 0 \<le> consecutive_timeouts c \<and>
     0 \<le> recovery_attempts c \<and> recovery_attempts c \<le> max_recovery_attempts c"

definition invalid_recovery_wf :: "invalid_recovery \<Rightarrow> bool" where
  "invalid_recovery_wf c \<longleftrightarrow>
     0 < if_threshold c \<and> 0 \<le> cooldown_frames c \<and> 0 < max_recoveries c \<and>
     0 \<le> consecutive_invalid c \<and> consecutive_invalid c < if_threshold c \<and>
     consecutive_invalid c \<le> peak_invalid c \<and> peak_invalid c \<le> if_threshold c \<and>
     0 \<le> cooldown_remaining c \<and> cooldown_remaining c \<le> cooldown_frames c \<and>
     0 \<le> recoveries_completed c \<and> recoveries_completed c \<le> max_recoveries c \<and>
     0 \<le> suppressed_by_cooldown c \<and> 0 \<le> suppressed_by_budget c"

section \<open>Lemmas\<close>

lemmas recovery_defs = should_reinitialize_def begin_recovery_attempt_def on_capture_success_def
  on_recovery_success_def

lemmas invalid_defs = invalid_step_def observe_def on_invalid_frame_recovery_success_def
  on_external_recovery_success_def Let_def

lemma capture_recovery_wf_init:
  "CaptureRecoveryController t m = Inr c \<Longrightarrow> capture_recovery_wf c"
  by (auto simp: CaptureRecoveryController_def capture_recovery_wf_def)

lemma capture_recovery_wf_steps:
  assumes "capture_recovery_wf c"
  shows "capture_recovery_wf (snd (should_reinitialize k c))"
    and "capture_recovery_wf (snd (begin_recovery_attempt c))"
    and "capture_recovery_wf (on_capture_success c)"
    and "capture_recovery_wf (on_recovery_success c)"
  using assms by (auto simp: capture_recovery_wf_def recovery_defs Let_def
      split: camera_capture_error_kind.splits)

lemma capture_recovery_config:
  "timeout_threshold (snd (should_reinitialize k c)) = timeout_threshold c"
  "max_recovery_attempts (snd (should_reinitialize k c)) = max_recovery_attempts c"
  "timeout_threshold (snd (begin_recovery_attempt c)) = timeout_threshold c"
  "max_recovery_attempts (snd (begin_recovery_attempt c)) = max_recovery_attempts c"
  "timeout_threshold (on_recovery_success c) = timeout_threshold c"
  "max_recovery_attempts (on_recovery_success c) = max_recovery_attempts c"
  by (auto simp: recovery_defs Let_def split: camera_capture_error_kind.splits)

lemma reinitialize_run_timeouts:
  "fst (reinitialize_run (replicate n Timeout) c) =
     map (\<lambda>i. timeout_threshold c \<le> consecutive_timeouts c + int i) [1..<n + 1]"
proof (induction n arbitrary: c)
  case 0
  then show ?case by simp
next
  case (Suc n)
  let ?c = "snd (should_reinitialize Timeout c)"
  have "fst (reinitialize_run (replicate (Suc n) Timeout) c) =
      (timeout_threshold c \<le> consecutive_timeouts c + 1) # fst (reinitialize_run (replicate n Timeout) ?c)"
    by (simp add: should_reinitialize_def Let_def split: prod.splits)
  also have "\<dots> = (timeout_threshold c \<le> consecutive_timeouts c + 1) #
      map (\<lambda>i. timeout_threshold c \<le> consecutive_timeouts c + int (Suc i)) [1..<n + 1]"
    by (simp only: Suc.IH) (simp add: should_reinitialize_def Let_def add.assoc)
  also have "\<dots> = map (\<lambda>i. timeout_threshold c \<le> consecutive_timeouts c + int i) (1 # map Suc [1..<n + 1])"
    by (simp add: comp_def)
  also have "1 # map Suc [1..<n + 1] = [1..<Suc n + 1]"
    by (simp add: map_Suc_upt upt_conv_Cons del: upt_Suc)
  finally show ?case .
qed

lemma attempt_run_budget:
  assumes "capture_recovery_wf c"
  shows "fst (attempt_run n c) =
     map (\<lambda>i. int i < max_recovery_attempts c - recovery_attempts c) [0..<n]"
  using assms
proof (induction n arbitrary: c)
  case 0
  then show ?case by simp
next
  case (Suc n)
  let ?c = "snd (begin_recovery_attempt c)"
  have "fst (attempt_run (Suc n) c) = fst (begin_recovery_attempt c) # fst (attempt_run n ?c)"
    by (simp split: prod.splits)
  also have "\<dots> = (0 < max_recovery_attempts c - recovery_attempts c) #
      map (\<lambda>i. int (Suc i) < max_recovery_attempts c - recovery_attempts c) [0..<n]"
    using Suc.prems by (simp add: Suc.IH capture_recovery_wf_steps)
      (auto simp: begin_recovery_attempt_def capture_recovery_wf_def)
  also have "\<dots> = map (\<lambda>i. int i < max_recovery_attempts c - recovery_attempts c) (0 # map Suc [0..<n])"
    by (simp add: comp_def)
  also have "0 # map Suc [0..<n] = [0..<Suc n]"
    by (simp add: map_Suc_upt upt_conv_Cons del: upt_Suc)
  finally show ?case .
qed

lemma invalid_recovery_wf_init:
  "InvalidFrameRecoveryController t k m = Inr c \<Longrightarrow> invalid_recovery_wf c"
  by (auto simp: InvalidFrameRecoveryController_def invalid_recovery_wf_def)

lemma invalid_step_wf:
  "invalid_recovery_wf c \<Longrightarrow> invalid_recovery_wf (snd (invalid_step e c))"
  by (auto simp: invalid_recovery_wf_def invalid_defs split: invalid_event.splits if_splits)

lemma invalid_step_config:
  "if_threshold (snd (invalid_step e c)) = if_threshold c"
  "cooldown_frames (snd (invalid_step e c)) = cooldown_frames c"
  "max_recoveries (snd (invalid_step e c)) = max_recoveries c"
  by (auto simp: invalid_defs split: invalid_event.splits if_splits)

lemma invalid_run_Cons [simp]:
  "fst (invalid_run (e # es) c) = fst (invalid_step e c) # fst (invalid_run es (snd (invalid_step e c)))"
  "snd (invalid_run (e # es) c) = snd (invalid_run es (snd (invalid_step e c)))"
  by (simp_all split: prod.splits)

declare invalid_run.simps(2) [simp del]

lemma invalid_run_snoc:
  "fst (invalid_run (es @ [e]) c) = fst (invalid_run es c) @ [fst (invalid_step e (snd (invalid_run es c)))]"
  "snd (invalid_run (es @ [e]) c) = snd (invalid_step e (snd (invalid_run es c)))"
  by (induction es arbitrary: c) simp_all

lemma invalid_run_wf:
  "invalid_recovery_wf c \<Longrightarrow> invalid_recovery_wf (snd (invalid_run es c))"
  by (induction es arbitrary: c) (simp_all add: invalid_step_wf)

lemma invalid_run_config:
  "if_threshold (snd (invalid_run es c)) = if_threshold c"
  "cooldown_frames (snd (invalid_run es c)) = cooldown_frames c"
  "max_recoveries (snd (invalid_run es c)) = max_recoveries c"
  by (induction es arbitrary: c) (simp_all add: invalid_step_config)

lemma streak_snoc:
  "streak (es @ [Observe v b]) = (if v then 0 else Suc (streak es))"
  by (simp add: streak_def)

text \<open>A decision is taken exactly when the current streak is a positive multiple of the threshold.\<close>

lemma observe_streak:
  assumes "invalid_recovery_wf c" and "consecutive_invalid c = int s mod if_threshold c"
  shows "consecutive_invalid (snd (invalid_step (Observe v b) c)) =
           int (if v then 0 else Suc s) mod if_threshold c"
    and "fst (invalid_step (Observe v b) c) \<noteq> NoAction \<longleftrightarrow> \<not> v \<and> if_threshold c dvd int (Suc s)"
proof -
  let ?t = "if_threshold c" and ?k = "consecutive_invalid c"
  have t: "0 < ?t" and k: "0 \<le> ?k" "?k < ?t" using assms(1) by (auto simp: invalid_recovery_wf_def)
  have s: "int (Suc s) mod ?t = (?k + 1) mod ?t"
    using assms(2) by (simp add: mod_simps add.commute)
  have m: "(?k + 1) mod ?t = (if ?k + 1 < ?t then ?k + 1 else 0)"
  proof (cases "?k + 1 < ?t")
    case True
    with k show ?thesis by simp
  next
    case False
    with k have "?k + 1 = ?t" by simp
    then show ?thesis by simp
  qed
  show "consecutive_invalid (snd (invalid_step (Observe v b) c)) =
           int (if v then 0 else Suc s) mod ?t"
    using s m by (auto simp: invalid_defs simp del: of_nat_Suc)
  show "fst (invalid_step (Observe v b) c) \<noteq> NoAction \<longleftrightarrow> \<not> v \<and> ?t dvd int (Suc s)"
    using s m k unfolding dvd_eq_mod_eq_0 by (auto simp: invalid_defs simp del: of_nat_Suc)
qed

lemma invalid_run_streak:
  assumes "InvalidFrameRecoveryController t k m = Inr c" and "External \<notin> set es"
  shows "consecutive_invalid (snd (invalid_run es c)) = int (streak es) mod t"
  using assms(2)
proof (induction es rule: rev_induct)
  case Nil
  then show ?case using assms(1)
    by (auto simp: InvalidFrameRecoveryController_def streak_def)
next
  case (snoc e es)
  obtain v b where e: "e = Observe v b" using snoc.prems by (cases e) auto
  have t: "if_threshold (snd (invalid_run es c)) = t"
    using assms(1) by (simp add: invalid_run_config) (auto simp: InvalidFrameRecoveryController_def)
  have "invalid_recovery_wf (snd (invalid_run es c))"
    using assms(1) by (simp add: invalid_run_wf invalid_recovery_wf_init)
  then show ?case
    using observe_streak(1) [of "snd (invalid_run es c)" "streak es" v b] snoc t
    by (simp add: e invalid_run_snoc streak_snoc)
qed

text \<open>No rebuild is requested while the cooldown lasts.\<close>

lemma invalid_run_cooldown:
  assumes "invalid_recovery_wf c" and "int (length es) < cooldown_remaining c"
  shows "Recover \<notin> set (fst (invalid_run es c))"
  using assms
proof (induction es arbitrary: c)
  case Nil
  then show ?case by simp
next
  case (Cons e es)
  have "cooldown_remaining c - 1 \<le> cooldown_remaining (snd (invalid_step e c))"
    and "fst (invalid_step e c) \<noteq> Recover"
    using Cons.prems by (auto simp: invalid_defs invalid_recovery_wf_def split: invalid_event.splits)
  with Cons show ?case by (auto simp: invalid_step_wf)
qed

text \<open>Every completed rebuild is charged to the budget, and the budget is never exceeded.\<close>

definition completed_rebuilds :: "invalid_event list \<Rightarrow> invalid_frame_decision list \<Rightarrow> nat" where
  "completed_rebuilds es ds =
     length (filter (\<lambda>(e, d). d = Recover \<and> (\<exists>v. e = Observe v True)) (zip es ds))"

lemma invalid_run_budget:
  assumes "invalid_recovery_wf c"
  shows "recoveries_completed (snd (invalid_run es c)) =
     recoveries_completed c + int (completed_rebuilds es (fst (invalid_run es c)))"
  using assms
proof (induction es arbitrary: c)
  case Nil
  then show ?case by (simp add: completed_rebuilds_def)
next
  case (Cons e es)
  have "recoveries_completed (snd (invalid_step e c)) =
      recoveries_completed c + (if fst (invalid_step e c) = Recover \<and> (\<exists>v. e = Observe v True) then 1 else 0)"
    by (auto simp: invalid_defs split: invalid_event.splits)
  with Cons show ?case by (simp add: invalid_step_wf completed_rebuilds_def)
qed

section \<open>Properties\<close>

text \<open>
  C37: a fresh controller asks for a reinitialization at the \<open>i\<close>-th consecutive timeout exactly when
  \<open>i\<close> has reached the threshold, and within one incident it grants exactly
  \<open>max_recovery_attempts\<close> attempts however often it is asked.
\<close>

theorem capture_recovery_policy:
  assumes "CaptureRecoveryController threshold attempts = Inr c"
  shows "fst (reinitialize_run (replicate n Timeout) c) = map (\<lambda>i. threshold \<le> int i) [1..<n + 1] \<and>
    fst (attempt_run m c) = map (\<lambda>i. int i < attempts) [0..<m]"
proof -
  have c: "timeout_threshold c = threshold" "consecutive_timeouts c = 0"
    "max_recovery_attempts c = attempts" "recovery_attempts c = 0"
    using assms by (auto simp: CaptureRecoveryController_def)
  then show ?thesis
    using attempt_run_budget [OF capture_recovery_wf_init [OF assms], of m]
    by (simp add: reinitialize_run_timeouts)
qed

theorem capture_recovery_policy_witness:
  "fst (reinitialize_run (replicate 3 Timeout)
      \<lparr>timeout_threshold = 2, max_recovery_attempts = 1, consecutive_timeouts = 0, recovery_attempts = 0\<rparr>) =
     [False, True, True] \<and>
   fst (attempt_run 2
      \<lparr>timeout_threshold = 2, max_recovery_attempts = 1, consecutive_timeouts = 0, recovery_attempts = 0\<rparr>) =
     [True, False]"
  using capture_recovery_policy [of 2 1
      "\<lparr>timeout_threshold = 2, max_recovery_attempts = 1, consecutive_timeouts = 0, recovery_attempts = 0\<rparr>" 3 2]
  by (simp add: CaptureRecoveryController_def upt_rec numeral_eq_Suc)

text \<open>
  C35: as long as no external recovery intervenes, the invalid-frame controller takes a decision at a
  frame exactly when that frame is invalid and the streak of invalid frames ending there is a
  multiple of the threshold; the streak it remembers is the true one modulo the threshold.
\<close>

theorem invalid_frame_streak_policy:
  assumes "InvalidFrameRecoveryController threshold cooldown recoveries = Inr c" and "External \<notin> set es"
  shows "fst (invalid_step (Observe v b) (snd (invalid_run es c))) \<noteq> NoAction \<longleftrightarrow>
      \<not> v \<and> threshold dvd int (streak (es @ [Observe v b]))"
    (is "?l \<longleftrightarrow> ?r")
proof -
  let ?c = "snd (invalid_run es c)"
  have t: "if_threshold ?c = threshold"
    using assms(1) by (simp add: invalid_run_config) (auto simp: InvalidFrameRecoveryController_def)
  have wf: "invalid_recovery_wf ?c" using assms(1) by (simp add: invalid_run_wf invalid_recovery_wf_init)
  have "consecutive_invalid ?c = int (streak es) mod if_threshold ?c"
    using invalid_run_streak [OF assms] t by simp
  from observe_streak(2) [OF wf this, of v b] t show ?thesis by (auto simp: streak_snoc)
qed

theorem invalid_frame_streak_policy_witness:
  "fst (invalid_step (Observe False True) (snd (invalid_run [Observe True True, Observe False True]
      \<lparr>if_threshold = 2, cooldown_frames = 5, max_recoveries = 1, consecutive_invalid = 0, peak_invalid = 0,
       cooldown_remaining = 0, recoveries_completed = 0, suppressed_by_cooldown = 0, suppressed_by_budget = 0\<rparr>)))
     \<noteq> NoAction"
proof -
  let ?c = "\<lparr>if_threshold = 2, cooldown_frames = 5, max_recoveries = 1, consecutive_invalid = 0, peak_invalid = 0,
       cooldown_remaining = 0, recoveries_completed = 0, suppressed_by_cooldown = 0, suppressed_by_budget = 0\<rparr>"
  have "InvalidFrameRecoveryController 2 5 1 = Inr ?c" by (simp add: InvalidFrameRecoveryController_def)
  from invalid_frame_streak_policy [OF this, of "[Observe True True, Observe False True]" False True]
  show ?thesis by (simp add: streak_def)
qed

text \<open>
  However frames, rebuilds and external recoveries are interleaved, the controller's counters
  stay within the configured limits (so the source's \<open>int\<close> counters of streak, peak, cooldown and
  budget cannot overflow), and the rebuilds it asked for that completed never exceed the budget.
\<close>

theorem invalid_frame_recovery_bounded:
  assumes "InvalidFrameRecoveryController threshold cooldown recoveries = Inr c"
  shows "invalid_recovery_wf (snd (invalid_run es c)) \<and>
    int (completed_rebuilds es (fst (invalid_run es c))) \<le> recoveries"
proof -
  let ?c = "snd (invalid_run es c)"
  have wf: "invalid_recovery_wf c" using assms by (rule invalid_recovery_wf_init)
  have wf': "invalid_recovery_wf ?c" using wf by (rule invalid_run_wf)
  have "max_recoveries ?c = recoveries" "recoveries_completed c = 0"
    using assms by (auto simp: invalid_run_config InvalidFrameRecoveryController_def)
  then show ?thesis
    using invalid_run_budget [OF wf, of es] wf' by (auto simp: invalid_recovery_wf_def)
qed

theorem invalid_frame_recovery_bounded_witness:
  "int (completed_rebuilds (replicate 3 (Observe False True))
     (fst (invalid_run (replicate 3 (Observe False True))
       \<lparr>if_threshold = 1, cooldown_frames = 0, max_recoveries = 2, consecutive_invalid = 0, peak_invalid = 0,
        cooldown_remaining = 0, recoveries_completed = 0, suppressed_by_cooldown = 0, suppressed_by_budget = 0\<rparr>))) \<le> 2"
proof -
  let ?c = "\<lparr>if_threshold = 1, cooldown_frames = 0, max_recoveries = 2, consecutive_invalid = 0, peak_invalid = 0,
        cooldown_remaining = 0, recoveries_completed = 0, suppressed_by_cooldown = 0, suppressed_by_budget = 0\<rparr>"
  have "InvalidFrameRecoveryController 1 0 2 = Inr ?c" by (simp add: InvalidFrameRecoveryController_def)
  from invalid_frame_recovery_bounded [OF this, of "replicate 3 (Observe False True)"]
  show ?thesis by simp
qed

text \<open>
  After a rebuild that the controller requested and that completed, whatever happened before,
  none of the next \<open>cooldown - 1\<close> events makes it request another one.
\<close>

theorem invalid_frame_cooldown:
  assumes "InvalidFrameRecoveryController threshold cooldown recoveries = Inr c"
    and "fst (invalid_step (Observe v True) (snd (invalid_run es c))) = Recover"
    and "int (length fs) < cooldown"
  shows "Recover \<notin> set (fst (invalid_run fs (snd (invalid_run (es @ [Observe v True]) c))))"
proof -
  let ?c = "snd (invalid_run (es @ [Observe v True]) c)"
  have wf: "invalid_recovery_wf ?c" using assms(1) by (simp add: invalid_run_wf invalid_recovery_wf_init)
  have "cooldown_frames (snd (invalid_run es c)) = cooldown"
    using assms(1) by (simp add: invalid_run_config) (auto simp: InvalidFrameRecoveryController_def)
  with assms(2) have "cooldown_remaining ?c = cooldown"
    by (auto simp: invalid_run_snoc invalid_defs split: if_splits)
  with invalid_run_cooldown [OF wf, of fs] assms(3) show ?thesis by simp
qed

theorem invalid_frame_cooldown_witness:
  "Recover \<notin> set (fst (invalid_run [Observe False True, Observe False True]
     (snd (invalid_run ([] @ [Observe False True])
       \<lparr>if_threshold = 1, cooldown_frames = 3, max_recoveries = 2, consecutive_invalid = 0, peak_invalid = 0,
        cooldown_remaining = 0, recoveries_completed = 0, suppressed_by_cooldown = 0, suppressed_by_budget = 0\<rparr>))))"
  by (rule invalid_frame_cooldown [of 1 3 2])
    (simp_all add: InvalidFrameRecoveryController_def invalid_step_def observe_def)

end
