(* ===== verification/Cpp_Strings.thy ===== *)
theory Cpp_Strings
  imports Capture_Prelude
begin

text \<open>
  What the sources use of the C++ string library: the \<open>ctype\<close> classification in the C locale,
  \<open>std::to_string\<close>, \<open>std::stol\<close> and \<open>std::stoull\<close> in base 10, \<open>std::string::find\<close> of a character.
  Characters are bytes. The conversions follow the standard: leading white space is skipped, an
  optional sign is read, \<open>pos\<close> is the index of the first character that was not converted, no digit
  throws \<open>std::invalid_argument\<close> and a value outside the 64-bit result type throws
  \<open>std::out_of_range\<close>; \<open>stoull\<close> accepts a minus sign and negates modulo \<open>2^64\<close>.
\<close>

definition isspace :: "char \<Rightarrow> bool" where
  "isspace c = (let n = (of_char c :: nat) in n = 32 \<or> (9 \<le> n \<and> n \<le> 13))"

definition isdigit :: "char \<Rightarrow> bool" where
  "isdigit c = (let n = (of_char c :: nat) in 48 \<le> n \<and> n \<le> 57)"

definition toupper :: "char \<Rightarrow> char" where
  "toupper c = (let n = (of_char c :: nat) in if 97 \<le> n \<and> n \<le> 122 then char_of (n - 32) else c)"

definition tolower :: "char \<Rightarrow> char" where
  "tolower c = (let n = (of_char c :: nat) in if 65 \<le> n \<and> n \<le> 90 then char_of (n + 32) else c)"

definition digit_char :: "nat \<Rightarrow> char" where
  "digit_char d = char_of (48 + d)"

fun to_string :: "nat \<Rightarrow> string" where
  "to_string n = (if n < 10 then [digit_char n] else to_string (n div 10) @ [digit_char (n mod 10)])"

declare to_string.simps [simp del]

definition to_string_int :: "int \<Rightarrow> string" where
  "to_string_int i = (if i < 0 then CHR ''-'' # to_string (nat (- i)) else to_string (nat i))"

definition digits_value :: "string \<Rightarrow> nat" where
  "digits_value ds = fold (\<lambda>c v. v * 10 + (of_char c - 48)) ds 0"

text \<open>The common scan of the integer conversions: sign, magnitude and number of characters used.\<close>

definition scan_sign :: "string \<Rightarrow> bool \<times> nat" where
  "scan_sign r = (case r of
      [] \<Rightarrow> (False, 0)
    | c # _ \<Rightarrow> if c = CHR ''-'' then (True, 1) else if c = CHR ''+'' then (False, 1) else (False, 0))"

definition scan_int :: "string \<Rightarrow> (bool \<times> nat \<times> nat) option" where
  "scan_int s =
     (let ws = length (takeWhile isspace s);
          r = dropWhile isspace s;
          (neg, sg) = scan_sign r;
          ds = takeWhile isdigit (drop sg r)
      in if ds = [] then None else Some (neg, digits_value ds, ws + sg + length ds))"

definition stol :: "string \<Rightarrow> (int \<times> nat) result" where
  "stol s = (case scan_int s of
      None \<Rightarrow> Inl (InvalidArgument ''stol'')
    | Some (neg, m, pos) \<Rightarrow>
        (let v = (if neg then - int m else int m) in
         if v < - (2 ^ 63) \<or> v > 2 ^ 63 - 1 then Inl (OutOfRange ''stol'') else Inr (v, pos)))"

definition stoull :: "string \<Rightarrow> (nat \<times> nat) result" where
  "stoull s = (case scan_int s of
      None \<Rightarrow> Inl (InvalidArgument ''stoull'')
    | Some (neg, m, pos) \<Rightarrow>
        if m > 2 ^ 64 - 1 then Inl (OutOfRange ''stoull'')
        else Inr (if neg then (2 ^ 64 - m) mod 2 ^ 64 else m, pos))"

text \<open>\<open>line.find(c)\<close>: the index of the first occurrence, \<open>None\<close> for \<open>npos\<close>.\<close>

definition find_char :: "char \<Rightarrow> string \<Rightarrow> nat option" where
  "find_char c s = (if c \<in> set s then Some (length (takeWhile (\<lambda>x. x \<noteq> c) s)) else None)"

section \<open>Facts\<close>

lemma of_char_digit_char [simp]: "d < 10 \<Longrightarrow> (of_char (digit_char d) :: nat) = 48 + d"
  by (simp add: digit_char_def)

lemma isdigit_digit_char [simp]: "d < 10 \<Longrightarrow> isdigit (digit_char d)"
  by (simp add: isdigit_def)

lemma isdigit_not_isspace: "isdigit c \<Longrightarrow> \<not> isspace c"
  by (auto simp: isdigit_def isspace_def Let_def)

lemma isdigit_not_sign: "isdigit c \<Longrightarrow> c \<noteq> CHR ''-'' \<and> c \<noteq> CHR ''+''"
  by (auto simp: isdigit_def)

lemma to_string_nonempty [simp]: "to_string n \<noteq> []"
  by (subst to_string.simps) simp

lemma to_string_digits: "c \<in> set (to_string n) \<Longrightarrow> isdigit c"
proof (induction n rule: to_string.induct)
  case (1 n)
  then show ?case
    by (auto simp: to_string.simps [of n] split: if_splits)
qed

lemma digits_value_snoc [simp]: "digits_value (ds @ [c]) = digits_value ds * 10 + (of_char c - 48)"
  by (simp add: digits_value_def)

lemma digits_value_to_string [simp]: "digits_value (to_string n) = n"
proof (induction n rule: to_string.induct)
  case (1 n)
  show ?case
  proof (cases "n < 10")
    case True
    then show ?thesis by (subst to_string.simps) (simp add: digits_value_def)
  next
    case False
    with 1 show ?thesis by (subst to_string.simps) simp
  qed
qed

lemma to_string_inject: "to_string m = to_string n \<longleftrightarrow> m = n"
  by (metis digits_value_to_string)

lemma scan_int_to_string: "scan_int (to_string n) = Some (False, n, length (to_string n))"
proof -
  obtain c cs where s: "to_string n = c # cs" using to_string_nonempty by (meson neq_Nil_conv)
  then have c: "isdigit c" using to_string_digits [of c n] by simp
  have tw: "takeWhile isdigit (to_string n) = to_string n"
    by (simp add: takeWhile_eq_all_conv to_string_digits)
  have sp: "takeWhile isspace (to_string n) = []" "dropWhile isspace (to_string n) = to_string n"
    using s isdigit_not_isspace [OF c] by simp_all
  have sg: "scan_sign (to_string n) = (False, 0)"
    using s isdigit_not_sign [OF c] by (simp add: scan_sign_def)
  show ?thesis by (simp add: scan_int_def sp sg tw)
qed

lemma stol_to_string: "n < 2 ^ 63 \<Longrightarrow> stol (to_string n) = Inr (int n, length (to_string n))"
  by (auto simp: stol_def scan_int_to_string)

lemma stoull_to_string: "n < 2 ^ 64 \<Longrightarrow> stoull (to_string n) = Inr (n, length (to_string n))"
  by (simp add: stoull_def scan_int_to_string)

lemma stol_range: "stol s = Inr (v, pos) \<Longrightarrow> - (2 ^ 63) \<le> v \<and> v \<le> 2 ^ 63 - 1"
  by (auto simp: stol_def Let_def split: option.splits if_splits)

end
