(* ===== verification/Frame_Protocol.thy ===== *)
theory Frame_Protocol
  imports Cpp_Strings
begin

unbundle bit_operations_syntax

text \<open>
  The wire protocol of \<open>include/frame_protocol.hpp\<close>: the frame header, its explicit little-endian
  codec, the CRC32 of the payload and the validation a receiver performs before it allocates memory.

  The host structure \<open>FrameHeader\<close> is a record with the widths of the source; a \<open>WireHeader\<close> is a
  list of 44 bytes that the field writers update in place. The writers and readers of the three
  integer widths implement one interface, the locale \<open>wire_field\<close>, from which the layout of the
  whole header follows: it is the concatenation of the encoded fields at the documented offsets.
\<close>

section \<open>Constants and the host header\<close>

definition kMagic :: u32 where "kMagic = 0x56345450"
definition kVersion :: u16 where "kVersion = 3"
definition kWireHeaderSize :: nat where "kWireHeaderSize = 44"
definition kDefaultMaxPayloadBytes :: u32 where "kDefaultMaxPayloadBytes = 16 * 1024 * 1024"
definition kMaxDimension :: u32 where "kMaxDimension = 16384"

text \<open>\<open>V4L2_PIX_FMT_YUYV\<close>, the kernel's FourCC of the characters Y, U, Y, V.\<close>

definition V4L2_PIX_FMT_YUYV :: u32 where "V4L2_PIX_FMT_YUYV = 0x56595559"

record frame_header =
  hdr_magic :: u32
  hdr_header_size :: u16
  hdr_version :: u16
  hdr_frame_id :: u64
  hdr_capture_timestamp_ns :: u64
  hdr_width :: u32
  hdr_height :: u32
  hdr_pixel_format :: u32
  hdr_payload_size :: u32
  hdr_payload_crc32 :: u32

section \<open>Field writers and readers\<close>

definition write_u16_le :: "bytes \<Rightarrow> nat \<Rightarrow> u16 \<Rightarrow> bytes" where
  "write_u16_le out offset value =
     (let out = out[offset + 0 := ucast (value AND 0xff)]
      in out[offset + 1 := ucast (drop_bit 8 value AND 0xff)])"

definition write_u32_le :: "bytes \<Rightarrow> nat \<Rightarrow> u32 \<Rightarrow> bytes" where
  "write_u32_le out offset value =
     fold (\<lambda>i out. out[offset + i := ucast (drop_bit (i * 8) value AND 0xff)]) [0..<4] out"

definition write_u64_le :: "bytes \<Rightarrow> nat \<Rightarrow> u64 \<Rightarrow> bytes" where
  "write_u64_le out offset value =
     fold (\<lambda>i out. out[offset + i := ucast (drop_bit (i * 8) value AND 0xff)]) [0..<8] out"

definition read_u16_le :: "bytes \<Rightarrow> nat \<Rightarrow> u16" where
  "read_u16_le bs offset = ucast (bs ! (offset + 0)) OR push_bit 8 (ucast (bs ! (offset + 1)))"

definition read_u32_le :: "bytes \<Rightarrow> nat \<Rightarrow> u32" where
  "read_u32_le bs offset =
     fold (\<lambda>i value. value OR push_bit (i * 8) (ucast (bs ! (offset + i)))) [0..<4] 0"

definition read_u64_le :: "bytes \<Rightarrow> nat \<Rightarrow> u64" where
  "read_u64_le bs offset =
     fold (\<lambda>i value. value OR push_bit (i * 8) (ucast (bs ! (offset + i)))) [0..<8] 0"

section \<open>Header codec\<close>

definition serialize_header :: "frame_header \<Rightarrow> bytes" where
  "serialize_header header =
     (let wire = replicate kWireHeaderSize 0;
          wire = write_u32_le wire 0 (hdr_magic header);
          wire = write_u16_le wire 4 (hdr_header_size header);
          wire = write_u16_le wire 6 (hdr_version header);
          wire = write_u64_le wire 8 (hdr_frame_id header);
          wire = write_u64_le wire 16 (hdr_capture_timestamp_ns header);
          wire = write_u32_le wire 24 (hdr_width header);
          wire = write_u32_le wire 28 (hdr_height header);
          wire = write_u32_le wire 32 (hdr_pixel_format header);
          wire = write_u32_le wire 36 (hdr_payload_size header);
          wire = write_u32_le wire 40 (hdr_payload_crc32 header)
      in wire)"

text \<open>
  \<open>deserialize_header\<close> returns \<open>false\<close> with a reason (\<open>Inl reason\<close>) or \<open>true\<close> with the decoded
  header; a null \<open>data\<close> pointer is \<open>None\<close>.
\<close>

definition decode_header :: "bytes \<Rightarrow> frame_header" where
  "decode_header bs = \<lparr>
     hdr_magic = read_u32_le bs 0,
     hdr_header_size = read_u16_le bs 4,
     hdr_version = read_u16_le bs 6,
     hdr_frame_id = read_u64_le bs 8,
     hdr_capture_timestamp_ns = read_u64_le bs 16,
     hdr_width = read_u32_le bs 24,
     hdr_height = read_u32_le bs 28,
     hdr_pixel_format = read_u32_le bs 32,
     hdr_payload_size = read_u32_le bs 36,
     hdr_payload_crc32 = read_u32_le bs 40\<rparr>"

definition deserialize_header :: "bytes option \<Rightarrow> string + frame_header" where
  "deserialize_header data = (case data of
      None \<Rightarrow> Inl ''null wire header''
    | Some bs \<Rightarrow>
        if length bs \<noteq> kWireHeaderSize
        then Inl (''wire header size mismatch: got='' @ to_string (length bs) @
                  '', expected='' @ to_string kWireHeaderSize)
        else Inr (decode_header bs))"

section \<open>CRC32\<close>

definition crc32_bit :: "u32 \<Rightarrow> u32" where
  "crc32_bit crc = (let mask = 0 - (crc AND 1) in drop_bit 1 crc XOR (0xEDB88320 AND mask))"

definition crc32_byte :: "u8 \<Rightarrow> u32 \<Rightarrow> u32" where
  "crc32_byte b crc = (crc32_bit ^^ 8) (crc XOR ucast b)"

definition compute_crc32 :: "bytes \<Rightarrow> u32" where
  "compute_crc32 data = NOT (fold crc32_byte data 0xFFFFFFFF)"

section \<open>Construction and validation\<close>

definition make_header :: "u64 \<Rightarrow> u64 \<Rightarrow> u32 \<Rightarrow> u32 \<Rightarrow> u32 \<Rightarrow> u32 \<Rightarrow> u32 \<Rightarrow> frame_header" where
  "make_header frame_id capture_timestamp_ns width height pixel_format payload_size payload_crc32 = \<lparr>
     hdr_magic = kMagic,
     hdr_header_size = of_nat kWireHeaderSize,
     hdr_version = kVersion,
     hdr_frame_id = frame_id,
     hdr_capture_timestamp_ns = capture_timestamp_ns,
     hdr_width = width,
     hdr_height = height,
     hdr_pixel_format = pixel_format,
     hdr_payload_size = payload_size,
     hdr_payload_crc32 = payload_crc32\<rparr>"

text \<open>
  \<open>validate_header\<close>: \<open>Some reason\<close> where the source returns \<open>false\<close> with that reason, \<open>None\<close> where
  it clears the reason and returns \<open>true\<close>. The expected YUYV size is computed in 64 bits.
\<close>

definition validate_header :: "frame_header \<Rightarrow> u32 \<Rightarrow> string option" where
  "validate_header h max_payload_bytes =
    (if max_payload_bytes = 0 then Some ''receiver max payload must be positive''
     else if hdr_magic h \<noteq> kMagic then Some ''invalid magic''
     else if unat (hdr_header_size h) \<noteq> kWireHeaderSize then
       Some (''unsupported header size: '' @ to_string (unat (hdr_header_size h)))
     else if hdr_version h \<noteq> kVersion then
       Some (''unsupported protocol version: '' @ to_string (unat (hdr_version h)))
     else if hdr_capture_timestamp_ns h = 0 then Some ''zero capture timestamp''
     else if hdr_width h = 0 \<or> hdr_height h = 0 then Some ''zero width or height''
     else if hdr_width h > kMaxDimension \<or> hdr_height h > kMaxDimension then
       Some ''frame dimension exceeds limit''
     else if hdr_pixel_format h = 0 then Some ''missing pixel format''
     else if hdr_payload_size h = 0 then Some ''zero payload size''
     else if hdr_payload_size h > max_payload_bytes then
       Some (''payload size '' @ to_string (unat (hdr_payload_size h)) @
             '' exceeds receiver limit '' @ to_string (unat max_payload_bytes))
     else if hdr_pixel_format h = V4L2_PIX_FMT_YUYV then
       (if hdr_width h mod 2 \<noteq> 0 then Some ''YUYV width must be even''
        else let expected = (ucast (hdr_width h) :: u64) * ucast (hdr_height h) * 2 in
          if expected > 0xFFFFFFFF then Some ''YUYV payload size overflows protocol field''
          else if hdr_payload_size h \<noteq> ucast expected then
            Some (''YUYV payload size mismatch: got='' @ to_string (unat (hdr_payload_size h)) @
                  '', expected='' @ to_string (unat expected))
          else None)
     else None)"

definition is_valid_header :: "frame_header \<Rightarrow> bool" where
  "is_valid_header h = (validate_header h 0xFFFFFFFF = None)"

section \<open>The interface of an integer field\<close>

text \<open>
  A field of fixed width: \<open>wr\<close> stores the encoding at an offset and touches nothing else,
  \<open>rd\<close> decodes the bytes at an offset, and encoding and decoding are inverse to each other.
\<close>

locale wire_field =
  fixes wr :: "bytes \<Rightarrow> nat \<Rightarrow> 'v \<Rightarrow> bytes"
    and rd :: "bytes \<Rightarrow> nat \<Rightarrow> 'v"
    and enc :: "'v \<Rightarrow> bytes"
    and dec :: "bytes \<Rightarrow> 'v"
    and width :: nat
  assumes length_enc: "length (enc v) = width"
    and dec_enc: "dec (enc v) = v"
    and enc_dec: "length bs = width \<Longrightarrow> enc (dec bs) = bs"
    and write_slice: "off + width \<le> length out \<Longrightarrow>
          wr out off v = take off out @ enc v @ drop (off + width) out"
    and read_slice: "off + width \<le> length bs \<Longrightarrow> rd bs off = dec (take width (drop off bs))"
begin

lemma write_at:
  "length pre = off \<Longrightarrow> length old = width \<Longrightarrow> wr (pre @ old @ post) off v = pre @ enc v @ post"
  by (simp add: write_slice)

lemma read_at: "length pre = off \<Longrightarrow> rd (pre @ enc v @ post) off = v"
  by (simp add: read_slice length_enc dec_enc)

lemma enc_read: "off + width \<le> length bs \<Longrightarrow> enc (rd bs off) = take width (drop off bs)"
  by (simp add: read_slice enc_dec)

lemma length_write: "off + width \<le> length out \<Longrightarrow> length (wr out off v) = length out"
  by (simp add: write_slice length_enc)

end

lemma read_fold_slice:
  "off + k \<le> length bs \<Longrightarrow>
   fold (\<lambda>i v. v OR push_bit (i * 8) (ucast (bs ! (off + i)))) [0..<k] (0 :: 'a::len word)
     = le_word (take k (drop off bs))"
  by (auto simp: le_word_def intro!: fold_cong)

interpretation u16f: wire_field write_u16_le read_u16_le "le_bytes 2" le_word 2
proof
  fix v :: u16 and bs out :: bytes and off :: nat
  show "length (le_bytes 2 v) = 2" by simp
  show "le_word (le_bytes 2 v) = v" by (simp add: le_word_le_bytes)
  show "length bs = 2 \<Longrightarrow> le_bytes 2 (le_word bs :: u16) = bs" by (simp add: le_bytes_le_word)
  assume off: "off + 2 \<le> length out"
  have "write_u16_le out off v =
      fold (\<lambda>i w. w[off + i := ucast (drop_bit (i * 8) v AND 0xff)]) [0..<2] out"
    by (simp add: write_u16_le_def numeral_2_eq_2 upt_rec Let_def)
  then show "write_u16_le out off v = take off out @ le_bytes 2 v @ drop (off + 2) out"
    using off by (simp only: list_update_run le_bytes_def)
next
  fix bs :: bytes and off :: nat
  assume "off + 2 \<le> length bs"
  then show "read_u16_le bs off = le_word (take 2 (drop off bs))"
    by (simp add: read_u16_le_def le_word_def numeral_2_eq_2 upt_rec)
qed

interpretation u32f: wire_field write_u32_le read_u32_le "le_bytes 4" le_word 4
  by unfold_locales
    (simp_all add: le_word_le_bytes le_bytes_le_word write_u32_le_def read_u32_le_def
       list_update_run read_fold_slice del: upt.simps, simp add: le_bytes_def)

interpretation u64f: wire_field write_u64_le read_u64_le "le_bytes 8" le_word 8
  by unfold_locales
    (simp_all add: le_word_le_bytes le_bytes_le_word write_u64_le_def read_u64_le_def
       list_update_run read_fold_slice del: upt.simps, simp add: le_bytes_def)

section \<open>Layout of the header\<close>

text \<open>The documented layout: every field little-endian, in this order, with no padding.\<close>

definition header_layout :: "frame_header \<Rightarrow> bytes" where
  "header_layout h =
     le_bytes 4 (hdr_magic h) @ le_bytes 2 (hdr_header_size h) @ le_bytes 2 (hdr_version h) @
     le_bytes 8 (hdr_frame_id h) @ le_bytes 8 (hdr_capture_timestamp_ns h) @
     le_bytes 4 (hdr_width h) @ le_bytes 4 (hdr_height h) @ le_bytes 4 (hdr_pixel_format h) @
     le_bytes 4 (hdr_payload_size h) @ le_bytes 4 (hdr_payload_crc32 h)"

lemma length_header_layout [simp]: "length (header_layout h) = kWireHeaderSize"
  by (simp add: header_layout_def kWireHeaderSize_def)

lemmas wire_write = u16f.write_slice u32f.write_slice u64f.write_slice
lemmas wire_read = u16f.read_slice u32f.read_slice u64f.read_slice
lemmas wire_dec_enc = u16f.dec_enc u32f.dec_enc u64f.dec_enc

lemma serialize_header_layout: "serialize_header h = header_layout h"
  by (simp add: serialize_header_def header_layout_def kWireHeaderSize_def Let_def wire_write)

lemma length_serialize_header [simp]: "length (serialize_header h) = kWireHeaderSize"
  by (simp add: serialize_header_layout)

lemma decode_header_layout: "decode_header (header_layout h) = h"
  by (simp add: decode_header_def header_layout_def wire_read wire_dec_enc)

lemma header_layout_decode:
  assumes "length bs = kWireHeaderSize"
  shows "header_layout (decode_header bs) = bs"
proof -
  note enc = u16f.enc_read u32f.enc_read u64f.enc_read
  have len: "length bs = 44" using assms by (simp add: kWireHeaderSize_def)
  have "header_layout (decode_header bs) =
      take 4 (drop 0 bs) @ take 2 (drop 4 bs) @ take 2 (drop 6 bs) @ take 8 (drop 8 bs) @
      take 8 (drop 16 bs) @ take 4 (drop 24 bs) @ take 4 (drop 28 bs) @ take 4 (drop 32 bs) @
      take 4 (drop 36 bs) @ take 4 (drop 40 bs)"
    using len by (simp add: header_layout_def decode_header_def enc)
  also have "\<dots> = take 44 bs"
    by (simp add: slices_join slices_join_end)
  finally show ?thesis using len by simp
qed

section \<open>The CRC register\<close>

text \<open>
  One bit step is linear over exclusive or and injective (the polynomial has its top bit set, so
  the bit shifted out can be recovered). Feeding up to four bytes is therefore the same as mixing
  them into the register at once and stepping.
\<close>

lemma crc32_bit_alt: "crc32_bit x = drop_bit 1 x XOR (if odd x then 0xEDB88320 else 0)"
  by (simp add: crc32_bit_def Let_def and_one_eq odd_iff_mod_2_eq_one even_iff_mod_2_eq_zero)

lemma crc32_bit_xor: "crc32_bit (x XOR y) = crc32_bit x XOR crc32_bit y"
  by (auto simp: crc32_bit_alt drop_bit_xor even_xor_iff xor.assoc xor.commute xor.left_commute)

lemma bit_crc32_bit_top: "bit (crc32_bit x) 31 \<longleftrightarrow> odd x"
  by (auto simp: crc32_bit_alt bit_simps dest: bit_imp_le_length)

lemma inj_crc32_bit: "inj crc32_bit"
proof (rule injI)
  fix x y assume eq: "crc32_bit x = crc32_bit y"
  then have odd: "odd x = odd y" by (metis bit_crc32_bit_top)
  with eq have d: "drop_bit 1 x = drop_bit 1 y"
    by (auto simp: crc32_bit_alt xor_cancel_right split: if_splits)
  show "x = y"
  proof (rule bit_word_eqI)
    fix n assume "n < LENGTH(32)"
    show "bit x n = bit y n"
    proof (cases n)
      case 0
      then show ?thesis using odd by (simp add: bit_0)
    next
      case (Suc m)
      have "bit (drop_bit 1 x) m = bit (drop_bit 1 y) m" using d by simp
      then show ?thesis using Suc by (simp add: bit_drop_bit_eq)
    qed
  qed
qed

lemma crc32_bits_xor: "(crc32_bit ^^ n) (x XOR y) = (crc32_bit ^^ n) x XOR (crc32_bit ^^ n) y"
  by (induction n) (simp_all add: crc32_bit_xor)

lemma crc32_bits_push:
  "(\<And>i. bit y i \<Longrightarrow> i + n < 32) \<Longrightarrow> (crc32_bit ^^ n) (push_bit n y) = y"
proof (induction n)
  case 0
  then show ?case by simp
next
  case (Suc n)
  have "crc32_bit (push_bit (Suc n) y) = push_bit n y"
  proof (rule bit_word_eqI)
    fix i assume "i < LENGTH(32)"
    have "even (push_bit (Suc n) y)" by (simp add: even_push_bit_iff)
    then have "bit (crc32_bit (push_bit (Suc n) y)) i = bit (push_bit (Suc n) y) (Suc i)"
      by (simp add: crc32_bit_alt bit_drop_bit_eq del: push_bit_Suc)
    then show "bit (crc32_bit (push_bit (Suc n) y)) i = bit (push_bit n y) i"
      using Suc.prems [of "i - n"] by (auto simp: bit_push_bit_iff simp del: push_bit_Suc)
  qed
  then have "(crc32_bit ^^ Suc n) (push_bit (Suc n) y) = (crc32_bit ^^ n) (push_bit n y)"
    by (simp only: funpow_Suc_right o_apply)
  also have "\<dots> = y" using Suc by (metis Suc_lessD add_Suc_right)
  finally show ?case .
qed

lemma fold_crc32_byte_burst:
  "length bs \<le> 4 \<Longrightarrow> fold crc32_byte bs s = (crc32_bit ^^ (length bs * 8)) (s XOR le_word bs)"
proof (induction bs rule: rev_induct)
  case Nil
  then show ?case by (simp add: le_word_def)
next
  case (snoc c bs)
  let ?n = "length bs * 8"
  have "(crc32_bit ^^ ?n) (push_bit ?n (ucast c)) = (ucast c :: u32)"
    using snoc.prems by (intro crc32_bits_push) (auto simp: bit_simps dest: bit_imp_le_length)
  then have "(crc32_bit ^^ ?n) (s XOR le_word bs XOR push_bit ?n (ucast c)) =
      (crc32_bit ^^ ?n) (s XOR le_word bs) XOR ucast c"
    by (simp add: crc32_bits_xor xor.assoc)
  with snoc have "fold crc32_byte (bs @ [c]) s =
      (crc32_bit ^^ 8) ((crc32_bit ^^ ?n) (s XOR le_word bs XOR push_bit ?n (ucast c)))"
    by (simp add: crc32_byte_def [of c])
  then show ?case
    by (simp add: le_word_snoc xor.assoc funpow_add add.commute)
qed

lemma inj_crc32_bits: "inj (crc32_bit ^^ n)"
  using inj_crc32_bit by (simp add: inj_fn)

lemma inj_crc32_byte: "inj (crc32_byte b)"
proof (rule injI)
  fix s t assume "crc32_byte b s = crc32_byte b t"
  then have "s XOR ucast b = t XOR ucast b"
    unfolding crc32_byte_def by (rule injD [OF inj_crc32_bits])
  then show "s = t" by (simp add: xor_cancel_right)
qed

lemma fold_crc32_byte_inj: "fold crc32_byte bs s = fold crc32_byte bs t \<Longrightarrow> s = t"
proof (induction bs arbitrary: s t)
  case Nil
  then show ?case by simp
next
  case (Cons b bs)
  then have "crc32_byte b s = crc32_byte b t" by simp
  then show ?case by (rule injD [OF inj_crc32_byte])
qed

lemma le_word_inj:
  assumes "length xs = length ys" and "length xs \<le> 4" and "(le_word xs :: u32) = le_word ys"
  shows "xs = ys"
proof -
  have "xs = le_bytes (length xs) (le_word xs :: u32)"
    using assms(2) by (simp add: le_bytes_le_word)
  also have "\<dots> = le_bytes (length ys) (le_word ys :: u32)" using assms by simp
  also have "\<dots> = ys" using assms by (simp add: le_bytes_le_word)
  finally show ?thesis .
qed

lemma crc32_burst:
  assumes "length xs = length ys" and "length xs \<le> 4" and "xs \<noteq> ys"
  shows "compute_crc32 (pre @ xs @ post) \<noteq> compute_crc32 (pre @ ys @ post)"
proof
  let ?s = "fold crc32_byte pre 0xFFFFFFFF"
  assume "compute_crc32 (pre @ xs @ post) = compute_crc32 (pre @ ys @ post)"
  then have "fold crc32_byte post (fold crc32_byte xs ?s) = fold crc32_byte post (fold crc32_byte ys ?s)"
    by (simp add: compute_crc32_def)
  then have "fold crc32_byte xs ?s = fold crc32_byte ys ?s"
    by (rule fold_crc32_byte_inj)
  then have "(crc32_bit ^^ (length ys * 8)) (?s XOR le_word xs) =
      (crc32_bit ^^ (length ys * 8)) (?s XOR le_word ys)"
    using assms by (simp add: fold_crc32_byte_burst)
  then have "?s XOR le_word xs = ?s XOR le_word ys"
    by (rule injD [OF inj_crc32_bits])
  then have "(le_word xs :: u32) = le_word ys" by (simp add: xor_cancel_left)
  with assms show False using le_word_inj by blast
qed

section \<open>Acceptance of a header\<close>

text \<open>What a receiver accepts, stated over the values of the fields.\<close>

definition header_acceptable :: "frame_header \<Rightarrow> nat \<Rightarrow> bool" where
  "header_acceptable h max_payload \<longleftrightarrow>
     hdr_magic h = kMagic \<and> unat (hdr_header_size h) = kWireHeaderSize \<and> hdr_version h = kVersion \<and>
     hdr_capture_timestamp_ns h \<noteq> 0 \<and>
     unat (hdr_width h) \<in> {1..16384} \<and> unat (hdr_height h) \<in> {1..16384} \<and>
     hdr_pixel_format h \<noteq> 0 \<and> unat (hdr_payload_size h) \<in> {1..max_payload} \<and>
     (hdr_pixel_format h = V4L2_PIX_FMT_YUYV \<longrightarrow>
        even (unat (hdr_width h)) \<and>
        unat (hdr_payload_size h) = unat (hdr_width h) * unat (hdr_height h) * 2)"

lemma yuyv_expected_size:
  fixes w h :: u32
  assumes "unat w \<le> 16384" and "unat h \<le> 16384"
  shows "unat ((ucast w :: u64) * ucast h * 2) = unat w * unat h * 2"
    and "unat w * unat h * 2 \<le> 2 ^ 29"
proof -
  have le: "unat w * unat h \<le> 16384 * 16384" using assms by (rule mult_le_mono)
  then show "unat w * unat h * 2 \<le> 2 ^ 29" by (simp add: mult.commute)
  from le show "unat ((ucast w :: u64) * ucast h * 2) = unat w * unat h * 2"
    by (simp add: unat_word_ariths mult.commute)
qed

lemma word_mod_2_unat: "(w :: u32) mod 2 = 0 \<longleftrightarrow> even (unat w)"
  by (simp add: unat_mod even_iff_mod_2_eq_zero flip: unat_eq_0)

lemma validate_dims:
  fixes w :: u32
  shows "w \<noteq> 0 \<and> \<not> w > kMaxDimension \<longleftrightarrow> unat w \<in> {1..16384}"
  by (auto simp: kMaxDimension_def word_less_nat_alt unat_eq_0 not_less Suc_le_eq
      simp flip: unat_gt_0)

lemma validate_yuyv_size:
  fixes w h p :: u32
  assumes "unat w \<in> {1..16384}" and "unat h \<in> {1..16384}"
  shows "\<not> (ucast w :: u64) * ucast h * 2 > 0xFFFFFFFF"
    and "p = ucast ((ucast w :: u64) * ucast h * 2) \<longleftrightarrow> unat p = unat w * unat h * 2"
proof -
  let ?e = "(ucast w :: u64) * ucast h * 2"
  have e: "unat ?e = unat w * unat h * 2" and b: "unat w * unat h * 2 \<le> 2 ^ 29"
    using yuyv_expected_size [of w h] assms by simp_all
  have "unat ?e \<le> 2 ^ 29" using e b by (simp only:)
  also have "(2 :: nat) ^ 29 < 2 ^ 32" by simp
  finally have lt: "unat ?e < 2 ^ 32" .
  from lt show "\<not> ?e > 0xFFFFFFFF" by (simp add: word_less_nat_alt)
  have "unat (ucast ?e :: u32) = unat ?e mod 2 ^ 32" by (simp add: unat_ucast_mod)
  also have "\<dots> = unat w * unat h * 2" using e lt by simp
  finally show "p = ucast ?e \<longleftrightarrow> unat p = unat w * unat h * 2" by (metis word_unat_eq_iff)
qed

lemma validate_header_iff:
  "validate_header h m = None \<longleftrightarrow> m \<noteq> 0 \<and> header_acceptable h (unat m)"
proof (cases "unat (hdr_width h) \<in> {1..16384} \<and> unat (hdr_height h) \<in> {1..16384}")
  case True
  note dims = conjunct1 [OF True] conjunct2 [OF True]
  have d: "hdr_width h \<noteq> 0" "hdr_height h \<noteq> 0" "\<not> hdr_width h > kMaxDimension" "\<not> hdr_height h > kMaxDimension"
    using dims validate_dims by blast+
  have p: "hdr_payload_size h \<noteq> 0 \<and> \<not> hdr_payload_size h > m \<longleftrightarrow> unat (hdr_payload_size h) \<in> {1..unat m}"
    by (auto simp: word_less_nat_alt not_less Suc_le_eq unat_eq_0 simp flip: unat_gt_0)
  show ?thesis
    using d p dims validate_yuyv_size(1) [OF dims]
    by (auto simp: validate_header_def header_acceptable_def Let_def if_Some_eq_None
        validate_yuyv_size(2) [OF dims] word_mod_2_unat split: if_splits)
next
  case False
  then have "hdr_width h = 0 \<or> hdr_height h = 0 \<or> hdr_width h > kMaxDimension \<or> hdr_height h > kMaxDimension"
    using validate_dims by blast
  then have "validate_header h m \<noteq> None" by (auto simp: validate_header_def)
  with False show ?thesis by (auto simp: header_acceptable_def)
qed

lemma deserialize_header_iff:
  "deserialize_header (Some bs) = Inr h \<longleftrightarrow> length bs = kWireHeaderSize \<and> serialize_header h = bs"
  using decode_header_layout [of h] header_layout_decode [of bs]
  by (auto simp: deserialize_header_def serialize_header_layout)

lemma deserialize_header_total: "length bs = kWireHeaderSize \<Longrightarrow> \<exists>h. deserialize_header (Some bs) = Inr h"
  by (simp add: deserialize_header_def)

section \<open>Properties\<close>

text \<open>
  C8: the header codec is a bijection between headers and byte strings of the wire size.
  Deserializing succeeds exactly on 44 bytes, and the header it returns is the one whose
  serialization these bytes are; so every serialized header is read back unchanged and no two byte
  strings decode to the same header.
\<close>

theorem header_codec_bijective:
  "deserialize_header (Some bs) = Inr h \<longleftrightarrow> length bs = kWireHeaderSize \<and> serialize_header h = bs"
  by (rule deserialize_header_iff)

text \<open>
  The bytes on the wire are the fields in declaration order, little-endian, without padding:
  the in-place writers at the offsets of the source produce exactly the documented layout.
\<close>

theorem serialize_header_is_layout:
  "serialize_header h = header_layout h \<and> length (serialize_header h) = 44"
  by (simp add: serialize_header_layout kWireHeaderSize_def)

text \<open>
  C34: the payload CRC detects every corruption confined to four consecutive bytes (a burst of at
  most 32 bits), wherever it is and whatever surrounds it.
\<close>

theorem crc32_detects_burst:
  assumes "length xs = length ys" and "length xs \<le> 4" and "xs \<noteq> ys"
  shows "compute_crc32 (pre @ xs @ post) \<noteq> compute_crc32 (pre @ ys @ post)"
  using assms by (rule crc32_burst)

theorem crc32_detects_burst_witness:
  "compute_crc32 ([0x10, 0x20] @ [0x30, 0x40, 0x50] @ [0x60]) \<noteq>
   compute_crc32 ([0x10, 0x20] @ [0x31, 0x40, 0xD0] @ [0x60])"
  by (rule crc32_detects_burst) simp_all

text \<open>
  A receiver accepts a header exactly when its fields have the documented values: magic, header
  size, version, non-zero timestamp, dimensions between 1 and 16384, a pixel format, a payload size
  between 1 and the receiver's limit and, for YUYV, an even width and a payload of exactly
  \<open>width * height * 2\<close> bytes as a natural number (the 64-bit product does not wrap).
\<close>

theorem validate_header_accepts_iff:
  "validate_header h m = None \<longleftrightarrow> m \<noteq> 0 \<and> header_acceptable h (unat m)"
  by (rule validate_header_iff)

text \<open>
  The overflow branch of the YUYV size check is dead code: once the dimensions are within their
  limit the expected size is below \<open>2^32\<close>, so no header is rejected for that reason.
\<close>

theorem validate_header_no_overflow:
  "validate_header h m \<noteq> Some ''YUYV payload size overflows protocol field''"
proof (cases "unat (hdr_width h) \<in> {1..16384} \<and> unat (hdr_height h) \<in> {1..16384}")
  case True
  then have "\<not> (ucast (hdr_width h) :: u64) * ucast (hdr_height h) * 2 > 0xFFFFFFFF"
    using validate_yuyv_size(1) by blast
  then show ?thesis by (simp add: validate_header_def Let_def)
next
  case False
  then have "hdr_width h = 0 \<or> hdr_height h = 0 \<or> hdr_width h > kMaxDimension \<or> hdr_height h > kMaxDimension"
    using validate_dims by blast
  then show ?thesis by (auto simp: validate_header_def)
qed

end
