(* ===== verification/Tcp_Send.thy ===== *)
theory Tcp_Send
  imports Cpp_Strings
begin

unbundle bit_operations_syntax

text \<open>
  \<open>tcp_io::send_all_until\<close> of \<open>src/tcp_send.cpp\<close> and \<open>send_all_with_timeout\<close> of
  \<open>include/tcp_send.hpp\<close>: the deadline and cancellation aware send loop.

  One element of the script \<open>send_env list\<close> holds what the environment answers during one iteration
  of the loop: the stop flag and the steady clock each time they are read, and the results of
  \<open>send\<close>, \<open>poll\<close> and \<open>getsockopt\<close>. The loop consumes one element per iteration; \<open>Blocked\<close> is a call
  that has not returned when the script ends. Times are nanoseconds of the steady clock, waiting
  times are milliseconds. The bytes the kernel accepted are collected in order.
\<close>

record send_env =
  stop_at_top :: bool
  now_at_top :: int
  send_ret :: int
  send_errno :: errno
  stop_after_send :: bool
  now_for_wait :: int
  poll_ret :: int
  poll_errno :: errno
  poll_revents :: u16
  getsockopt_ret :: int
  so_error :: "errno option"

definition cancellation_requested :: "bool \<Rightarrow> bool \<Rightarrow> bool" where
  "cancellation_requested has_stop_flag stop_value = (has_stop_flag \<and> stop_value)"

definition socket_error :: "(errno \<Rightarrow> string) \<Rightarrow> string \<Rightarrow> errno \<Rightarrow> exn" where
  "socket_error strerror what_failed n = RuntimeError (what_failed @ '': '' @ strerror n)"

definition INT_MAX :: int where "INT_MAX = 2147483647"

definition remaining_wait_ms :: "int \<Rightarrow> int \<Rightarrow> int \<Rightarrow> int" where
  "remaining_wait_ms now deadline poll_slice =
     (if now \<ge> deadline then 0
      else let remaining = (deadline - now) div 1000000;
               bounded = min poll_slice (if remaining > 0 then remaining else 1)
           in if bounded > INT_MAX then INT_MAX else bounded)"

definition throw_timeout :: "nat \<Rightarrow> nat \<Rightarrow> exn" where
  "throw_timeout sent size_n =
     SendTimeout (''TCP send timed out after sending '' @ to_string sent @ ''/'' @ to_string size_n @ '' bytes'')"

definition throw_cancelled :: "nat \<Rightarrow> nat \<Rightarrow> exn" where
  "throw_cancelled sent size_n =
     SendCancelled (''TCP send cancelled after sending '' @ to_string sent @ ''/'' @ to_string size_n @ '' bytes'')"

text \<open>One iteration: \<open>n\<close> more bytes were accepted, the loop goes round, or it throws.\<close>

datatype send_iteration = Progress nat | Retry | Throw exn

definition after_poll :: "(errno \<Rightarrow> string) \<Rightarrow> send_env \<Rightarrow> send_iteration" where
  "after_poll strerror e =
     (if poll_ret e < 0 then
        (if poll_errno e = EINTR then Retry
         else Throw (socket_error strerror ''poll(POLLOUT) failed'' (poll_errno e)))
      else if poll_ret e = 0 then Retry
      else if poll_revents e AND POLLNVAL \<noteq> 0 then
        Throw (RuntimeError ''poll(POLLOUT) reported POLLNVAL'')
      else if poll_revents e AND (POLLERR OR POLLHUP) \<noteq> 0 then
        (case so_error e of
           Some n \<Rightarrow>
             if getsockopt_ret e = 0
             then Throw (socket_error strerror ''socket became unavailable while sending'' n)
             else Throw (RuntimeError ''socket became unavailable while sending'')
         | None \<Rightarrow> Throw (RuntimeError ''socket became unavailable while sending''))
      else Retry)"

definition send_iter ::
    "(errno \<Rightarrow> string) \<Rightarrow> nat \<Rightarrow> int \<Rightarrow> bool \<Rightarrow> int \<Rightarrow> nat \<Rightarrow> send_env \<Rightarrow> send_iteration" where
  "send_iter strerror size_n deadline has_stop poll_slice sent e =
     (if cancellation_requested has_stop (stop_at_top e) then Throw (throw_cancelled sent size_n)
      else if now_at_top e \<ge> deadline then Throw (throw_timeout sent size_n)
      else if send_ret e > 0 then Progress (nat (send_ret e))
      else if send_ret e = 0 then
        Throw (RuntimeError ''send returned 0, peer may have closed connection'')
      else if send_errno e = EINTR then Retry
      else if send_errno e \<noteq> EAGAIN \<and> send_errno e \<noteq> EWOULDBLOCK then
        Throw (socket_error strerror ''send failed'' (send_errno e))
      else if cancellation_requested has_stop (stop_after_send e) then Throw (throw_cancelled sent size_n)
      else if remaining_wait_ms (now_for_wait e) deadline poll_slice \<le> 0 then
        Throw (throw_timeout sent size_n)
      else after_poll strerror e)"

datatype send_status = Returned | Threw exn | Blocked

record send_outcome =
  status :: send_status
  sent_count :: nat
  wire :: bytes
  script_left :: "send_env list"

fun send_loop ::
    "(errno \<Rightarrow> string) \<Rightarrow> bytes \<Rightarrow> int \<Rightarrow> bool \<Rightarrow> int \<Rightarrow> nat \<Rightarrow> bytes \<Rightarrow> send_env list \<Rightarrow> send_outcome" where
  "send_loop strerror data deadline has_stop poll_slice sent out [] =
     \<lparr>status = (if sent < length data then Blocked else Returned), sent_count = sent, wire = out,
      script_left = []\<rparr>"
| "send_loop strerror data deadline has_stop poll_slice sent out (e # es) =
     (if sent < length data then
        (case send_iter strerror (length data) deadline has_stop poll_slice sent e of
           Progress n \<Rightarrow>
             send_loop strerror data deadline has_stop poll_slice (sent + n)
               (out @ take n (drop sent data)) es
         | Retry \<Rightarrow> send_loop strerror data deadline has_stop poll_slice sent out es
         | Throw x \<Rightarrow> \<lparr>status = Threw x, sent_count = sent, wire = out, script_left = es\<rparr>)
      else \<lparr>status = Returned, sent_count = sent, wire = out, script_left = e # es\<rparr>)"

definition failed_send :: "exn \<Rightarrow> send_env list \<Rightarrow> send_outcome" where
  "failed_send x es = \<lparr>status = Threw x, sent_count = 0, wire = [], script_left = es\<rparr>"

text \<open>\<open>data\<close> is \<open>None\<close> for a null pointer; a null pointer has no bytes and its size must be zero.\<close>

definition send_all_until ::
    "(errno \<Rightarrow> string) \<Rightarrow> int \<Rightarrow> bytes option \<Rightarrow> nat \<Rightarrow> int \<Rightarrow> bool \<Rightarrow> int \<Rightarrow> send_env list \<Rightarrow> send_outcome" where
  "send_all_until strerror fd data size_n deadline has_stop poll_slice es =
     (if fd < 0 then failed_send (InvalidArgument ''TCP send requires a valid socket fd'') es
      else if size_n > 0 \<and> data = None then
        failed_send (InvalidArgument ''TCP send received a null data pointer'') es
      else if poll_slice \<le> 0 then
        failed_send (InvalidArgument ''TCP send poll slice must be positive'') es
      else send_loop strerror (case data of None \<Rightarrow> [] | Some bs \<Rightarrow> take size_n bs)
             deadline has_stop poll_slice 0 [] es)"

definition send_all_with_timeout ::
    "(errno \<Rightarrow> string) \<Rightarrow> int \<Rightarrow> bytes option \<Rightarrow> nat \<Rightarrow> int \<Rightarrow> int \<Rightarrow> bool \<Rightarrow> int \<Rightarrow> send_env list \<Rightarrow> send_outcome" where
  "send_all_with_timeout strerror fd data size_n now timeout has_stop poll_slice es =
     (if timeout \<le> 0 then failed_send (InvalidArgument ''TCP send timeout must be positive'') es
      else send_all_until strerror fd data size_n (now + timeout * 1000000) has_stop poll_slice es)"

section \<open>What the kernel promises\<close>

text \<open>\<open>send\<close> never reports more bytes than it was asked to send, as long as the call goes on.\<close>

fun send_contract :: "nat \<Rightarrow> nat \<Rightarrow> send_env list \<Rightarrow> bool" where
  "send_contract size_n sent [] = True"
| "send_contract size_n sent (e # es) =
     (sent < size_n \<longrightarrow>
        send_ret e \<le> int (size_n - sent) \<and>
        send_contract size_n (if send_ret e > 0 then sent + nat (send_ret e) else sent) es)"

section \<open>Lemmas\<close>

lemma send_iter_Progress:
  "send_iter strerror size_n deadline hs ps sent e = Progress n \<Longrightarrow> n = nat (send_ret e) \<and> 0 < send_ret e"
  by (auto simp: send_iter_def after_poll_def split: if_splits option.splits)

lemma send_iter_Retry:
  "send_iter strerror size_n deadline hs ps sent e = Retry \<Longrightarrow> send_ret e < 0"
  by (auto simp: send_iter_def split: if_splits)

lemma send_iter_expired:
  assumes "now_at_top e \<ge> deadline \<or> cancellation_requested hs (stop_at_top e)"
  obtains x where "send_iter strerror size_n deadline hs ps sent e = Throw x"
  using assms by (cases "cancellation_requested hs (stop_at_top e)") (auto simp: send_iter_def)

lemma remaining_wait_bounds:
  assumes "0 < poll_slice"
  shows "0 \<le> remaining_wait_ms now deadline poll_slice"
    and "remaining_wait_ms now deadline poll_slice \<le> poll_slice"
    and "remaining_wait_ms now deadline poll_slice \<le> INT_MAX"
    and "remaining_wait_ms now deadline poll_slice = 0 \<longleftrightarrow> now \<ge> deadline"
  using assms by (auto simp: remaining_wait_ms_def INT_MAX_def Let_def min_def)

lemma send_loop_prefix:
  assumes "send_contract (length data) sent es" and "out = take sent data" and "sent \<le> length data"
    and "r = send_loop strerror data deadline hs ps sent out es"
  shows "wire r = take (sent_count r) data \<and> sent \<le> sent_count r \<and> sent_count r \<le> length data \<and>
    (status r = Returned \<longleftrightarrow> sent_count r = length data)"
  using assms
proof (induction es arbitrary: sent out)
  case Nil
  then show ?case by auto
next
  case (Cons e es)
  show ?case
  proof (cases "sent < length data")
    case False
    with Cons.prems show ?thesis by auto
  next
    case True
    show ?thesis
    proof (cases "send_iter strerror (length data) deadline hs ps sent e")
      case (Progress n)
      then have n: "n = nat (send_ret e)" "0 < send_ret e" by (auto dest: send_iter_Progress)
      have "send_ret e \<le> int (length data - sent)" using Cons.prems(1) True by simp
      with n True have le: "sent + n \<le> length data" by linarith
      have "take sent data @ take n (drop sent data) = take (sent + n) data" by (simp add: take_add)
      with Cons.IH [of "sent + n" "take (sent + n) data"] Cons.prems True Progress n le
      show ?thesis by auto
    next
      case Retry
      then have "send_ret e < 0" by (rule send_iter_Retry)
      with Cons Retry True show ?thesis by auto
    next
      case (Throw x)
      with Cons.prems True show ?thesis by auto
    qed
  qed
qed

text \<open>
  Liveness: as soon as the clock read at the top of some iteration has reached the deadline (or the
  stop flag read there is set), the call has ended by that iteration.
\<close>

lemma send_loop_ends:
  assumes "k < length es" and "now_at_top (es ! k) \<ge> deadline \<or> cancellation_requested hs (stop_at_top (es ! k))"
    and "r = send_loop strerror data deadline hs ps sent out es"
  shows "status r \<noteq> Blocked \<and> length es - length (script_left r) \<le> Suc k"
  using assms
proof (induction es arbitrary: sent out k)
  case Nil
  then show ?case by simp
next
  case (Cons e es)
  show ?case
  proof (cases "sent < length data")
    case False
    with Cons.prems show ?thesis by simp
  next
    case True
    show ?thesis
    proof (cases k)
      case 0
      with Cons.prems obtain x where "send_iter strerror (length data) deadline hs ps sent e = Throw x"
        by (auto intro: send_iter_expired)
      with Cons.prems True show ?thesis by auto
    next
      case (Suc j)
      with Cons.prems have j: "j < length es"
        "now_at_top (es ! j) \<ge> deadline \<or> cancellation_requested hs (stop_at_top (es ! j))" by auto
      show ?thesis
        using Cons.IH [OF j] Cons.prems(3) True Suc
        by (cases "send_iter strerror (length data) deadline hs ps sent e") fastforce+
    qed
  qed
qed

lemma send_loop_reports:
  assumes "r = send_loop strerror data deadline hs ps sent out es"
  shows "(status r = Threw (SendTimeout m) \<longrightarrow> SendTimeout m = throw_timeout (sent_count r) (length data)) \<and>
    (status r = Threw (SendCancelled m) \<longrightarrow> SendCancelled m = throw_cancelled (sent_count r) (length data) \<and> hs)"
  using assms
proof (induction es arbitrary: sent out)
  case (Cons e es)
  show ?case
  proof (cases "send_iter strerror (length data) deadline hs ps sent e")
    case (Throw x)
    then have "\<forall>m. (x = SendTimeout m \<longrightarrow> x = throw_timeout sent (length data)) \<and>
        (x = SendCancelled m \<longrightarrow> x = throw_cancelled sent (length data) \<and> hs)"
      by (auto simp: send_iter_def after_poll_def throw_timeout_def throw_cancelled_def socket_error_def
          cancellation_requested_def split: if_splits option.splits)
    with Throw Cons.prems show ?thesis by auto
  next
    case (Progress n)
    with Cons.IH [of "sent + n" "out @ take n (drop sent data)"] Cons.prems show ?thesis
      by (cases "sent < length data") auto
  next
    case Retry
    with Cons.IH [of sent out] Cons.prems show ?thesis by (cases "sent < length data") auto
  qed
qed simp

lemma send_loop_script:
  assumes "r = send_loop strerror data deadline hs ps sent out es"
  shows "set (script_left r) \<subseteq> set es \<and>
    (\<forall>m. status r = Threw (SendCancelled m) \<longrightarrow> (\<exists>e \<in> set es. stop_at_top e \<or> stop_after_send e))"
  using assms
proof (induction es arbitrary: sent out)
  case (Cons e es)
  show ?case
  proof (cases "send_iter strerror (length data) deadline hs ps sent e")
    case (Throw x)
    then have "\<forall>m. x = SendCancelled m \<longrightarrow> stop_at_top e \<or> stop_after_send e"
      by (auto simp: send_iter_def after_poll_def throw_timeout_def throw_cancelled_def socket_error_def
          cancellation_requested_def split: if_splits option.splits)
    with Throw Cons.prems show ?thesis by auto
  next
    case (Progress n)
    with Cons.IH [of "sent + n" "out @ take n (drop sent data)"] Cons.prems show ?thesis
      by (cases "sent < length data") auto
  next
    case Retry
    with Cons.IH [of sent out] Cons.prems show ?thesis by (cases "sent < length data") auto
  qed
qed simp

lemma send_all_until_script:
  assumes "r = send_all_until strerror fd data size_n deadline hs ps es"
  shows "set (script_left r) \<subseteq> set es \<and>
    (\<forall>m. status r = Threw (SendCancelled m) \<longrightarrow> (\<exists>e \<in> set es. stop_at_top e \<or> stop_after_send e))"
  using assms send_loop_script [OF refl] by (auto simp: send_all_until_def failed_send_def split: if_splits)

section \<open>Properties\<close>

text \<open>The script of a call on which the socket accepts three bytes, blocks once and then accepts the rest.\<close>

definition quiet_env :: send_env where
  "quiet_env = \<lparr>stop_at_top = False, now_at_top = 0, send_ret = 3, send_errno = EAGAIN, stop_after_send = False,
     now_for_wait = 0, poll_ret = 1, poll_errno = EINTR, poll_revents = POLLOUT, getsockopt_ret = 0, so_error = None\<rparr>"

definition sample_script :: "send_env list" where
  "sample_script = [quiet_env, quiet_env\<lparr>send_ret := -1\<rparr>, quiet_env\<lparr>send_ret := 2\<rparr>]"

text \<open>
  C18: if \<open>send\<close> never reports more bytes than it was given, then whatever partial writes, interrupts,
  full buffers, errors, deadlines and cancellations occur, the bytes handed to the connection are
  exactly a prefix of the data, without gaps or repetitions; the call returns normally exactly when
  this prefix is everything, and a timeout or cancellation reports the exact number of bytes sent.
  A cancellation is only ever reported when a stop flag was supplied.
\<close>

theorem send_all_until_prefix:
  assumes "0 \<le> fd" and "0 < poll_slice" and "send_contract (length data) 0 es"
    and "r = send_all_until strerror fd (Some data) (length data) deadline has_stop poll_slice es"
  shows "wire r = take (sent_count r) data \<and> sent_count r \<le> length data \<and>
    (status r = Returned \<longleftrightarrow> wire r = data) \<and>
    (\<forall>m. status r = Threw (SendTimeout m) \<longrightarrow> SendTimeout m = throw_timeout (sent_count r) (length data)) \<and>
    (\<forall>m. status r = Threw (SendCancelled m) \<longrightarrow>
       SendCancelled m = throw_cancelled (sent_count r) (length data) \<and> has_stop)"
proof -
  have r: "r = send_loop strerror data deadline has_stop poll_slice 0 [] es"
    using assms by (simp add: send_all_until_def)
  note prefix = send_loop_prefix [OF assms(3) _ _ r, simplified]
  then have "wire r = data \<longleftrightarrow> sent_count r = length data" by (metis length_take min.absorb2 take_all_iff order_refl)
  with prefix send_loop_reports [OF r] show ?thesis by blast
qed

theorem send_all_until_prefix_witness:
  "wire (send_all_until (\<lambda>n. ''error'') 4 (Some [1, 2, 3, 4, 5]) (length [1 :: u8, 2, 3, 4, 5])
     1000 True 50 sample_script) = [1, 2, 3, 4, 5]"
proof -
  let ?d = "[1 :: u8, 2, 3, 4, 5]"
  let ?r = "send_all_until (\<lambda>n. ''error'') 4 (Some ?d) (length ?d) 1000 True 50 sample_script"
  have "send_contract (length ?d) 0 sample_script" by (simp add: sample_script_def quiet_env_def)
  with send_all_until_prefix [of 4 50 ?d sample_script ?r "\<lambda>n. ''error''" 1000 True]
  have "status ?r = Returned \<longleftrightarrow> wire ?r = ?d" by (simp del: list.size)
  moreover have "status ?r = Returned"
    by (simp add: send_all_until_def sample_script_def quiet_env_def send_iter_def cancellation_requested_def
        remaining_wait_ms_def INT_MAX_def after_poll_def POLLOUT_def POLLNVAL_def POLLERR_def POLLHUP_def)
  ultimately show ?thesis by blast
qed

text \<open>
  C36: the call cannot outlive its deadline or a stop request. In the iteration whose first look at
  the clock is at or after the deadline, or at the stop flag finds it set, at the latest, the call has
  returned or thrown, whatever the socket does; and every single wait in \<open>poll\<close> is positive, at most
  the configured slice and fits an \<open>int\<close>.
\<close>

theorem send_all_until_ends:
  assumes "k < length es"
    and "deadline \<le> now_at_top (es ! k) \<or> cancellation_requested has_stop (stop_at_top (es ! k))"
    and "r = send_all_until strerror fd data size_n deadline has_stop poll_slice es"
  shows "status r \<noteq> Blocked \<and> length es - length (script_left r) \<le> Suc k \<and>
    (0 < poll_slice \<and> now < deadline \<longrightarrow>
       remaining_wait_ms now deadline poll_slice \<in> {1..poll_slice} \<and>
       remaining_wait_ms now deadline poll_slice \<le> INT_MAX)"
proof -
  have "status r \<noteq> Blocked \<and> length es - length (script_left r) \<le> Suc k"
    using send_loop_ends [OF assms(1,2) refl] assms(3)
    by (simp add: send_all_until_def failed_send_def split: option.splits)
  then show ?thesis using remaining_wait_bounds [of poll_slice now deadline] by fastforce
qed

theorem send_all_until_ends_witness:
  "status (send_all_until (\<lambda>n. ''error'') 4 (Some [1, 2, 3, 4, 5]) 5 1000 True 50
     [quiet_env\<lparr>send_ret := -1\<rparr>, quiet_env\<lparr>now_at_top := 1000\<rparr>]) \<noteq> Blocked"
  using send_all_until_ends [of 1 "[quiet_env\<lparr>send_ret := -1\<rparr>, quiet_env\<lparr>now_at_top := 1000\<rparr>]" 1000 True _
      "\<lambda>n. ''error''" 4 "Some [1, 2, 3, 4, 5]" 5 50 0]
  by simp

end
