(* ===== verification/Latency_Stats.thy ===== *)
theory Latency_Stats
  imports Complex_Main Capture_Prelude
begin

text \<open>
  \<open>LatencyStats\<close> of \<open>include/latency_stats.hpp\<close>: collection of latency samples and their summary. A
  C++ \<open>double\<close> argument is a finite value or one of the non-finite ones; finite values and the
  arithmetic on them are those of the real numbers, so rounding is not part of the model. \<open>std::sort\<close>
  is the library function \<open>sort\<close>.
\<close>

datatype cpp_double = Finite real | NonFinite

record latency_stats =
  samples_us :: "real list"

record latency_summary =
  sample_count :: nat
  min_us :: real
  mean_us :: real
  p50_us :: real
  p95_us :: real
  p99_us :: real
  max_us :: real
  jitter_us :: real

definition LatencyStats :: latency_stats where
  "LatencyStats = \<lparr>samples_us = []\<rparr>"

definition add_sample_us :: "cpp_double \<Rightarrow> latency_stats \<Rightarrow> latency_stats" where
  "add_sample_us value_us s = (case value_us of
      NonFinite \<Rightarrow> s
    | Finite v \<Rightarrow> if v < 0 then s else s\<lparr>samples_us := samples_us s @ [v]\<rparr>)"

definition percentile :: "real list \<Rightarrow> real \<Rightarrow> real" where
  "percentile sorted_samples quantile =
     (if sorted_samples = [] then 0
      else if length sorted_samples = 1 then hd sorted_samples
      else let rank = quantile * real (length sorted_samples - 1);
               lower = nat \<lfloor>rank\<rfloor>;
               upper = nat \<lceil>rank\<rceil>;
               fraction = rank - real lower
           in sorted_samples ! lower + (sorted_samples ! upper - sorted_samples ! lower) * fraction)"

definition accumulate :: "real list \<Rightarrow> real" where
  "accumulate xs = foldl (+) 0 xs"

definition empty_summary :: latency_summary where
  "empty_summary = \<lparr>sample_count = 0, min_us = 0, mean_us = 0, p50_us = 0, p95_us = 0, p99_us = 0,
     max_us = 0, jitter_us = 0\<rparr>"

definition latency_snapshot :: "latency_stats \<Rightarrow> latency_summary" where
  "latency_snapshot s =
     (let samples = samples_us s;
          summary = empty_summary\<lparr>sample_count := length samples\<rparr>
      in if samples = [] then summary
         else
           let samples = sort samples;
               mean = accumulate samples / real (length samples);
               squared_deviation_sum =
                 foldl (\<lambda>acc sample. let delta = sample - mean in acc + delta * delta) 0 samples
           in summary\<lparr>min_us := hd samples, max_us := last samples, mean_us := mean,
                p50_us := percentile samples (50 / 100), p95_us := percentile samples (95 / 100),
                p99_us := percentile samples (99 / 100),
                jitter_us := sqrt (squared_deviation_sum / real (length samples))\<rparr>)"

section \<open>Interpolated percentiles\<close>

lemma percentile_between:
  assumes "sorted s" and "0 \<le> q" and "q \<le> 1" and "1 < length s"
  shows "s ! nat \<lfloor>q * real (length s - 1)\<rfloor> \<le> percentile s q"
    and "percentile s q \<le> s ! nat \<lceil>q * real (length s - 1)\<rceil>"
    and "nat \<lceil>q * real (length s - 1)\<rceil> < length s"
proof -
  let ?r = "q * real (length s - 1)"
  let ?l = "nat \<lfloor>?r\<rfloor>" and ?u = "nat \<lceil>?r\<rceil>"
  have r0: "0 \<le> ?r" using assms by simp
  have r1: "?r \<le> real (length s - 1)" using assms by (simp add: mult_left_le_one_le)
  show up: "?u < length s" using r1 assms(4) by linarith
  have lu: "?l \<le> ?u" using r0 by linarith
  from sorted_nth_mono [OF assms(1) lu up] have d: "s ! ?l \<le> s ! ?u" .
  have f: "0 \<le> ?r - real ?l" "?r - real ?l \<le> 1" using r0 by linarith+
  have p: "percentile s q = s ! ?l + (s ! ?u - s ! ?l) * (?r - real ?l)"
    using assms(4) by (auto simp: percentile_def Let_def)
  show "s ! ?l \<le> percentile s q" unfolding p using d f by simp
  have "(s ! ?u - s ! ?l) * (?r - real ?l) \<le> (s ! ?u - s ! ?l) * 1"
    using d f by (intro mult_left_mono) auto
  then show "percentile s q \<le> s ! ?u" unfolding p by (simp only: mult_1_right)
qed

lemma percentile_mono:
  assumes "sorted s" and "s \<noteq> []" and "0 \<le> q" and "q \<le> q'" and "q' \<le> 1"
  shows "percentile s q \<le> percentile s q'"
proof (cases "length s = 1")
  case True
  with assms(2) show ?thesis by (simp add: percentile_def)
next
  case False
  with assms(2) have n: "1 < length s" by (cases s) auto
  let ?r = "q * real (length s - 1)" and ?r' = "q' * real (length s - 1)"
  have rr: "?r \<le> ?r'" and r0: "0 \<le> ?r" using assms by (auto intro: mult_right_mono)
  show ?thesis
  proof (cases "\<lfloor>?r\<rfloor> = \<lfloor>?r'\<rfloor>")
    case True
    let ?l = "nat \<lfloor>?r\<rfloor>"
    show ?thesis
    proof (cases "?r' = real ?l")
      case True
      then have "?r = ?r'" using rr r0 by linarith
      then show ?thesis using n by (simp add: percentile_def Let_def)
    next
      case frac': False
      have u': "nat \<lceil>?r'\<rceil> = Suc ?l" using frac' True r0 rr by linarith
      have lt: "Suc ?l < length s" using percentile_between(3) [of s q'] assms n u' by simp
      from sorted_nth_mono [OF assms(1) le_SucI [OF order_refl] lt] have d: "s ! ?l \<le> s ! Suc ?l" .
      have p': "percentile s q' = s ! ?l + (s ! Suc ?l - s ! ?l) * (?r' - real ?l)"
        using n True u' by (auto simp: percentile_def Let_def)
      have "nat \<lceil>?r\<rceil> = Suc ?l \<or> ?r = real ?l" using r0 by linarith
      then have p: "percentile s q = s ! ?l + (s ! Suc ?l - s ! ?l) * (?r - real ?l)"
        using n by (auto simp: percentile_def Let_def)
      show ?thesis unfolding p p' using d rr by (simp add: mult_left_mono)
    qed
  next
    case False
    then have le: "nat \<lceil>?r\<rceil> \<le> nat \<lfloor>?r'\<rfloor>" using rr r0 by linarith
    have "nat \<lfloor>?r'\<rfloor> < length s"
      using percentile_between(3) [of s q'] assms n by linarith
    from sorted_nth_mono [OF assms(1) le this] have mid: "s ! nat \<lceil>?r\<rceil> \<le> s ! nat \<lfloor>?r'\<rfloor>" .
    have "percentile s q \<le> s ! nat \<lceil>?r\<rceil>" "s ! nat \<lfloor>?r'\<rfloor> \<le> percentile s q'"
      using percentile_between [of s q] percentile_between [of s q'] assms n by auto
    with mid show ?thesis by linarith
  qed
qed

lemma percentile_ends:
  assumes "s \<noteq> []"
  shows "percentile s 0 = hd s" and "percentile s 1 = last s"
proof -
  show "percentile s 0 = hd s" using assms by (simp add: percentile_def hd_conv_nth)
  have "s ! (length s - 1) = last s" using assms by (simp add: last_conv_nth)
  then show "percentile s 1 = last s" using assms
    by (cases s) (auto simp: percentile_def Let_def)
qed

lemma accumulate_sum: "accumulate xs = sum_list xs"
proof -
  have "foldl (+) a xs = a + sum_list xs" for a :: real
    by (induction xs arbitrary: a) (simp_all add: add.assoc)
  then show ?thesis by (simp add: accumulate_def)
qed

lemma mean_between:
  assumes "xs \<noteq> []" and "\<And>x. x \<in> set xs \<Longrightarrow> lo \<le> x \<and> x \<le> hi"
  shows "lo \<le> sum_list xs / real (length xs)" and "sum_list xs / real (length xs) \<le> hi"
proof -
  have "real (length xs) * lo \<le> sum_list xs \<and> sum_list xs \<le> real (length xs) * hi"
    using assms(2)
  proof (induction xs)
    case (Cons x xs)
    then have "lo \<le> x" "x \<le> hi" "real (length xs) * lo \<le> sum_list xs \<and> sum_list xs \<le> real (length xs) * hi"
      by auto
    then show ?case by (simp add: algebra_simps)
  qed simp
  moreover have "0 < real (length xs)" using assms(1) by simp
  ultimately show "lo \<le> sum_list xs / real (length xs)" "sum_list xs / real (length xs) \<le> hi"
    by (simp_all add: field_simps)
qed

lemma sorted_hd_last:
  assumes "sorted s" and "x \<in> set s"
  shows "hd s \<le> x \<and> x \<le> last s"
proof -
  from assms(2) obtain i where i: "i < length s" "x = s ! i" by (auto simp: in_set_conv_nth)
  with assms(1) have "s ! 0 \<le> x" "x \<le> s ! (length s - 1)" by (auto intro: sorted_nth_mono)
  with i show ?thesis by (simp add: hd_conv_nth last_conv_nth flip: length_greater_0_conv)
qed

lemma samples_nonneg:
  "\<forall>x \<in> set (samples_us s). 0 \<le> x \<Longrightarrow> \<forall>x \<in> set (samples_us (add_sample_us v s)). 0 \<le> x"
  by (auto simp: add_sample_us_def split: cpp_double.splits if_splits)

lemma samples_run:
  "samples_us (fold add_sample_us vs s) =
     samples_us s @ map (\<lambda>v. case v of Finite x \<Rightarrow> x | NonFinite \<Rightarrow> 0)
       (filter (\<lambda>v. case v of Finite x \<Rightarrow> 0 \<le> x | NonFinite \<Rightarrow> False) vs)"
  by (induction vs arbitrary: s) (auto simp: add_sample_us_def not_le split: cpp_double.splits)

section \<open>Properties\<close>



end
