(* ===== verification/Yuyv.thy ===== *)
theory Yuyv
  imports Capture_Prelude
begin

text \<open>
  The YUYV converters: \<open>frame_yuyv_to_rgb\<close> of \<open>src/main.cpp\<close>, \<open>CameraDevice::yuyv_to_rgb\<close> of
  \<open>src/camera_device.cpp\<close> (the same code on a raw pointer), and \<open>convert_yuyv_to_rgb8\<close> and
  \<open>convert_yuyv_to_mono8\<close> of the ROS 2 adapter. The loops update the output vector in place, as in the
  source; a closed description of their result is proved for each. Reading behind the end of a list is
  the unspecified value of \<open>nth\<close>, so the theorems state the sizes under which it does not happen.
  \<open>>> 8\<close> on a signed \<open>int\<close> is the arithmetic shift, the division by 256 that rounds down.
\<close>

section \<open>The converter of the capture program\<close>

definition frame_clamp_to_u8 :: "int \<Rightarrow> u8" where
  "frame_clamp_to_u8 v = (if v < 0 then 0 else if v > 255 then 255 else word_of_int v)"

definition frame_convert :: "int \<Rightarrow> int \<Rightarrow> int \<Rightarrow> u8 \<times> u8 \<times> u8" where
  "frame_convert y u_val v_val =
     (let c = y - 16; d = u_val - 128; e = v_val - 128;
          r = (298 * c + 409 * e + 128) div 256;
          g = (298 * c - 100 * d - 208 * e + 128) div 256;
          b = (298 * c + 516 * d + 128) div 256
      in (frame_clamp_to_u8 r, frame_clamp_to_u8 g, frame_clamp_to_u8 b))"

definition store3 :: "bytes \<Rightarrow> nat \<Rightarrow> u8 \<times> u8 \<times> u8 \<Rightarrow> bytes" where
  "store3 rgb out p = (case p of (r, g, b) \<Rightarrow> rgb[out := r, out + 1 := g, out + 2 := b])"

function frame_yuyv_loop :: "bytes \<Rightarrow> nat \<Rightarrow> nat \<Rightarrow> nat \<Rightarrow> nat \<Rightarrow> bytes \<Rightarrow> bytes" where
  "frame_yuyv_loop yuyv pixel_count i inp out rgb =
     (if i + 1 < pixel_count then
        let y0 = uint (yuyv ! (inp + 0)); u = uint (yuyv ! (inp + 1));
            y1 = uint (yuyv ! (inp + 2)); v = uint (yuyv ! (inp + 3));
            rgb = store3 rgb out (frame_convert y0 u v);
            rgb = store3 rgb (out + 3) (frame_convert y1 u v)
        in frame_yuyv_loop yuyv pixel_count (i + 2) (inp + 4) (out + 6) rgb
      else rgb)"
  by pat_completeness auto
termination by (relation "measure (\<lambda>(yuyv, n, i, inp, out, rgb). n - i)") auto

declare frame_yuyv_loop.simps [simp del]

definition frame_yuyv_to_rgb :: "bytes \<Rightarrow> u32 \<Rightarrow> u32 \<Rightarrow> bytes" where
  "frame_yuyv_to_rgb yuyv width height =
     (let pixel_count = unat width * unat height
      in frame_yuyv_loop yuyv pixel_count 0 0 0 (replicate (pixel_count * 3) 0))"

section \<open>The converters of the ROS 2 adapter\<close>

definition clamp_u8 :: "int \<Rightarrow> u8" where
  "clamp_u8 v = (if v < 0 then 0 else if v > 255 then 255 else word_of_int v)"

definition write_pixel :: "int \<Rightarrow> int \<Rightarrow> int \<Rightarrow> u8 \<times> u8 \<times> u8" where
  "write_pixel d e y =
     (let c = (if y > 16 then y - 16 else 0);
          red = (298 * c + 409 * e + 128) div 256;
          green = (298 * c - 100 * d - 208 * e + 128) div 256;
          blue = (298 * c + 516 * d + 128) div 256
      in (clamp_u8 red, clamp_u8 green, clamp_u8 blue))"

function rgb8_loop :: "bytes \<Rightarrow> nat \<Rightarrow> nat \<Rightarrow> bytes \<Rightarrow> bytes" where
  "rgb8_loop payload src dst rgb =
     (if src < length payload then
        let y0 = uint (payload ! (src + 0)); u = uint (payload ! (src + 1));
            y1 = uint (payload ! (src + 2)); v = uint (payload ! (src + 3));
            d = u - 128; e = v - 128;
            rgb = store3 rgb dst (write_pixel d e y0);
            rgb = store3 rgb (dst + 3) (write_pixel d e y1)
        in rgb8_loop payload (src + 4) (dst + 6) rgb
      else rgb)"
  by pat_completeness auto
termination by (relation "measure (\<lambda>(payload, src, dst, rgb). length payload - src)") auto

declare rgb8_loop.simps [simp del]

definition convert_yuyv_to_rgb8 :: "bytes \<Rightarrow> u32 \<Rightarrow> u32 \<Rightarrow> bytes result" where
  "convert_yuyv_to_rgb8 payload width height =
     throw_if (length payload \<noteq> unat width * unat height * 2)
       (InvalidArgument ''YUYV payload size does not match width and height'')
     (throw_if (width mod 2 \<noteq> 0) (InvalidArgument ''YUYV width must be even'')
     (Inr (rgb8_loop payload 0 0 (replicate (unat width * unat height * 3) 0))))"

function mono8_loop :: "bytes \<Rightarrow> nat \<Rightarrow> nat \<Rightarrow> bytes \<Rightarrow> bytes" where
  "mono8_loop payload src dst grey =
     (if src < length payload then
        mono8_loop payload (src + 4) (dst + 2)
          (grey[dst := payload ! (src + 0), dst + 1 := payload ! (src + 2)])
      else grey)"
  by pat_completeness auto
termination by (relation "measure (\<lambda>(payload, src, dst, grey). length payload - src)") auto

declare mono8_loop.simps [simp del]

definition convert_yuyv_to_mono8 :: "bytes \<Rightarrow> u32 \<Rightarrow> u32 \<Rightarrow> bytes result" where
  "convert_yuyv_to_mono8 payload width height =
     throw_if (length payload \<noteq> unat width * unat height * 2)
       (InvalidArgument ''YUYV payload size does not match width and height'')
     (throw_if (width mod 2 \<noteq> 0) (InvalidArgument ''YUYV width must be even'')
     (Inr (mono8_loop payload 0 0 (replicate (unat width * unat height) 0))))"

section \<open>Macropixels\<close>

text \<open>
  The closed form of the converters: every macropixel \<open>Y0 U Y1 V\<close> of four bytes becomes a block of
  output bytes, and the blocks follow each other.
\<close>

fun macropixels :: "(u8 \<Rightarrow> u8 \<Rightarrow> u8 \<Rightarrow> u8 \<Rightarrow> bytes) \<Rightarrow> bytes \<Rightarrow> bytes" where
  "macropixels block (y0 # u # y1 # v # rest) = block y0 u y1 v @ macropixels block rest"
| "macropixels block _ = []"

text \<open>
  What the three loops have in common: a turn reads the macropixel at \<open>inp\<close>, stores its block at \<open>out\<close>
  and moves on; \<open>n\<close> turns are left.
\<close>

locale macropixel_loop =
  fixes block :: "u8 \<Rightarrow> u8 \<Rightarrow> u8 \<Rightarrow> u8 \<Rightarrow> bytes"
    and k :: nat
    and put :: "bytes \<Rightarrow> nat \<Rightarrow> u8 \<Rightarrow> u8 \<Rightarrow> u8 \<Rightarrow> u8 \<Rightarrow> bytes"
    and turns :: "bytes \<Rightarrow> nat \<Rightarrow> nat \<Rightarrow> nat \<Rightarrow> bytes \<Rightarrow> bytes"
  assumes block_length: "length (block y0 u y1 v) = k"
    and put_block: "out + k \<le> length rgb \<Longrightarrow>
          put rgb out y0 u y1 v = take out rgb @ block y0 u y1 v @ drop (out + k) rgb"
    and turns_0: "turns ys 0 inp out rgb = rgb"
    and turns_Suc: "inp + 4 * Suc n \<le> length ys \<Longrightarrow> turns ys (Suc n) inp out rgb =
          turns ys n (inp + 4) (out + k) (put rgb out (ys ! inp) (ys ! (inp + 1)) (ys ! (inp + 2)) (ys ! (inp + 3)))"
begin

lemma turns_macropixels:
  "inp + 4 * n \<le> length ys \<Longrightarrow> turns ys n inp (length pre) (pre @ replicate (k * n + m) 0) =
     pre @ macropixels block (take (4 * n) (drop inp ys)) @ replicate m 0"
proof (induction n arbitrary: inp pre)
  case 0
  then show ?case by (simp add: turns_0)
next
  case (Suc n)
  let ?b = "block (ys ! inp) (ys ! (inp + 1)) (ys ! (inp + 2)) (ys ! (inp + 3))"
  have put: "put (pre @ replicate (k * Suc n + m) 0) (length pre) (ys ! inp) (ys ! (inp + 1)) (ys ! (inp + 2))
      (ys ! (inp + 3)) = (pre @ ?b) @ replicate (k * n + m) 0"
    by (simp add: put_block)
  have d: "drop inp ys = ys ! inp # ys ! (inp + 1) # ys ! (inp + 2) # ys ! (inp + 3) # drop (inp + 4) ys"
    using Suc.prems by (simp add: numeral_eq_Suc Cons_nth_drop_Suc)
  have "4 * Suc n = Suc (Suc (Suc (Suc (4 * n))))" by simp
  then have "macropixels block (take (4 * Suc n) (drop inp ys)) = ?b @ macropixels block (take (4 * n) (drop (inp + 4) ys))"
    by (simp only: d take_Suc_Cons macropixels.simps)
  moreover have "turns ys (Suc n) inp (length pre) (pre @ replicate (k * Suc n + m) 0) =
      turns ys n (inp + 4) (length (pre @ ?b)) ((pre @ ?b) @ replicate (k * n + m) 0)"
    using turns_Suc [OF Suc.prems] put block_length by simp
  ultimately show ?case using Suc.IH [of "inp + 4" "pre @ ?b"] Suc.prems by simp
qed

lemma length_macropixels: "length bs = 4 * n \<Longrightarrow> length (macropixels block bs) = k * n"
proof (induction n arbitrary: bs)
  case (Suc n)
  then obtain y0 u y1 v rest where "bs = y0 # u # y1 # v # rest" "length rest = 4 * n"
    by (auto simp: length_Suc_conv numeral_eq_Suc)
  with Suc.IH show ?case by (simp add: block_length)
qed simp

end

section \<open>The loops are macropixel loops\<close>

definition rgb_list :: "u8 \<times> u8 \<times> u8 \<Rightarrow> bytes" where
  "rgb_list p = (case p of (r, g, b) \<Rightarrow> [r, g, b])"

definition frame_block :: "u8 \<Rightarrow> u8 \<Rightarrow> u8 \<Rightarrow> u8 \<Rightarrow> bytes" where
  "frame_block y0 u y1 v =
     rgb_list (frame_convert (uint y0) (uint u) (uint v)) @ rgb_list (frame_convert (uint y1) (uint u) (uint v))"

definition rgb8_block :: "u8 \<Rightarrow> u8 \<Rightarrow> u8 \<Rightarrow> u8 \<Rightarrow> bytes" where
  "rgb8_block y0 u y1 v =
     rgb_list (write_pixel (uint u - 128) (uint v - 128) (uint y0)) @
     rgb_list (write_pixel (uint u - 128) (uint v - 128) (uint y1))"

lemma length_rgb_list [simp]: "length (rgb_list p) = 3"
  by (simp add: rgb_list_def split: prod.split)

lemma store3_slice:
  assumes "out + 3 \<le> length rgb"
  shows "store3 rgb out p = take out rgb @ rgb_list p @ drop (out + 3) rgb"
proof -
  obtain r g b where p: "p = (r, g, b)" by (cases p)
  have "store3 rgb out p = fold (\<lambda>i w. w[out + i := [r, g, b] ! i]) [0..<3] rgb"
    by (simp add: store3_def p numeral_eq_Suc upt_rec)
  also have "\<dots> = take out rgb @ map (\<lambda>i. [r, g, b] ! i) [0..<3] @ drop (out + 3) rgb"
    using assms by (rule list_update_run)
  finally show ?thesis by (simp add: p rgb_list_def numeral_eq_Suc upt_rec)
qed

lemma store3_twice:
  assumes "out + 6 \<le> length rgb"
  shows "store3 (store3 rgb out p) (out + 3) q = take out rgb @ (rgb_list p @ rgb_list q) @ drop (out + 6) rgb"
  using assms by (simp add: store3_slice add.commute)

definition frame_put :: "bytes \<Rightarrow> nat \<Rightarrow> u8 \<Rightarrow> u8 \<Rightarrow> u8 \<Rightarrow> u8 \<Rightarrow> bytes" where
  "frame_put rgb out y0 u y1 v =
     store3 (store3 rgb out (frame_convert (uint y0) (uint u) (uint v))) (out + 3)
       (frame_convert (uint y1) (uint u) (uint v))"

definition rgb8_put :: "bytes \<Rightarrow> nat \<Rightarrow> u8 \<Rightarrow> u8 \<Rightarrow> u8 \<Rightarrow> u8 \<Rightarrow> bytes" where
  "rgb8_put rgb out y0 u y1 v =
     store3 (store3 rgb out (write_pixel (uint u - 128) (uint v - 128) (uint y0))) (out + 3)
       (write_pixel (uint u - 128) (uint v - 128) (uint y1))"

definition mono8_put :: "bytes \<Rightarrow> nat \<Rightarrow> u8 \<Rightarrow> u8 \<Rightarrow> u8 \<Rightarrow> u8 \<Rightarrow> bytes" where
  "mono8_put grey out y0 u y1 v = grey[out := y0, out + 1 := y1]"

definition mono8_block :: "u8 \<Rightarrow> u8 \<Rightarrow> u8 \<Rightarrow> u8 \<Rightarrow> bytes" where
  "mono8_block y0 u y1 v = [y0, y1]"

lemma mono8_put_slice:
  "out + 2 \<le> length grey \<Longrightarrow> mono8_put grey out y0 u y1 v = take out grey @ mono8_block y0 u y1 v @ drop (out + 2) grey"
  using list_update_run [of out 2 grey "\<lambda>i. [y0, y1] ! i"]
  by (simp add: mono8_put_def mono8_block_def numeral_2_eq_2 upt_rec)

lemma frame_yuyv_loop_step:
  "i + 1 < n \<Longrightarrow> frame_yuyv_loop ys n i inp out rgb = frame_yuyv_loop ys n (i + 2) (inp + 4) (out + 6)
     (frame_put rgb out (ys ! inp) (ys ! (inp + 1)) (ys ! (inp + 2)) (ys ! (inp + 3)))"
  by (subst frame_yuyv_loop.simps) (simp add: Let_def frame_put_def)

lemma frame_yuyv_loop_stop: "n \<le> i + 1 \<Longrightarrow> frame_yuyv_loop ys n i inp out rgb = rgb"
  by (subst frame_yuyv_loop.simps) simp

lemma rgb8_loop_step:
  "src < length ys \<Longrightarrow> rgb8_loop ys src out rgb = rgb8_loop ys (src + 4) (out + 6)
     (rgb8_put rgb out (ys ! src) (ys ! (src + 1)) (ys ! (src + 2)) (ys ! (src + 3)))"
  by (subst rgb8_loop.simps) (simp add: Let_def rgb8_put_def)

lemma rgb8_loop_stop: "length ys \<le> src \<Longrightarrow> rgb8_loop ys src out rgb = rgb"
  by (subst rgb8_loop.simps) simp

lemma mono8_loop_step:
  "src < length ys \<Longrightarrow> mono8_loop ys src out rgb = mono8_loop ys (src + 4) (out + 2)
     (mono8_put rgb out (ys ! src) (ys ! (src + 1)) (ys ! (src + 2)) (ys ! (src + 3)))"
  by (subst mono8_loop.simps) (simp add: Let_def mono8_put_def)

lemma mono8_loop_stop: "length ys \<le> src \<Longrightarrow> mono8_loop ys src out rgb = rgb"
  by (subst mono8_loop.simps) simp

lemma frame_yuyv_loop_shift:
  "frame_yuyv_loop ys (n + 2) (i + 2) inp out rgb = frame_yuyv_loop ys n i inp out rgb"
proof (induction "n - i" arbitrary: i inp out rgb rule: less_induct)
  case less
  show ?case
  proof (cases "i + 1 < n")
    case True
    let ?rgb = "frame_put rgb out (ys ! inp) (ys ! (inp + 1)) (ys ! (inp + 2)) (ys ! (inp + 3))"
    have "frame_yuyv_loop ys (n + 2) (i + 2) inp out rgb = frame_yuyv_loop ys (n + 2) (i + 2 + 2) (inp + 4) (out + 6) ?rgb"
      using True by (intro frame_yuyv_loop_step) simp
    also have "\<dots> = frame_yuyv_loop ys n (i + 2) (inp + 4) (out + 6) ?rgb" using True by (intro less) simp
    also have "\<dots> = frame_yuyv_loop ys n i inp out rgb" using True by (rule frame_yuyv_loop_step [symmetric])
    finally show ?thesis .
  next
    case False
    then show ?thesis by (simp add: frame_yuyv_loop_stop)
  qed
qed

interpretation frame_rgb: macropixel_loop frame_block 6 frame_put "\<lambda>ys n. frame_yuyv_loop ys (2 * n + r mod 2) 0"
proof
  fix ys rgb :: bytes and n inp out :: nat
  have "r mod 2 \<le> 1" by auto
  then show "frame_yuyv_loop ys (2 * 0 + r mod 2) 0 inp out rgb = rgb" by (simp add: frame_yuyv_loop_stop)
  have n: "2 * Suc n + r mod 2 = (2 * n + r mod 2) + 2" by simp
  show "frame_yuyv_loop ys (2 * Suc n + r mod 2) 0 inp out rgb =
      frame_yuyv_loop ys (2 * n + r mod 2) 0 (inp + 4) (out + 6)
        (frame_put rgb out (ys ! inp) (ys ! (inp + 1)) (ys ! (inp + 2)) (ys ! (inp + 3)))"
    unfolding n by (subst frame_yuyv_loop_step, simp, rule frame_yuyv_loop_shift)
qed (simp_all add: frame_block_def frame_put_def store3_twice)

interpretation rgb8: macropixel_loop rgb8_block 6 rgb8_put "\<lambda>ys n inp. rgb8_loop (take (inp + 4 * n) ys) inp"
proof
  fix ys rgb :: bytes and n inp out :: nat
  assume "inp + 4 * Suc n \<le> length ys"
  then show "rgb8_loop (take (inp + 4 * Suc n) ys) inp out rgb = rgb8_loop (take (inp + 4 + 4 * n) ys) (inp + 4) (out + 6)
      (rgb8_put rgb out (ys ! inp) (ys ! (inp + 1)) (ys ! (inp + 2)) (ys ! (inp + 3)))"
    by (subst rgb8_loop_step) (simp_all add: add.assoc)
qed (simp_all add: rgb8_block_def rgb8_put_def store3_twice rgb8_loop_stop)

interpretation mono8: macropixel_loop mono8_block 2 mono8_put "\<lambda>ys n inp. mono8_loop (take (inp + 4 * n) ys) inp"
proof
  fix ys rgb :: bytes and n inp out :: nat
  assume "inp + 4 * Suc n \<le> length ys"
  then show "mono8_loop (take (inp + 4 * Suc n) ys) inp out rgb = mono8_loop (take (inp + 4 + 4 * n) ys) (inp + 4) (out + 2)
      (mono8_put rgb out (ys ! inp) (ys ! (inp + 1)) (ys ! (inp + 2)) (ys ! (inp + 3)))"
    by (subst mono8_loop_step) (simp_all add: add.assoc)
next
  fix rgb :: bytes and out y0 u y1 v
  assume "out + 2 \<le> length rgb"
  then show "mono8_put rgb out y0 u y1 v = take out rgb @ mono8_block y0 u y1 v @ drop (out + 2) rgb"
    by (rule mono8_put_slice)
qed (simp_all add: mono8_block_def mono8_loop_stop)

lemma macropixels_cong:
  assumes "\<And>i. i < length bs \<Longrightarrow> even i \<Longrightarrow> P (bs ! i)"
    and "\<And>y0 u y1 v. P y0 \<Longrightarrow> P y1 \<Longrightarrow> f y0 u y1 v = g y0 u y1 v"
  shows "macropixels f bs = macropixels g bs"
  using assms
proof (induction f bs rule: macropixels.induct)
  case (1 f y0 u y1 v rest)
  have "P (rest ! i)" if "i < length rest" "even i" for i
    using 1(2) [of "i + 4"] that by simp
  moreover have "P y0" "P y1" using 1(2) [of 0] 1(2) [of 2] by simp_all
  ultimately show ?case using 1 by simp
qed simp_all

lemma blocks_agree:
  assumes "16 \<le> y0" and "16 \<le> y1"
  shows "frame_block y0 u y1 v = rgb8_block y0 u y1 v"
proof -
  have "frame_convert (uint y) (uint u) (uint v) = write_pixel (uint u - 128) (uint v - 128) (uint y)"
    if "16 \<le> y" for y :: u8
  proof -
    have "16 \<le> uint y" using that by (simp add: word_le_def)
    then have "(if uint y > 16 then uint y - 16 else 0) = uint y - 16" by simp
    then show ?thesis
      by (simp only: frame_convert_def write_pixel_def frame_clamp_to_u8_def clamp_u8_def Let_def)
  qed
  with assms show ?thesis by (simp add: frame_block_def rgb8_block_def)
qed

lemma frame_yuyv_to_rgb_macropixels:
  assumes "unat w * unat h * 2 \<le> length yuyv"
  shows "frame_yuyv_to_rgb yuyv w h =
    macropixels frame_block (take (4 * (unat w * unat h div 2)) yuyv) @ replicate (3 * (unat w * unat h mod 2)) 0"
proof -
  let ?n = "unat w * unat h"
  have n: "2 * (?n div 2) + ?n mod 2 = ?n" "6 * (?n div 2) + 3 * (?n mod 2) = ?n * 3" by presburger+
  have "4 * (?n div 2) \<le> length yuyv" using assms by presburger
  then show ?thesis
    using frame_rgb.turns_macropixels [of 0 "?n div 2" yuyv ?n "[]" "3 * (?n mod 2)"] n
    by (simp add: frame_yuyv_to_rgb_def Let_def)
qed

lemma even_width_blocks:
  fixes w h :: u32
  assumes "length payload = unat w * unat h * 2" and "w mod 2 = 0"
  obtains n where "length payload = 4 * n" and "unat w * unat h = 2 * n"
proof -
  have "unat (w mod 2) = 0" using assms(2) by (simp only: unat_0)
  then have "even (unat w)" by (simp add: unat_mod even_iff_mod_2_eq_zero)
  then obtain m where "unat w = 2 * m" by (rule evenE)
  with assms(1) that [of "m * unat h"] show thesis by simp
qed

lemma rgb8_macropixels:
  fixes w h :: u32
  assumes "length payload = unat w * unat h * 2" and "w mod 2 = 0"
  shows "rgb8_loop payload 0 0 (replicate (unat w * unat h * 3) 0) = macropixels rgb8_block payload"
proof -
  obtain n where n: "length payload = 4 * n" "unat w * unat h = 2 * n" using assms by (rule even_width_blocks)
  then show ?thesis using rgb8.turns_macropixels [of 0 n payload "[]" 0] by simp
qed

lemma mono8_macropixels:
  fixes w h :: u32
  assumes "length payload = unat w * unat h * 2" and "w mod 2 = 0"
  shows "mono8_loop payload 0 0 (replicate (unat w * unat h) 0) = macropixels mono8_block payload"
proof -
  obtain n where n: "length payload = 4 * n" "unat w * unat h = 2 * n" using assms by (rule even_width_blocks)
  then show ?thesis using mono8.turns_macropixels [of 0 n payload "[]" 0] by simp
qed

section \<open>Properties\<close>

text \<open>
  When the buffer holds at least \<open>width * height * 2\<close> bytes, the converter of the capture program
  reads no byte behind it and its result is the concatenation of the converted macropixels; with an odd
  number of pixels the last one stays black. The result always has three bytes per pixel.
\<close>

theorem frame_yuyv_to_rgb_spec:
  assumes "unat w * unat h * 2 \<le> length yuyv"
  shows "frame_yuyv_to_rgb yuyv w h =
      macropixels frame_block (take (4 * (unat w * unat h div 2)) yuyv) @ replicate (3 * (unat w * unat h mod 2)) 0 \<and>
    length (frame_yuyv_to_rgb yuyv w h) = unat w * unat h * 3"
proof -
  let ?n = "unat w * unat h"
  have "length (take (4 * (?n div 2)) yuyv) = 4 * (?n div 2)" using assms by simp
  from frame_rgb.length_macropixels [OF this] frame_yuyv_to_rgb_macropixels [OF assms]
  have "length (frame_yuyv_to_rgb yuyv w h) = 6 * (?n div 2) + 3 * (?n mod 2)" by simp
  moreover have "6 * (m div 2) + 3 * (m mod 2) = m * 3" for m :: nat by presburger
  ultimately show ?thesis using frame_yuyv_to_rgb_macropixels [OF assms] by simp
qed

theorem frame_yuyv_to_rgb_spec_witness:
  "length (frame_yuyv_to_rgb [16, 128, 235, 128, 81, 90] 3 1) = unat (3 :: u32) * unat (1 :: u32) * 3"
  by (rule conjunct2 [OF frame_yuyv_to_rgb_spec]) simp

text \<open>
  C39: the two colour converters agree on every payload both accept whose luma bytes are at least 16
  (the nominal black level); the adapter accepts exactly payloads of the announced size with even width.
\<close>

theorem yuyv_converters_agree:
  assumes "length payload = unat w * unat h * 2" and "w mod 2 = 0"
    and "\<forall>i < length payload. even i \<longrightarrow> 16 \<le> payload ! i"
  shows "convert_yuyv_to_rgb8 payload w h = Inr (frame_yuyv_to_rgb payload w h)"
proof -
  obtain n where n: "length payload = 4 * n" "unat w * unat h = 2 * n" using assms(1,2) by (rule even_width_blocks)
  have "macropixels frame_block payload = macropixels rgb8_block payload"
    using assms(3) by (intro macropixels_cong [of payload "\<lambda>y. 16 \<le> y"]) (auto intro: blocks_agree)
  then show ?thesis
    using assms n rgb8_macropixels [OF assms(1,2)] frame_yuyv_to_rgb_macropixels [of w h payload]
    by (simp add: convert_yuyv_to_rgb8_def)
qed

theorem yuyv_converters_agree_witness:
  "convert_yuyv_to_rgb8 [16, 128, 235, 200] 2 1 = Inr (frame_yuyv_to_rgb [16, 128, 235, 200] 2 1)"
  by (rule yuyv_converters_agree) (auto simp: less_Suc_eq nth_Cons')

text \<open>
  Below the black level they do not agree: the adapter clamps luma to 16 first, the capture program
  does not, so the same payload gives two different pictures.
\<close>

theorem yuyv_converters_differ:
  "convert_yuyv_to_rgb8 [0, 128, 0, 200] 2 1 \<noteq> Inr (frame_yuyv_to_rgb [0, 128, 0, 200] 2 1)"
proof -
  have "convert_yuyv_to_rgb8 [0, 128, 0, 200] 2 1 = Inr (macropixels rgb8_block [0, 128, 0, 200])"
    using rgb8_macropixels [of "[0, 128, 0, 200]" 2 1] by (simp add: convert_yuyv_to_rgb8_def)
  moreover have "frame_yuyv_to_rgb [0, 128, 0, 200] 2 1 = macropixels frame_block [0, 128, 0, 200]"
    using frame_yuyv_to_rgb_macropixels [of 2 1 "[0, 128, 0, 200]"] by simp
  moreover have "rgb8_block 0 128 0 200 \<noteq> frame_block 0 128 0 200"
    by (simp add: rgb8_block_def frame_block_def rgb_list_def frame_convert_def write_pixel_def
        frame_clamp_to_u8_def clamp_u8_def)
  ultimately show ?thesis by simp
qed

text \<open>
  The grey converter extracts exactly the luma bytes, one per pixel, and rejects every payload whose
  size does not match the dimensions or whose width is odd, before it reads anything.
\<close>

theorem convert_yuyv_to_mono8_spec:
  "convert_yuyv_to_mono8 payload w h = Inr grey \<longleftrightarrow>
     length payload = unat w * unat h * 2 \<and> w mod 2 = 0 \<and> grey = macropixels mono8_block payload \<and>
     length grey = unat w * unat h"
proof -
  have "length (macropixels mono8_block payload) = unat w * unat h"
    if len: "length payload = unat w * unat h * 2" and ev: "w mod 2 = 0"
  proof -
    obtain n where n: "length payload = 4 * n" "unat w * unat h = 2 * n" using len ev by (rule even_width_blocks)
    with mono8.length_macropixels [OF n(1)] show ?thesis by simp
  qed
  then show ?thesis
    using mono8_macropixels [of payload w h]
    by (simp only: convert_yuyv_to_mono8_def throw_if_eq_Inr not_not sum.inject) metis
qed

end
