(* ===== verification/App_Config.thy ===== *)
theory App_Config
  imports Cpp_Strings
begin

text \<open>
  \<open>src/app_config.cpp\<close>: the configuration file reader, the command line, their precedence and the
  validation of the result. A configuration file is the list of its lines as \<open>std::getline\<close> delivers
  them, \<open>None\<close> when it cannot be opened; \<open>files path\<close> is the parameter that stands for the file system.
  The argument vector is the list of the arguments after the program name.
\<close>

record app_config =
  config_path :: string
  device :: string
  list_formats :: bool
  capture_one :: bool
  save_one :: bool
  capture_frames :: int
  pipeline_frames :: int
  ring_capacity :: int
  consumer_delay_ms :: int
  pipeline_save :: bool
  save_limit :: int
  timeout_ms :: int
  camera_recovery_enabled :: bool
  camera_timeout_recovery_threshold :: int
  camera_invalid_frame_recovery_threshold :: int
  camera_invalid_frame_recovery_cooldown_frames :: int
  camera_invalid_frame_recovery_max_count :: int
  camera_recovery_max_attempts :: int
  camera_recovery_retry_delay_ms :: int
  output_dir :: string
  stats_output :: string
  tcp_host :: "string option"
  tcp_port :: int
  tcp_queue_capacity :: int
  tcp_connect_max_attempts :: int
  tcp_connect_retry_delay_ms :: int
  tcp_send_timeout_ms :: int
  width :: "u32 option"
  height :: "u32 option"
  pixel_format :: "string option"
  mmap_buffers :: "u32 option"
  log_level :: string

definition AppConfig :: app_config where
  "AppConfig = \<lparr>
     config_path = ''config/v4l2_tcp_pipeline.conf'', device = ''/dev/video10'', list_formats = False,
     capture_one = False, save_one = False, capture_frames = 0, pipeline_frames = 0, ring_capacity = 8,
     consumer_delay_ms = 0, pipeline_save = False, save_limit = 5, timeout_ms = 2000,
     camera_recovery_enabled = True, camera_timeout_recovery_threshold = 3,
     camera_invalid_frame_recovery_threshold = 30, camera_invalid_frame_recovery_cooldown_frames = 300,
     camera_invalid_frame_recovery_max_count = 3, camera_recovery_max_attempts = 5,
     camera_recovery_retry_delay_ms = 1000, output_dir = ''output'',
     stats_output = ''output/stats/pipeline_stats.json'', tcp_host = None, tcp_port = 0,
     tcp_queue_capacity = 8, tcp_connect_max_attempts = 5, tcp_connect_retry_delay_ms = 500,
     tcp_send_timeout_ms = 2000, width = None, height = None, pixel_format = None, mmap_buffers = None,
     log_level = ''INFO''\<rparr>"

section \<open>Values\<close>

definition trim :: "string \<Rightarrow> string" where
  "trim input = (let s = dropWhile isspace input in rev (dropWhile isspace (rev s)))"

definition to_lower :: "string \<Rightarrow> string" where
  "to_lower v = map tolower v"

definition parse_positive_int :: "string \<Rightarrow> string \<Rightarrow> int \<Rightarrow> int result" where
  "parse_positive_int v name max_value =
     (let failure = Inl (RuntimeError (''Invalid integer for '' @ name @ '': '' @ v)) in
      case stol v of
        Inl e \<Rightarrow> failure
      | Inr (parsed, pos) \<Rightarrow>
          if pos \<noteq> length v \<or> parsed \<le> 0 \<or> parsed > max_value then failure else Inr parsed)"

definition parse_non_negative_int :: "string \<Rightarrow> string \<Rightarrow> int \<Rightarrow> int result" where
  "parse_non_negative_int v name max_value =
     (let failure = Inl (RuntimeError (''Invalid integer for '' @ name @ '': '' @ v)) in
      case stol v of
        Inl e \<Rightarrow> failure
      | Inr (parsed, pos) \<Rightarrow>
          if pos \<noteq> length v \<or> parsed < 0 \<or> parsed > max_value then failure else Inr parsed)"

definition parse_u32_value :: "string \<Rightarrow> string \<Rightarrow> u32 result" where
  "parse_u32_value v name =
     bind_r (parse_positive_int v name 1000000) (\<lambda>parsed. Inr (word_of_int parsed))"

definition parse_bool :: "string \<Rightarrow> string \<Rightarrow> bool result" where
  "parse_bool v name =
     (let lowered = to_lower (trim v) in
      if lowered = ''1'' \<or> lowered = ''true'' \<or> lowered = ''yes'' \<or> lowered = ''on'' then Inr True
      else if lowered = ''0'' \<or> lowered = ''false'' \<or> lowered = ''no'' \<or> lowered = ''off'' then Inr False
      else Inl (RuntimeError (''Invalid bool for '' @ name @ '': '' @ v)))"

section \<open>The configuration file\<close>

definition apply_key_value :: "app_config \<Rightarrow> string \<Rightarrow> string \<Rightarrow> app_config result" where
  "apply_key_value c key v =
    (if key = ''device'' then Inr (c\<lparr>device := v\<rparr>)
     else if key = ''list_formats'' then bind_r (parse_bool v key) (\<lambda>b. Inr (c\<lparr>list_formats := b\<rparr>))
     else if key = ''width'' then bind_r (parse_u32_value v key) (\<lambda>b. Inr (c\<lparr>width := Some b\<rparr>))
     else if key = ''height'' then bind_r (parse_u32_value v key) (\<lambda>b. Inr (c\<lparr>height := Some b\<rparr>))
     else if key = ''format'' \<or> key = ''pixel_format'' then Inr (c\<lparr>pixel_format := Some v\<rparr>)
     else if key = ''mmap_buffers'' then bind_r (parse_u32_value v key) (\<lambda>b. Inr (c\<lparr>mmap_buffers := Some b\<rparr>))
     else if key = ''capture_one'' then bind_r (parse_bool v key) (\<lambda>b. Inr (c\<lparr>capture_one := b\<rparr>))
     else if key = ''save_one'' then bind_r (parse_bool v key) (\<lambda>b. Inr (c\<lparr>save_one := b\<rparr>))
     else if key = ''capture_frames'' then bind_r (parse_non_negative_int v key 1000000) (\<lambda>b. Inr (c\<lparr>capture_frames := b\<rparr>))
     else if key = ''frames'' \<or> key = ''pipeline_frames'' then bind_r (parse_non_negative_int v key 1000000) (\<lambda>b. Inr (c\<lparr>pipeline_frames := b\<rparr>))
     else if key = ''ring_capacity'' then bind_r (parse_positive_int v key 1000000) (\<lambda>b. Inr (c\<lparr>ring_capacity := b\<rparr>))
     else if key = ''consumer_delay_ms'' then bind_r (parse_non_negative_int v key 1000000) (\<lambda>b. Inr (c\<lparr>consumer_delay_ms := b\<rparr>))
     else if key = ''pipeline_save'' then bind_r (parse_bool v key) (\<lambda>b. Inr (c\<lparr>pipeline_save := b\<rparr>))
     else if key = ''save_limit'' then bind_r (parse_positive_int v key 1000000) (\<lambda>b. Inr (c\<lparr>save_limit := b\<rparr>))
     else if key = ''output_dir'' then Inr (c\<lparr>output_dir := v\<rparr>)
     else if key = ''stats_output'' then Inr (c\<lparr>stats_output := v\<rparr>)
     else if key = ''tcp_host'' then Inr (c\<lparr>tcp_host := (if v = [] then None else Some v)\<rparr>)
     else if key = ''tcp_port'' then bind_r (parse_non_negative_int v key 65535) (\<lambda>b. Inr (c\<lparr>tcp_port := b\<rparr>))
     else if key = ''tcp_queue_capacity'' then bind_r (parse_positive_int v key 1000000) (\<lambda>b. Inr (c\<lparr>tcp_queue_capacity := b\<rparr>))
     else if key = ''tcp_connect_max_attempts'' then bind_r (parse_positive_int v key 1000) (\<lambda>b. Inr (c\<lparr>tcp_connect_max_attempts := b\<rparr>))
     else if key = ''tcp_connect_retry_delay_ms'' then bind_r (parse_non_negative_int v key 60000) (\<lambda>b. Inr (c\<lparr>tcp_connect_retry_delay_ms := b\<rparr>))
     else if key = ''tcp_send_timeout_ms'' then bind_r (parse_positive_int v key 600000) (\<lambda>b. Inr (c\<lparr>tcp_send_timeout_ms := b\<rparr>))
     else if key = ''timeout_ms'' then bind_r (parse_positive_int v key 1000000) (\<lambda>b. Inr (c\<lparr>timeout_ms := b\<rparr>))
     else if key = ''camera_recovery_enabled'' then bind_r (parse_bool v key) (\<lambda>b. Inr (c\<lparr>camera_recovery_enabled := b\<rparr>))
     else if key = ''camera_timeout_recovery_threshold'' then bind_r (parse_positive_int v key 1000) (\<lambda>b. Inr (c\<lparr>camera_timeout_recovery_threshold := b\<rparr>))
     else if key = ''camera_invalid_frame_recovery_threshold'' then bind_r (parse_positive_int v key 1000) (\<lambda>b. Inr (c\<lparr>camera_invalid_frame_recovery_threshold := b\<rparr>))
     else if key = ''camera_invalid_frame_recovery_cooldown_frames'' then bind_r (parse_non_negative_int v key 1000000) (\<lambda>b. Inr (c\<lparr>camera_invalid_frame_recovery_cooldown_frames := b\<rparr>))
     else if key = ''camera_invalid_frame_recovery_max_count'' then bind_r (parse_positive_int v key 1000) (\<lambda>b. Inr (c\<lparr>camera_invalid_frame_recovery_max_count := b\<rparr>))
     else if key = ''camera_recovery_max_attempts'' then bind_r (parse_positive_int v key 1000) (\<lambda>b. Inr (c\<lparr>camera_recovery_max_attempts := b\<rparr>))
     else if key = ''camera_recovery_retry_delay_ms'' then bind_r (parse_non_negative_int v key 600000) (\<lambda>b. Inr (c\<lparr>camera_recovery_retry_delay_ms := b\<rparr>))
     else if key = ''log_level'' then Inr (c\<lparr>log_level := v\<rparr>)
     else Inl (RuntimeError (''Unknown config key: '' @ key)))"

definition config_line_error :: "nat \<Rightarrow> string \<Rightarrow> string \<Rightarrow> exn" where
  "config_line_error line_no path reason =
     RuntimeError (''Invalid config line '' @ to_string line_no @ '' in '' @ path @ reason)"

definition strip_comment :: "string \<Rightarrow> string" where
  "strip_comment line = (case find_char CHR ''#'' line of None \<Rightarrow> line | Some comment_pos \<Rightarrow> take comment_pos line)"

definition load_config_line :: "app_config \<Rightarrow> string \<Rightarrow> nat \<Rightarrow> string \<Rightarrow> app_config result" where
  "load_config_line c path line_no line =
     (let line = trim (strip_comment line)
      in if line = [] then Inr c
         else case find_char CHR ''='' line of
           None \<Rightarrow> Inl (config_line_error line_no path ('': missing '' @ [CHR 0x27, CHR ''='', CHR 0x27]))
         | Some eq_pos \<Rightarrow>
             (let key = trim (take eq_pos line);
                  v = trim (drop (eq_pos + 1) line)
              in if key = [] then Inl (config_line_error line_no path '': empty key'')
                 else case apply_key_value c key v of
                   Inl e \<Rightarrow> Inl (RuntimeError
                     (''Config error at '' @ path @ '':'' @ to_string line_no @ '': '' @ what e))
                 | Inr c \<Rightarrow> Inr c))"

fun load_config_lines :: "app_config \<Rightarrow> string \<Rightarrow> nat \<Rightarrow> string list \<Rightarrow> app_config result" where
  "load_config_lines c path line_no [] = Inr c"
| "load_config_lines c path line_no (line # lines) =
     bind_r (load_config_line c path (line_no + 1) line)
       (\<lambda>c. load_config_lines c path (line_no + 1) lines)"

definition load_config_file_into ::
    "(string \<Rightarrow> string list option) \<Rightarrow> app_config \<Rightarrow> string \<Rightarrow> bool \<Rightarrow> app_config result" where
  "load_config_file_into files c path required =
     (case files path of
        None \<Rightarrow> if required then Inl (RuntimeError (''Config file not found: '' @ path)) else Inr c
      | Some lines \<Rightarrow> load_config_lines c path 0 lines)"

section \<open>The command line\<close>

fun find_config_arg :: "string list \<Rightarrow> string option result" where
  "find_config_arg [] = Inr None"
| "find_config_arg (arg # args) =
     (if arg = ''--config'' then
        (case args of
           [] \<Rightarrow> Inl (RuntimeError ''--config requires a file path'')
         | path # _ \<Rightarrow> Inr (Some path))
      else find_config_arg args)"

text \<open>
  The branches of the argument loop that take no value, and those that consume the next argument. An
  option that needs a value and is the last argument falls through to the final error.
\<close>

definition cli_flag :: "app_config \<Rightarrow> string \<Rightarrow> app_config option" where
  "cli_flag c arg =
    (if arg = ''--list-formats'' then Some (c\<lparr>list_formats := True\<rparr>)
     else if arg = ''--capture-one'' then Some (c\<lparr>capture_one := True\<rparr>)
     else if arg = ''--save-one'' then Some (c\<lparr>save_one := True\<rparr>)
     else if arg = ''--pipeline-save'' then Some (c\<lparr>pipeline_save := True\<rparr>)
     else if arg = ''--camera-recovery'' then Some (c\<lparr>camera_recovery_enabled := True\<rparr>)
     else if arg = ''--no-camera-recovery'' then Some (c\<lparr>camera_recovery_enabled := False\<rparr>)
     else if arg = ''--help'' \<or> arg = ''-h'' then Some c
     else None)"

definition cli_option :: "app_config \<Rightarrow> string \<Rightarrow> string \<Rightarrow> app_config result" where
  "cli_option c arg v =
    (if arg = ''--config'' then Inr (c\<lparr>config_path := v\<rparr>)
     else if arg = ''--device'' \<or> arg = ''-d'' then Inr (c\<lparr>device := v\<rparr>)
     else if arg = ''--width'' then bind_r (parse_u32_value v arg) (\<lambda>b. Inr (c\<lparr>width := Some b\<rparr>))
     else if arg = ''--height'' then bind_r (parse_u32_value v arg) (\<lambda>b. Inr (c\<lparr>height := Some b\<rparr>))
     else if arg = ''--format'' then Inr (c\<lparr>pixel_format := Some v\<rparr>)
     else if arg = ''--mmap-buffers'' then bind_r (parse_u32_value v arg) (\<lambda>b. Inr (c\<lparr>mmap_buffers := Some b\<rparr>))
     else if arg = ''--frames'' \<or> arg = ''--capture-frames'' then bind_r (parse_positive_int v arg 1000000) (\<lambda>b. Inr (c\<lparr>capture_frames := b\<rparr>))
     else if arg = ''--pipeline-frames'' then bind_r (parse_positive_int v arg 1000000) (\<lambda>b. Inr (c\<lparr>pipeline_frames := b\<rparr>))
     else if arg = ''--ring-capacity'' then bind_r (parse_positive_int v arg 1000000) (\<lambda>b. Inr (c\<lparr>ring_capacity := b\<rparr>))
     else if arg = ''--consumer-delay-ms'' then bind_r (parse_non_negative_int v arg 1000000) (\<lambda>b. Inr (c\<lparr>consumer_delay_ms := b\<rparr>))
     else if arg = ''--save-limit'' then bind_r (parse_positive_int v arg 1000000) (\<lambda>b. Inr (c\<lparr>save_limit := b\<rparr>))
     else if arg = ''--output'' then Inr (c\<lparr>output_dir := v\<rparr>)
     else if arg = ''--stats-output'' then Inr (c\<lparr>stats_output := v\<rparr>)
     else if arg = ''--tcp-host'' then Inr (c\<lparr>tcp_host := Some v\<rparr>)
     else if arg = ''--tcp-port'' then bind_r (parse_positive_int v arg 65535) (\<lambda>b. Inr (c\<lparr>tcp_port := b\<rparr>))
     else if arg = ''--tcp-queue-capacity'' then bind_r (parse_positive_int v arg 1000000) (\<lambda>b. Inr (c\<lparr>tcp_queue_capacity := b\<rparr>))
     else if arg = ''--tcp-connect-max-attempts'' then bind_r (parse_positive_int v arg 1000) (\<lambda>b. Inr (c\<lparr>tcp_connect_max_attempts := b\<rparr>))
     else if arg = ''--tcp-connect-retry-delay-ms'' then bind_r (parse_non_negative_int v arg 60000) (\<lambda>b. Inr (c\<lparr>tcp_connect_retry_delay_ms := b\<rparr>))
     else if arg = ''--tcp-send-timeout-ms'' then bind_r (parse_positive_int v arg 600000) (\<lambda>b. Inr (c\<lparr>tcp_send_timeout_ms := b\<rparr>))
     else if arg = ''--timeout-ms'' then bind_r (parse_positive_int v arg 1000000) (\<lambda>b. Inr (c\<lparr>timeout_ms := b\<rparr>))
     else if arg = ''--camera-timeout-recovery-threshold'' then bind_r (parse_positive_int v arg 1000) (\<lambda>b. Inr (c\<lparr>camera_timeout_recovery_threshold := b\<rparr>))
     else if arg = ''--camera-invalid-frame-recovery-threshold'' then bind_r (parse_positive_int v arg 1000) (\<lambda>b. Inr (c\<lparr>camera_invalid_frame_recovery_threshold := b\<rparr>))
     else if arg = ''--camera-invalid-frame-recovery-cooldown-frames'' then bind_r (parse_non_negative_int v arg 1000000) (\<lambda>b. Inr (c\<lparr>camera_invalid_frame_recovery_cooldown_frames := b\<rparr>))
     else if arg = ''--camera-invalid-frame-recovery-max-count'' then bind_r (parse_positive_int v arg 1000) (\<lambda>b. Inr (c\<lparr>camera_invalid_frame_recovery_max_count := b\<rparr>))
     else if arg = ''--camera-recovery-max-attempts'' then bind_r (parse_positive_int v arg 1000) (\<lambda>b. Inr (c\<lparr>camera_recovery_max_attempts := b\<rparr>))
     else if arg = ''--camera-recovery-retry-delay-ms'' then bind_r (parse_non_negative_int v arg 600000) (\<lambda>b. Inr (c\<lparr>camera_recovery_retry_delay_ms := b\<rparr>))
     else if arg = ''--log-level'' then Inr (c\<lparr>log_level := v\<rparr>)
     else Inl (RuntimeError (''Unknown or incomplete argument: '' @ arg)))"

fun apply_cli_args :: "app_config \<Rightarrow> string list \<Rightarrow> app_config result" where
  "apply_cli_args c [] = Inr c"
| "apply_cli_args c (arg # args) =
     (case cli_flag c arg of
        Some c \<Rightarrow> apply_cli_args c args
      | None \<Rightarrow>
          (case args of
             [] \<Rightarrow> Inl (RuntimeError (''Unknown or incomplete argument: '' @ arg))
           | v # rest \<Rightarrow> bind_r (cli_option c arg v) (\<lambda>c. apply_cli_args c rest)))"

section \<open>Validation and loading\<close>

definition wants_set_format :: "app_config \<Rightarrow> bool" where
  "wants_set_format c = (width c \<noteq> None \<or> height c \<noteq> None \<or> pixel_format c \<noteq> None)"

definition capture_mode_count :: "app_config \<Rightarrow> nat" where
  "capture_mode_count c =
     (if capture_one c then 1 else 0) + (if save_one c then 1 else 0) +
     (if capture_frames c > 0 then 1 else 0) + (if pipeline_frames c > 0 then 1 else 0)"

definition tcp_enabled :: "app_config \<Rightarrow> bool" where
  "tcp_enabled c = (tcp_host c \<noteq> None \<or> tcp_port c > 0)"

definition validate_app_config :: "app_config \<Rightarrow> unit result" where
  "validate_app_config c =
    throw_if (wants_set_format c \<and> \<not> (width c \<noteq> None \<and> height c \<noteq> None \<and> pixel_format c \<noteq> None))
      (RuntimeError ''Setting format requires width, height and format together'')
    (throw_if (mmap_buffers c \<noteq> None \<and> \<not> wants_set_format c)
      (RuntimeError ''Initializing MMAP buffers requires setting format first'')
    (throw_if (capture_mode_count c > 1)
      (RuntimeError ''Use only one capture mode: capture_one, save_one, capture_frames, or pipeline_frames'')
    (throw_if (tcp_enabled c \<and> \<not> (tcp_host c \<noteq> None \<and> tcp_port c > 0))
      (RuntimeError ''TCP sending requires tcp_host and tcp_port together'')
    (throw_if (tcp_enabled c \<and> pipeline_frames c \<le> 0)
      (RuntimeError ''TCP sending is currently supported only with pipeline_frames'')
    (throw_if (capture_mode_count c > 0 \<and> mmap_buffers c = None)
      (RuntimeError ''Capturing frames requires mmap_buffers'')
    (throw_if (device c = []) (RuntimeError ''device must not be empty'')
    (throw_if (output_dir c = []) (RuntimeError ''output_dir must not be empty'')
    (throw_if (stats_output c = []) (RuntimeError ''stats_output must not be empty'')
    (throw_if (tcp_port c < 0 \<or> tcp_port c > 65535) (RuntimeError ''tcp_port must be between 0 and 65535'')
    (throw_if (ring_capacity c \<le> 0 \<or> tcp_queue_capacity c \<le> 0)
      (RuntimeError ''ring capacities must be positive'')
    (throw_if (tcp_connect_max_attempts c \<le> 0) (RuntimeError ''tcp_connect_max_attempts must be positive'')
    (throw_if (tcp_connect_retry_delay_ms c < 0)
      (RuntimeError ''tcp_connect_retry_delay_ms must be non-negative'')
    (throw_if (tcp_send_timeout_ms c \<le> 0) (RuntimeError ''tcp_send_timeout_ms must be positive'')
    (throw_if (camera_timeout_recovery_threshold c \<le> 0)
      (RuntimeError ''camera_timeout_recovery_threshold must be positive'')
    (throw_if (camera_invalid_frame_recovery_threshold c \<le> 0)
      (RuntimeError ''camera_invalid_frame_recovery_threshold must be positive'')
    (throw_if (camera_invalid_frame_recovery_cooldown_frames c < 0)
      (RuntimeError ''camera_invalid_frame_recovery_cooldown_frames must be non-negative'')
    (throw_if (camera_invalid_frame_recovery_max_count c \<le> 0)
      (RuntimeError ''camera_invalid_frame_recovery_max_count must be positive'')
    (throw_if (camera_recovery_max_attempts c \<le> 0)
      (RuntimeError ''camera_recovery_max_attempts must be positive'')
    (throw_if (camera_recovery_retry_delay_ms c < 0)
      (RuntimeError ''camera_recovery_retry_delay_ms must be non-negative'')
    (throw_if (log_level c \<notin> {''DEBUG'', ''INFO'', ''WARN'', ''ERROR''})
      (RuntimeError ''log_level must be one of DEBUG, INFO, WARN, ERROR'')
    (Inr ())))))))))))))))))))))"

definition load_app_config :: "(string \<Rightarrow> string list option) \<Rightarrow> string list \<Rightarrow> app_config result" where
  "load_app_config files args =
     bind_r (find_config_arg args) (\<lambda>explicit_config_path.
     bind_r (case explicit_config_path of
               Some path \<Rightarrow> load_config_file_into files (AppConfig\<lparr>config_path := path\<rparr>) path True
             | None \<Rightarrow> load_config_file_into files AppConfig (config_path AppConfig) False) (\<lambda>c.
     bind_r (apply_cli_args c args) (\<lambda>c.
     bind_r (validate_app_config c) (\<lambda>_. Inr c))))"

section \<open>Ranges\<close>

text \<open>The ranges the parsers enforce; every value fits the C++ type it is stored in.\<close>

definition config_ranges :: "app_config \<Rightarrow> bool" where
  "config_ranges c \<longleftrightarrow>
     capture_frames c \<in> {0..1000000} \<and> pipeline_frames c \<in> {0..1000000} \<and>
     ring_capacity c \<in> {1..1000000} \<and> consumer_delay_ms c \<in> {0..1000000} \<and>
     save_limit c \<in> {1..1000000} \<and> timeout_ms c \<in> {1..1000000} \<and>
     camera_timeout_recovery_threshold c \<in> {1..1000} \<and> camera_invalid_frame_recovery_threshold c \<in> {1..1000} \<and>
     camera_invalid_frame_recovery_cooldown_frames c \<in> {0..1000000} \<and>
     camera_invalid_frame_recovery_max_count c \<in> {1..1000} \<and> camera_recovery_max_attempts c \<in> {1..1000} \<and>
     camera_recovery_retry_delay_ms c \<in> {0..600000} \<and> tcp_port c \<in> {0..65535} \<and>
     tcp_queue_capacity c \<in> {1..1000000} \<and> tcp_connect_max_attempts c \<in> {1..1000} \<and>
     tcp_connect_retry_delay_ms c \<in> {0..60000} \<and> tcp_send_timeout_ms c \<in> {1..600000} \<and>
     (\<forall>w \<in> set_option (width c). unat w \<in> {1..1000000}) \<and>
     (\<forall>h \<in> set_option (height c). unat h \<in> {1..1000000}) \<and>
     (\<forall>n \<in> set_option (mmap_buffers c). unat n \<in> {1..1000000})"

lemma parse_positive_int_range: "parse_positive_int v name m = Inr n \<Longrightarrow> n \<in> {1..m}"
  by (auto simp: parse_positive_int_def Let_def split: sum.splits if_splits)

lemma parse_non_negative_int_range: "parse_non_negative_int v name m = Inr n \<Longrightarrow> n \<in> {0..m}"
  by (auto simp: parse_non_negative_int_def Let_def split: sum.splits if_splits)

lemma parse_u32_value_range:
  assumes "parse_u32_value v name = Inr w"
  shows "unat w \<in> {1..1000000}"
proof -
  from assms obtain n where n: "parse_positive_int v name 1000000 = Inr n" "w = word_of_int n"
    by (auto simp: parse_u32_value_def)
  have r: "1 \<le> n" "n \<le> 1000000" using parse_positive_int_range [OF n(1)] by auto
  then have "uint w = n" unfolding n(2) by (simp add: unsigned_of_int take_bit_int_eq_self)
  then have "unat w = nat n" by (simp add: unat_eq_nat_uint)
  with r show ?thesis by auto
qed

lemma parse_positive_int_to_string:
  "0 < n \<Longrightarrow> int n \<le> m \<Longrightarrow> m < 2 ^ 63 \<Longrightarrow> parse_positive_int (to_string n) name m = Inr (int n)"
  by (simp add: parse_positive_int_def stol_to_string)

lemma if_InrE: "(if b then x else y) = Inr z \<Longrightarrow> (x = Inr z \<Longrightarrow> P) \<Longrightarrow> (y = Inr z \<Longrightarrow> P) \<Longrightarrow> P"
  by (auto split: if_splits)

lemma bind_InrE: "bind_r r (\<lambda>b. Inr (f b)) = Inr z \<Longrightarrow> (\<And>b. r = Inr b \<Longrightarrow> z = f b \<Longrightarrow> P) \<Longrightarrow> P"
  by (cases r) auto

lemmas parse_ranges = parse_positive_int_range parse_non_negative_int_range parse_u32_value_range

lemma AppConfig_ranges: "config_ranges AppConfig"
  by (simp add: AppConfig_def config_ranges_def)

lemma config_ranges_int:
  assumes "config_ranges c"
  shows "n \<in> {0..1000000} \<Longrightarrow> config_ranges (c\<lparr>capture_frames := n\<rparr>)"
    and "n \<in> {0..1000000} \<Longrightarrow> config_ranges (c\<lparr>pipeline_frames := n\<rparr>)"
    and "n \<in> {1..1000000} \<Longrightarrow> config_ranges (c\<lparr>ring_capacity := n\<rparr>)"
    and "n \<in> {0..1000000} \<Longrightarrow> config_ranges (c\<lparr>consumer_delay_ms := n\<rparr>)"
    and "n \<in> {1..1000000} \<Longrightarrow> config_ranges (c\<lparr>save_limit := n\<rparr>)"
    and "n \<in> {1..1000000} \<Longrightarrow> config_ranges (c\<lparr>timeout_ms := n\<rparr>)"
    and "n \<in> {1..1000} \<Longrightarrow> config_ranges (c\<lparr>camera_timeout_recovery_threshold := n\<rparr>)"
    and "n \<in> {1..1000} \<Longrightarrow> config_ranges (c\<lparr>camera_invalid_frame_recovery_threshold := n\<rparr>)"
    and "n \<in> {0..1000000} \<Longrightarrow> config_ranges (c\<lparr>camera_invalid_frame_recovery_cooldown_frames := n\<rparr>)"
    and "n \<in> {1..1000} \<Longrightarrow> config_ranges (c\<lparr>camera_invalid_frame_recovery_max_count := n\<rparr>)"
    and "n \<in> {1..1000} \<Longrightarrow> config_ranges (c\<lparr>camera_recovery_max_attempts := n\<rparr>)"
    and "n \<in> {0..600000} \<Longrightarrow> config_ranges (c\<lparr>camera_recovery_retry_delay_ms := n\<rparr>)"
    and "n \<in> {0..65535} \<Longrightarrow> config_ranges (c\<lparr>tcp_port := n\<rparr>)"
    and "n \<in> {1..1000000} \<Longrightarrow> config_ranges (c\<lparr>tcp_queue_capacity := n\<rparr>)"
    and "n \<in> {1..1000} \<Longrightarrow> config_ranges (c\<lparr>tcp_connect_max_attempts := n\<rparr>)"
    and "n \<in> {0..60000} \<Longrightarrow> config_ranges (c\<lparr>tcp_connect_retry_delay_ms := n\<rparr>)"
    and "n \<in> {1..600000} \<Longrightarrow> config_ranges (c\<lparr>tcp_send_timeout_ms := n\<rparr>)"
  using assms by (simp_all add: config_ranges_def)

lemma config_ranges_u32:
  assumes "config_ranges c" and "unat w \<in> {1..1000000}"
  shows "config_ranges (c\<lparr>width := Some w\<rparr>)"
    and "config_ranges (c\<lparr>height := Some w\<rparr>)"
    and "config_ranges (c\<lparr>mmap_buffers := Some w\<rparr>)"
  using assms by (simp_all add: config_ranges_def)

lemma config_ranges_other:
  assumes "config_ranges c"
  shows "config_ranges (c\<lparr>config_path := s\<rparr>)"
    and "config_ranges (c\<lparr>device := s\<rparr>)"
    and "config_ranges (c\<lparr>list_formats := b\<rparr>)"
    and "config_ranges (c\<lparr>capture_one := b\<rparr>)"
    and "config_ranges (c\<lparr>save_one := b\<rparr>)"
    and "config_ranges (c\<lparr>pipeline_save := b\<rparr>)"
    and "config_ranges (c\<lparr>camera_recovery_enabled := b\<rparr>)"
    and "config_ranges (c\<lparr>output_dir := s\<rparr>)"
    and "config_ranges (c\<lparr>stats_output := s\<rparr>)"
    and "config_ranges (c\<lparr>tcp_host := t\<rparr>)"
    and "config_ranges (c\<lparr>pixel_format := t\<rparr>)"
    and "config_ranges (c\<lparr>log_level := s\<rparr>)"
  using assms by (simp_all add: config_ranges_def)

text \<open>The command line writes positive frame counts and a positive port, inside the same ranges.\<close>

lemma positive_non_negative: "parse_positive_int v name m = Inr n \<Longrightarrow> n \<in> {0..m}"
  using parse_positive_int_range by fastforce

lemmas config_ranges_update = config_ranges_int config_ranges_u32 config_ranges_other

lemma apply_key_value_ranges:
  "apply_key_value c key v = Inr c' \<Longrightarrow> config_ranges c \<Longrightarrow> config_ranges c'"
  unfolding apply_key_value_def
  by (elim if_InrE bind_InrE; (simp only: sum.inject sum.distinct)?;
      blast intro: config_ranges_update parse_ranges)

lemma cli_option_ranges:
  "cli_option c arg v = Inr c' \<Longrightarrow> config_ranges c \<Longrightarrow> config_ranges c'"
  unfolding cli_option_def
  by (elim if_InrE bind_InrE; (simp only: sum.inject sum.distinct)?;
      blast intro: config_ranges_update parse_ranges positive_non_negative)

lemma cli_flag_ranges: "cli_flag c arg = Some c' \<Longrightarrow> config_ranges c \<Longrightarrow> config_ranges c'"
  by (auto simp: cli_flag_def config_ranges_other split: if_splits)

lemma load_config_line_ranges:
  "load_config_line c path n line = Inr c' \<Longrightarrow> config_ranges c \<Longrightarrow> config_ranges c'"
  by (auto simp: load_config_line_def Let_def dest: apply_key_value_ranges split: if_splits option.splits sum.splits)

lemma load_config_lines_ranges:
  "load_config_lines c path n ls = Inr c' \<Longrightarrow> config_ranges c \<Longrightarrow> config_ranges c'"
  by (induction c path n ls rule: load_config_lines.induct) (auto dest: load_config_line_ranges)

lemma apply_cli_args_ranges:
  "apply_cli_args c args = Inr c' \<Longrightarrow> config_ranges c \<Longrightarrow> config_ranges c'"
proof (induction c args rule: apply_cli_args.induct)
  case (2 c arg args)
  show ?case
  proof (cases "cli_flag c arg")
    case (Some c1)
    with 2 cli_flag_ranges [OF Some] show ?thesis by simp
  next
    case None
    with 2(3) obtain v rest c1 where "args = v # rest" "cli_option c arg v = Inr c1" "apply_cli_args c1 rest = Inr c'"
      by (cases args) auto
    with 2(1) [OF None] 2(4) cli_option_ranges show ?thesis by blast
  qed
qed simp

lemma load_app_config_cases:
  assumes "load_app_config files args = Inr c"
  obtains c0 where "config_ranges c0" and "apply_cli_args c0 args = Inr c" and "validate_app_config c = Inr ()"
proof -
  from assms obtain e c0 where e: "find_config_arg args = Inr e" and
    c0: "(case e of Some path \<Rightarrow> load_config_file_into files (AppConfig\<lparr>config_path := path\<rparr>) path True
      | None \<Rightarrow> load_config_file_into files AppConfig (config_path AppConfig) False) = Inr c0" and
    c: "apply_cli_args c0 args = Inr c" "validate_app_config c = Inr ()"
    by (auto simp: load_app_config_def)
  have "config_ranges c0"
    using c0 load_config_lines_ranges config_ranges_other(1) [OF AppConfig_ranges] AppConfig_ranges
    by (auto simp: load_config_file_into_def split: option.splits if_splits)
  with c that show thesis by blast
qed

section \<open>Lines\<close>

lemma trim_spaces_left: "\<forall>x \<in> set ws. isspace x \<Longrightarrow> trim (ws @ s) = trim s"
  by (simp add: trim_def dropWhile_append2)

lemma trim_ends:
  assumes "s \<noteq> []" and "\<not> isspace (hd s)" and "\<not> isspace (last s)" and "\<forall>x \<in> set ws. isspace x"
  shows "trim (s @ ws) = s"
proof -
  have "dropWhile isspace (s @ ws) = s @ ws" using assms(1,2) by (cases s) auto
  moreover have "dropWhile isspace (rev s) = rev s" using assms(1,3) by (cases s rule: rev_cases) auto
  ultimately show ?thesis using assms(4) dropWhile_append2 [of "rev ws" isspace "rev s"] by (simp add: trim_def)
qed

lemma trim_fixed: "trim v = v \<Longrightarrow> v \<noteq> [] \<Longrightarrow> \<not> isspace (hd v) \<and> \<not> isspace (last v)"
proof -
  assume v: "trim v = v" and ne: "v \<noteq> []"
  let ?d = "dropWhile isspace v"
  have len: "length (dropWhile isspace (rev ?d)) = length v" using v by (simp add: trim_def) (metis length_rev)
  have le: "length (dropWhile isspace (rev ?d)) \<le> length ?d" "length ?d \<le> length v"
    by (metis length_dropWhile_le length_rev) (rule length_dropWhile_le)
  have "?d = v" using len le by (metis dropWhile_append1 dual_order.antisym length_append
        le_add_same_cancel1 append_self_conv2 length_0_conv takeWhile_dropWhile_id add_eq_self_zero add.commute)
  moreover have "\<not> isspace (hd ?d)" using ne calculation by (metis hd_dropWhile)
  moreover have "dropWhile isspace (rev v) = rev v" using v calculation(1) by (metis rev_swap trim_def)
  then have "\<not> isspace (hd (rev v))" using ne by (metis hd_dropWhile rev_is_Nil_conv)
  ultimately show ?thesis using ne by (simp add: hd_rev)
qed

lemma find_char_first: "c \<notin> set pre \<Longrightarrow> find_char c (pre @ c # post) = Some (length pre)"
  by (subst find_char_def, subst takeWhile_append2) auto

lemma find_char_None: "c \<notin> set s \<Longrightarrow> find_char c s = None"
  by (simp add: find_char_def)

lemma load_config_line_parts:
  assumes "trim (strip_comment line) = l" and "l \<noteq> []" and "find_char CHR ''='' l = Some k"
    and "trim (take k l) = key" and "key \<noteq> []" and "trim (drop (k + 1) l) = v"
  shows "load_config_line c path n line = (case apply_key_value c key v of
       Inl e \<Rightarrow> Inl (RuntimeError (''Config error at '' @ path @ '':'' @ to_string n @ '': '' @ what e))
     | Inr c' \<Rightarrow> Inr c')"
  using assms by (simp only: load_config_line_def Let_def) simp

lemma apply_cli_args_append:
  "apply_cli_args c xs = Inr c1 \<Longrightarrow> apply_cli_args c (xs @ ys) = apply_cli_args c1 ys"
proof (induction c xs rule: apply_cli_args.induct)
  case (2 c arg args)
  show ?case
  proof (cases "cli_flag c arg")
    case (Some c2)
    with 2 show ?thesis by simp
  next
    case None
    with 2(3) obtain v rest c2 where "args = v # rest" "cli_option c arg v = Inr c2" "apply_cli_args c2 rest = Inr c1"
      by (cases args) auto
    with 2(1) [OF None] None show ?thesis by simp
  qed
qed simp

lemma cli_flag_None: "cli_flag c arg = None \<longleftrightarrow> cli_flag c' arg = None"
  by (auto simp: cli_flag_def)

section \<open>Properties\<close>

text \<open>
  C24: a configuration that loads is safe to run. Whatever the file and the arguments contain, every
  number of a loaded configuration is inside its documented range, at most one capture mode is
  selected, a capture mode has the format and buffer settings it needs, and TCP is configured either
  completely (with a capture pipeline to feed it) or not at all.
\<close>

theorem load_app_config_valid:
  assumes "load_app_config files args = Inr c"
  shows "config_ranges c \<and> capture_mode_count c \<le> 1 \<and>
    (capture_mode_count c = 1 \<longrightarrow>
       width c \<noteq> None \<and> height c \<noteq> None \<and> pixel_format c \<noteq> None \<and> mmap_buffers c \<noteq> None) \<and>
    (tcp_enabled c \<longrightarrow> tcp_host c \<noteq> None \<and> 0 < tcp_port c \<and> 0 < pipeline_frames c) \<and>
    device c \<noteq> [] \<and> output_dir c \<noteq> [] \<and> stats_output c \<noteq> [] \<and>
    log_level c \<in> {''DEBUG'', ''INFO'', ''WARN'', ''ERROR''}"
proof -
  from assms obtain c0 where "config_ranges c0" "apply_cli_args c0 args = Inr c" and v: "validate_app_config c = Inr ()"
    by (rule load_app_config_cases)
  then have "config_ranges c" using apply_cli_args_ranges by blast
  moreover from v have f: "\<not> (wants_set_format c \<and> \<not> (width c \<noteq> None \<and> height c \<noteq> None \<and> pixel_format c \<noteq> None))"
    "\<not> (mmap_buffers c \<noteq> None \<and> \<not> wants_set_format c)" "\<not> capture_mode_count c > 1"
    "\<not> (tcp_enabled c \<and> \<not> (tcp_host c \<noteq> None \<and> tcp_port c > 0))" "\<not> (tcp_enabled c \<and> pipeline_frames c \<le> 0)"
    "\<not> (capture_mode_count c > 0 \<and> mmap_buffers c = None)" "device c \<noteq> []" "output_dir c \<noteq> []" "stats_output c \<noteq> []"
    "\<not> log_level c \<notin> {''DEBUG'', ''INFO'', ''WARN'', ''ERROR''}"
    by (simp_all only: validate_app_config_def throw_if_eq_Inr not_True_eq_False simp_thms)
  moreover from f(1,2,6) have "capture_mode_count c = 1 \<longrightarrow>
       width c \<noteq> None \<and> height c \<noteq> None \<and> pixel_format c \<noteq> None \<and> mmap_buffers c \<noteq> None" by linarith
  ultimately show ?thesis by (meson not_le)
qed

theorem load_app_config_valid_witness:
  "load_app_config (\<lambda>path. Some [''ring_capacity = 4  # frames'']) [''--device'', ''/dev/video0''] =
     Inr (AppConfig\<lparr>ring_capacity := 4, device := ''/dev/video0''\<rparr>) \<and>
   config_ranges (AppConfig\<lparr>ring_capacity := 4, device := ''/dev/video0''\<rparr>)"
proof -
  have r: "parse_positive_int ''4'' ''ring_capacity'' 1000000 = Inr 4"
    by (simp add: parse_positive_int_def stol_def scan_int_def scan_sign_def isspace_def isdigit_def digits_value_def)
  have t: "trim (strip_comment ''ring_capacity = 4  # frames'') = ''ring_capacity = 4''"
    by (simp add: strip_comment_def find_char_def trim_def isspace_def)
  have l: "load_config_line c p n ''ring_capacity = 4  # frames'' = Inr (c\<lparr>ring_capacity := 4\<rparr>)" for c p n
    by (simp add: load_config_line_parts [OF t, of 14 "''ring_capacity''" "''4''"] find_char_def trim_def isspace_def
        apply_key_value_def r)
  have e: "load_app_config (\<lambda>path. Some [''ring_capacity = 4  # frames'']) [''--device'', ''/dev/video0''] =
     Inr (AppConfig\<lparr>ring_capacity := 4, device := ''/dev/video0''\<rparr>)"
    by (simp add: load_app_config_def load_config_file_into_def l cli_flag_def cli_option_def)
      (simp add: AppConfig_def validate_app_config_def wants_set_format_def capture_mode_count_def tcp_enabled_def)
  from load_app_config_valid [OF e] e show ?thesis by blast
qed

text \<open>
  The line format of the configuration file. A line consisting of a key, an equals sign and a value,
  with any white space around each of them and an optional comment, has exactly the effect of setting
  the key to the value; an error is reported with the path and the line number.
\<close>

theorem config_line_format:
  assumes "key \<noteq> []" and "\<forall>x \<in> set key. \<not> isspace x \<and> x \<noteq> CHR ''='' \<and> x \<noteq> CHR ''#''"
    and "trim v = v" and "CHR ''#'' \<notin> set v"
    and "\<forall>x \<in> set ws1 \<union> set ws2 \<union> set ws3 \<union> set ws4. isspace x"
    and "comment = [] \<or> hd comment = CHR ''#''"
  shows "load_config_line c path n (ws1 @ key @ ws2 @ ''='' @ ws3 @ v @ ws4 @ comment) =
    (case apply_key_value c key v of
       Inl e \<Rightarrow> Inl (RuntimeError (''Config error at '' @ path @ '':'' @ to_string n @ '': '' @ what e))
     | Inr c' \<Rightarrow> Inr c')"
proof -
  let ?body = "ws1 @ key @ ws2 @ ''='' @ ws3 @ v @ ws4"
  have sp: "\<not> isspace CHR ''#''" "\<not> isspace CHR ''=''" by (simp_all add: isspace_def)
  have "CHR ''#'' \<notin> set ?body" using assms(2,4,5) sp by auto
  then have body: "strip_comment (?body @ comment) = ?body"
    using assms(6) find_char_first [of "CHR ''#''" ?body "tl comment"] find_char_None [of "CHR ''#''" ?body]
    by (cases comment) (auto simp: strip_comment_def)
  define mid where "mid = (if v = [] then [] else ws3 @ v)"
  have trimmed: "trim ?body = key @ ws2 @ ''='' @ mid"
  proof -
    let ?s = "key @ ws2 @ ''='' @ mid" and ?w = "if v = [] then ws3 @ ws4 else ws4"
    have "?body = ws1 @ ?s @ ?w" by (simp add: mid_def)
    moreover have "\<not> isspace (hd ?s)" using assms(1,2) by simp
    moreover have "\<not> isspace (last ?s)" using trim_fixed [OF assms(3)] sp by (auto simp: mid_def)
    ultimately show ?thesis using trim_spaces_left [of ws1 "?s @ ?w"] trim_ends [of ?s ?w] assms(5) by auto
  qed
  have eq: "find_char CHR ''='' (key @ ws2 @ ''='' @ mid) = Some (length (key @ ws2))"
    using find_char_first [of "CHR ''=''" "key @ ws2" mid] assms(2,5) sp by auto
  have kv: "trim (take (length (key @ ws2)) (key @ ws2 @ ''='' @ mid)) = key"
    using trim_ends [of key ws2] assms(1,2,5) by auto
  have vv: "trim (drop (length (key @ ws2) + 1) (key @ ws2 @ ''='' @ mid)) = v"
    using trim_spaces_left [of ws3 v] assms(3,5) by (auto simp: mid_def trim_def)
  have "strip_comment (ws1 @ key @ ws2 @ ''='' @ ws3 @ v @ ws4 @ comment) = ?body" using body by simp
  with trimmed show ?thesis
    by (intro load_config_line_parts [OF _ _ eq kv assms(1) vv]) (simp_all only: append_is_Nil_conv, simp)
qed

theorem config_line_format_witness:
  "load_config_line AppConfig ''app.conf'' 3 ('' '' @ ''log_level'' @ '' '' @ ''='' @ '' '' @ ''WARN'' @ '' '' @ ''# noise'') =
     Inr (AppConfig\<lparr>log_level := ''WARN''\<rparr>)"
  by (subst config_line_format) (simp_all add: isspace_def trim_def apply_key_value_def)

text \<open>
  The command line is processed from left to right and the last word wins: after any accepted
  arguments, a further option with a value acts on the configuration reached so far, and it alone
  decides the outcome, so a later occurrence overrides an earlier one and the configuration file.
\<close>

theorem cli_last_option_wins:
  assumes "apply_cli_args c xs = Inr c1" and "cli_flag AppConfig option_name = None"
  shows "apply_cli_args c (xs @ [option_name, v]) = cli_option c1 option_name v"
proof -
  have "cli_flag c1 option_name = None" using assms(2) cli_flag_None by blast
  with apply_cli_args_append [OF assms(1), of "[option_name, v]"] show ?thesis
    by (cases "cli_option c1 option_name v") simp_all
qed

theorem cli_last_option_wins_witness:
  "apply_cli_args AppConfig ([''--output'', ''a''] @ [''--output'', ''b'']) = Inr (AppConfig\<lparr>output_dir := ''b''\<rparr>)"
  using cli_last_option_wins [of AppConfig "[''--output'', ''a'']" "AppConfig\<lparr>output_dir := ''a''\<rparr>" "''--output''" "''b''"]
  by (simp add: cli_flag_def cli_option_def)

text \<open>
  The word \<open>frames\<close> means two different things: in the configuration file it sets the number of
  frames of the pipeline, on the command line the number of frames of the single-threaded capture loop.
\<close>

theorem frames_key_and_option_differ:
  assumes "0 < n" and "n \<le> 1000000"
  shows "apply_key_value c ''frames'' (to_string n) = Inr (c\<lparr>pipeline_frames := int n\<rparr>) \<and>
    apply_cli_args c [''--frames'', to_string n] = Inr (c\<lparr>capture_frames := int n\<rparr>)"
proof -
  have "stol (to_string n) = Inr (int n, length (to_string n))" using assms by (intro stol_to_string) simp
  then have "parse_non_negative_int (to_string n) name 1000000 = Inr (int n)"
    "parse_positive_int (to_string n) name 1000000 = Inr (int n)" for name
    using assms by (simp_all add: parse_non_negative_int_def parse_positive_int_def)
  then show ?thesis by (simp add: apply_key_value_def cli_flag_def cli_option_def)
qed

theorem frames_key_and_option_differ_witness:
  "apply_key_value AppConfig ''frames'' (to_string 5) = Inr (AppConfig\<lparr>pipeline_frames := 5\<rparr>) \<and>
   apply_cli_args AppConfig [''--frames'', to_string 5] = Inr (AppConfig\<lparr>capture_frames := 5\<rparr>)"
  using frames_key_and_option_differ [of 5 AppConfig] by simp

end
