(* ===== verification/Frame_Io.thy ===== *)
theory Frame_Io
  imports Frame_Protocol Tcp_Send Latency_Stats Yuyv App_Config
begin

unbundle bit_operations_syntax

text \<open>
  The captured frame of \<open>include/frame.hpp\<close> and the helpers of \<open>src/main.cpp\<close> around the pipeline:
  connecting to the receiver with retries, sending one frame, the usability checks, saving a frame,
  camera initialisation and the interruptible sleep. File system, sockets and the camera are arguments
  that give the outcome of each call.
\<close>

record frame =
  frm_data :: bytes
  frm_width :: u32
  frm_height :: u32
  frm_pixel_format :: u32
  frm_bytesused :: u32
  frm_sequence :: u32
  frm_buffer_index :: u32
  frm_v4l2_flags :: u32
  frm_v4l2_timestamp :: "int \<times> int"
  frm_capture_timestamp_ns :: u64
  frm_host_receive_time :: int

definition empty_frame :: frame where
  "empty_frame = \<lparr>frm_data = [], frm_width = 0, frm_height = 0, frm_pixel_format = 0, frm_bytesused = 0,
     frm_sequence = 0, frm_buffer_index = 0, frm_v4l2_flags = 0, frm_v4l2_timestamp = (0, 0),
     frm_capture_timestamp_ns = 0, frm_host_receive_time = 0\<rparr>"

text \<open>A moved-from frame: the vector is empty, the scalar members keep their values.\<close>

definition moved_frame :: "frame \<Rightarrow> frame" where
  "moved_frame f = f\<lparr>frm_data := []\<rparr>"

definition V4L2_BUF_FLAG_ERROR :: u32 where "V4L2_BUF_FLAG_ERROR = 0x40"

definition elapsed_microseconds :: "int \<Rightarrow> int \<Rightarrow> cpp_double" where
  "elapsed_microseconds start_ns end_ns = Finite (real_of_int (end_ns - start_ns) / 1000)"

section \<open>Connecting\<close>

record connect_env =
  socket_ret :: int
  socket_errno :: errno
  inet_pton_ret :: int
  connect_ret :: int
  connect_errno :: errno

text \<open>\<open>connect_errno\<close> is the value \<open>errno\<close> has after the socket was closed, where the source reads it.\<close>

definition connect_to_tcp_receiver :: "(errno \<Rightarrow> string) \<Rightarrow> string \<Rightarrow> connect_env \<Rightarrow> int result" where
  "connect_to_tcp_receiver strerror host e =
     throw_if (socket_ret e < 0) (RuntimeError (''socket failed: '' @ strerror (socket_errno e)))
     (throw_if (inet_pton_ret e \<noteq> 1) (RuntimeError (''Invalid IPv4 address for --tcp-host: '' @ host))
     (throw_if (connect_ret e < 0) (RuntimeError (''connect failed: '' @ strerror (connect_errno e)))
     (Inr (socket_ret e))))"

record connect_counters =
  cc_attempts :: nat
  cc_retries :: nat

text \<open>One element of the script per attempt; \<open>None\<close> is an attempt that has not returned.\<close>

fun connect_attempts ::
    "(errno \<Rightarrow> string) \<Rightarrow> string \<Rightarrow> int \<Rightarrow> nat \<Rightarrow> nat \<Rightarrow> string \<Rightarrow> connect_counters \<Rightarrow> connect_env list \<Rightarrow>
     int result option \<times> connect_counters" where
  "connect_attempts strerror host port_n max_attempts attempt last_error stats es =
     (if attempt > max_attempts then
        (Some (Inl (RuntimeError (''connect to '' @ host @ '':'' @ to_string_int port_n @ '' failed after '' @
           to_string max_attempts @ '' attempt(s): '' @ last_error))), stats)
      else case es of
        [] \<Rightarrow> (None, stats\<lparr>cc_attempts := attempt\<rparr>)
      | e # es' \<Rightarrow>
          (let stats = stats\<lparr>cc_attempts := attempt\<rparr> in
           case connect_to_tcp_receiver strerror host e of
             Inr fd \<Rightarrow> (Some (Inr fd), stats)
           | Inl x \<Rightarrow>
               if attempt \<ge> max_attempts then
                 (Some (Inl (RuntimeError (''connect to '' @ host @ '':'' @ to_string_int port_n @ '' failed after '' @
                    to_string max_attempts @ '' attempt(s): '' @ what x))), stats)
               else connect_attempts strerror host port_n max_attempts (attempt + 1) (what x)
                      (stats\<lparr>cc_retries := cc_retries stats + 1\<rparr>) es'))"

declare connect_attempts.simps [simp del]

definition connect_to_tcp_receiver_with_retry ::
    "(errno \<Rightarrow> string) \<Rightarrow> string \<Rightarrow> int \<Rightarrow> int \<Rightarrow> connect_counters \<Rightarrow> connect_env list \<Rightarrow>
     int result option \<times> connect_counters" where
  "connect_to_tcp_receiver_with_retry strerror host port_n max_attempts stats es =
     connect_attempts strerror host port_n (nat max_attempts) 1 [] stats es"

section \<open>Sending one frame\<close>

definition frame_wire_header :: "frame \<Rightarrow> frame_header" where
  "frame_wire_header f =
     make_header (ucast (frm_sequence f)) (frm_capture_timestamp_ns f) (frm_width f) (frm_height f)
       (frm_pixel_format f) (of_nat (length (frm_data f))) (compute_crc32 (frm_data f))"

datatype frame_send = FrameSent nat | FrameThrew exn | FrameBlocked

definition default_poll_slice :: int where "default_poll_slice = 50"

text \<open>
  The outcome, the bytes the kernel accepted and the unused part of the script. \<open>now\<close> is the clock when
  the deadline is computed; both calls of \<open>send_all_until\<close> share it.
\<close>

definition send_frame_over_tcp ::
    "(errno \<Rightarrow> string) \<Rightarrow> int \<Rightarrow> frame \<Rightarrow> int \<Rightarrow> int \<Rightarrow> send_env list \<Rightarrow> frame_send \<times> bytes \<times> send_env list" where
  "send_frame_over_tcp strerror fd f send_timeout_ms now es =
     (if length (frm_data f) > 2 ^ 32 - 1 then
        (FrameThrew (RuntimeError ''Frame payload is too large for FrameHeader payload_size''), [], es)
      else if frm_capture_timestamp_ns f = 0 then
        (FrameThrew (RuntimeError ''Frame is missing capture_timestamp_ns''), [], es)
      else
        let wire_header = serialize_header (frame_wire_header f);
            deadline = now + send_timeout_ms * 1000000;
            r1 = send_all_until strerror fd (Some wire_header) (length wire_header) deadline True default_poll_slice es
        in case status r1 of
             Threw x \<Rightarrow> (FrameThrew x, wire r1, script_left r1)
           | Blocked \<Rightarrow> (FrameBlocked, wire r1, script_left r1)
           | Returned \<Rightarrow>
               (let r2 = send_all_until strerror fd (Some (frm_data f)) (length (frm_data f)) deadline True
                           default_poll_slice (script_left r1)
                in (case status r2 of
                      Threw x \<Rightarrow> FrameThrew x
                    | Blocked \<Rightarrow> FrameBlocked
                    | Returned \<Rightarrow> FrameSent (length wire_header + length (frm_data f)),
                    wire r1 @ wire r2, script_left r2)))"

section \<open>Usability of a frame\<close>

definition frame_fourcc_to_string :: "u32 \<Rightarrow> string" where
  "frame_fourcc_to_string f =
     [char_of (unat (f AND 0xff)), char_of (unat (drop_bit 8 f AND 0xff)),
      char_of (unat (drop_bit 16 f AND 0xff)), char_of (unat (drop_bit 24 f AND 0xff))]"

definition expected_frame_size_bytes :: "frame \<Rightarrow> nat" where
  "expected_frame_size_bytes f =
     (if frm_pixel_format f = V4L2_PIX_FMT_YUYV
      then (unat (frm_width f) * unat (frm_height f) * 2) mod 2 ^ 64 else 0)"

definition has_v4l2_buffer_error :: "frame \<Rightarrow> bool" where
  "has_v4l2_buffer_error f = (frm_v4l2_flags f AND V4L2_BUF_FLAG_ERROR \<noteq> 0)"

definition is_incomplete_yuyv_frame :: "frame \<Rightarrow> bool" where
  "is_incomplete_yuyv_frame f =
     (frm_pixel_format f = V4L2_PIX_FMT_YUYV \<and> length (frm_data f) < expected_frame_size_bytes f)"

text \<open>\<open>Some reason\<close> where the source returns \<open>false\<close>.\<close>

definition frame_unusable_reason :: "frame \<Rightarrow> string option" where
  "frame_unusable_reason f =
     (if has_v4l2_buffer_error f then Some ''V4L2 buffer marked with V4L2_BUF_FLAG_ERROR''
      else if frm_data f = [] then Some ''empty frame data''
      else if frm_width f = 0 \<or> frm_height f = 0 \<or> frm_pixel_format f = 0 then
        Some ''unknown frame format or size''
      else if is_incomplete_yuyv_frame f then
        Some (''incomplete YUYV frame: got='' @ to_string (length (frm_data f)) @ '', expected='' @
              to_string (expected_frame_size_bytes f))
      else None)"

definition is_frame_usable :: "frame \<Rightarrow> bool" where
  "is_frame_usable f = (frame_unusable_reason f = None)"

section \<open>Saving a frame\<close>

definition zero_pad6 :: "nat \<Rightarrow> string" where
  "zero_pad6 n = replicate (6 - length (to_string n)) (CHR ''0'') @ to_string n"

definition string_bytes :: "string \<Rightarrow> bytes" where
  "string_bytes s = map of_char s"

definition save_base :: "frame \<Rightarrow> string \<Rightarrow> nat \<Rightarrow> string" where
  "save_base f dir save_index =
     dir @ ''/pipeline_frame_'' @ zero_pad6 save_index @ ''_seq_'' @ to_string (unat (frm_sequence f))"

definition ppm_bytes :: "frame \<Rightarrow> bytes" where
  "ppm_bytes f =
     string_bytes (''P6'' @ [CHR 0x0A] @ to_string (unat (frm_width f)) @ '' '' @ to_string (unat (frm_height f)) @
       [CHR 0x0A] @ ''255'' @ [CHR 0x0A]) @
     frame_yuyv_to_rgb (frm_data f) (frm_width f) (frm_height f)"

definition write_file ::
    "(string \<Rightarrow> file_result) \<Rightarrow> string \<Rightarrow> string \<Rightarrow> bytes \<Rightarrow> (string \<times> bytes) result" where
  "write_file file_system kind path content = (case file_system path of
      CreateDirsFailed m \<Rightarrow> Inl (RuntimeError m)
    | OpenFailed \<Rightarrow> Inl (RuntimeError (''Failed to open '' @ kind @ '' output file: '' @ path))
    | WriteFailed \<Rightarrow> Inl (RuntimeError (''Failed to write '' @ kind @ '' output file: '' @ path))
    | FileOk \<Rightarrow> Inr (path, content))"

text \<open>The files written and the exception, if any; the raw file stays when the PPM file fails.\<close>

definition save_frame_to_files ::
    "(string \<Rightarrow> file_result) \<Rightarrow> frame \<Rightarrow> string \<Rightarrow> nat \<Rightarrow> (string \<times> bytes) list \<times> exn option" where
  "save_frame_to_files file_system f dir save_index =
     (if frm_data f = [] then ([], Some (RuntimeError ''Cannot save empty frame''))
      else if frm_width f = 0 \<or> frm_height f = 0 \<or> frm_pixel_format f = 0 then
        ([], Some (RuntimeError ''Cannot save frame with unknown format''))
      else
        let raw_path = save_base f dir save_index @ ''.'' @ frame_fourcc_to_string (frm_pixel_format f) in
        case write_file file_system ''raw'' raw_path (frm_data f) of
          Inl e \<Rightarrow> ([], Some e)
        | Inr raw \<Rightarrow>
            if frm_pixel_format f = V4L2_PIX_FMT_YUYV then
              (if length (frm_data f) < (unat (frm_width f) * unat (frm_height f) * 2) mod 2 ^ 64 then
                 ([raw], Some (RuntimeError ''YUYV frame data is smaller than expected''))
               else case write_file file_system ''ppm'' (save_base f dir save_index @ ''.ppm'') (ppm_bytes f) of
                 Inl e \<Rightarrow> ([raw], Some e)
               | Inr ppm \<Rightarrow> ([raw, ppm], None))
            else ([raw], None))"

section \<open>Camera initialisation and waiting\<close>

datatype camera_call =
    OpenDevice
  | QueryCapability
  | SetFormat u32 u32 string
  | InitMmapBuffers u32
  | StartStreaming

fun camera_calls :: "(camera_call \<Rightarrow> exn option) \<Rightarrow> camera_call list \<Rightarrow> camera_call list \<times> exn option" where
  "camera_calls outcome [] = ([], None)"
| "camera_calls outcome (c # cs) = (case outcome c of
      Some e \<Rightarrow> ([c], Some e)
    | None \<Rightarrow> (case camera_calls outcome cs of (made, r) \<Rightarrow> (c # made, r)))"

definition initialize_pipeline_camera ::
    "app_config \<Rightarrow> (camera_call \<Rightarrow> exn option) \<Rightarrow> camera_call list \<times> exn option" where
  "initialize_pipeline_camera cfg outcome =
     (case (width cfg, height cfg, pixel_format cfg, mmap_buffers cfg) of
        (Some w, Some h, Some p, Some n) \<Rightarrow>
          camera_calls outcome [OpenDevice, QueryCapability, SetFormat w h p, InitMmapBuffers n, StartStreaming]
      | _ \<Rightarrow> ([], Some (RuntimeError
          ''Pipeline camera initialization requires width, height, format and mmap_buffers'')))"

definition kSliceMs :: int where "kSliceMs = 50"

text \<open>The list holds the values of the stop flag at its successive reads.\<close>

fun sleep_interruptibly :: "int \<Rightarrow> bool list \<Rightarrow> bool option" where
  "sleep_interruptibly remaining_ms [] = None"
| "sleep_interruptibly remaining_ms (stop # reads) =
     (if remaining_ms > 0 then
        (if stop then Some False
         else sleep_interruptibly (remaining_ms - min remaining_ms kSliceMs) reads)
      else Some (\<not> stop))"

section \<open>Lemmas\<close>

text \<open>The bytes of a frame on the wire, and the kernel contract for the two sends of a frame.\<close>

definition frame_wire :: "frame \<Rightarrow> bytes" where
  "frame_wire f = serialize_header (frame_wire_header f) @ frm_data f"

definition frame_contract :: "(errno \<Rightarrow> string) \<Rightarrow> int \<Rightarrow> frame \<Rightarrow> int \<Rightarrow> int \<Rightarrow> send_env list \<Rightarrow> bool" where
  "frame_contract strerror fd f send_timeout_ms now es \<longleftrightarrow>
     send_contract kWireHeaderSize 0 es \<and>
     send_contract (length (frm_data f)) 0 (script_left (send_all_until strerror fd
       (Some (serialize_header (frame_wire_header f))) kWireHeaderSize (now + send_timeout_ms * 1000000) True
       default_poll_slice es))"

lemma send_all_prefix:
  assumes "0 \<le> fd" and "send_contract (length data) 0 es"
    and "r = send_all_until strerror fd (Some data) (length data) deadline True default_poll_slice es"
  shows "wire r = take (sent_count r) data \<and> sent_count r \<le> length data \<and>
    (status r = Returned \<longleftrightarrow> sent_count r = length data)"
  using assms send_loop_prefix [OF assms(2), of "[]" r strerror deadline True default_poll_slice]
  by (simp add: send_all_until_def default_poll_slice_def)

lemma frame_send_prefix:
  assumes "0 \<le> fd" and "frame_contract strerror fd f t now es"
    and "send_frame_over_tcp strerror fd f t now es = (r, out, es')"
  shows "prefix out (frame_wire f)" and "r = FrameSent n \<Longrightarrow> out = frame_wire f \<and> n = length (frame_wire f)"
    and "out = frame_wire f \<Longrightarrow> \<exists>n. r = FrameSent n"
proof -
  let ?h = "serialize_header (frame_wire_header f)"
  let ?r1 = "send_all_until strerror fd (Some ?h) (length ?h) (now + t * 1000000) True default_poll_slice es"
  let ?r2 = "send_all_until strerror fd (Some (frm_data f)) (length (frm_data f)) (now + t * 1000000) True
     default_poll_slice (script_left ?r1)"
  have p1: "wire ?r1 = take (sent_count ?r1) ?h \<and> sent_count ?r1 \<le> length ?h \<and>
      (status ?r1 = Returned \<longleftrightarrow> sent_count ?r1 = length ?h)"
    using assms(1,2) by (intro send_all_prefix) (simp_all add: frame_contract_def)
  have p2: "wire ?r2 = take (sent_count ?r2) (frm_data f) \<and> sent_count ?r2 \<le> length (frm_data f) \<and>
      (status ?r2 = Returned \<longleftrightarrow> sent_count ?r2 = length (frm_data f))"
    using assms(1,2) by (intro send_all_prefix) (simp_all add: frame_contract_def)
  have len: "length (frame_wire f) = length ?h + length (frm_data f)" "frame_wire f \<noteq> []"
    by (simp_all add: frame_wire_def kWireHeaderSize_def flip: length_greater_0_conv)
  consider (early) "out = []" "\<forall>n. r \<noteq> FrameSent n"
    | (header) "out = wire ?r1" "status ?r1 \<noteq> Returned" "\<forall>n. r \<noteq> FrameSent n"
    | (payload) "out = ?h @ wire ?r2" "r = (case status ?r2 of Threw x \<Rightarrow> FrameThrew x | Blocked \<Rightarrow> FrameBlocked
        | Returned \<Rightarrow> FrameSent (length ?h + length (frm_data f)))"
    using assms(3) p1 unfolding send_frame_over_tcp_def Let_def
    by (cases "status ?r1"; cases "length (frm_data f) > 2 ^ 32 - 1"; cases "frm_capture_timestamp_ns f = 0") auto
  then have "prefix out (frame_wire f) \<and> (\<forall>n. r = FrameSent n \<longrightarrow> out = frame_wire f \<and> n = length (frame_wire f)) \<and>
      (out = frame_wire f \<longrightarrow> (\<exists>n. r = FrameSent n))"
  proof cases
    case early
    then show ?thesis using len(2) by simp
  next
    case header
    then have "length out < length ?h" using p1 by simp
    then have "out \<noteq> frame_wire f" using len(1) by auto
    moreover have "prefix out (frame_wire f)" using header(1) p1 by (simp add: frame_wire_def take_is_prefix prefix_order.trans)
    ultimately show ?thesis using header by simp
  next
    case payload
    moreover have "prefix out (frame_wire f)" using payload(1) p2 by (simp add: frame_wire_def take_is_prefix)
    moreover have "out = frame_wire f \<longleftrightarrow> status ?r2 = Returned"
      using payload(1) p2 by (auto simp: frame_wire_def)
    ultimately show ?thesis using len(1) by (auto split: send_status.splits)
  qed
  then show "prefix out (frame_wire f)" and "r = FrameSent n \<Longrightarrow> out = frame_wire f \<and> n = length (frame_wire f)"
    and "out = frame_wire f \<Longrightarrow> \<exists>n. r = FrameSent n" by auto
qed

text \<open>A send is cancelled only when one of its reads of the stop flag found it set.\<close>

lemma send_frame_cancelled:
  assumes "send_frame_over_tcp strerror fd f t now es = (FrameThrew (SendCancelled m), out, es')"
  shows "\<exists>e \<in> set es. stop_at_top e \<or> stop_after_send e"
proof -
  let ?h = "serialize_header (frame_wire_header f)"
  let ?r1 = "send_all_until strerror fd (Some ?h) (length ?h) (now + t * 1000000) True default_poll_slice es"
  let ?r2 = "send_all_until strerror fd (Some (frm_data f)) (length (frm_data f)) (now + t * 1000000) True
     default_poll_slice (script_left ?r1)"
  from assms have "status ?r1 = Threw (SendCancelled m) \<or> status ?r2 = Threw (SendCancelled m)"
    unfolding send_frame_over_tcp_def Let_def by (auto split: if_splits send_status.splits)
  then show ?thesis
    using send_all_until_script [OF refl, of strerror fd "Some ?h" "length ?h" "now + t * 1000000" True default_poll_slice es]
      send_all_until_script [OF refl, of strerror fd "Some (frm_data f)" "length (frm_data f)" "now + t * 1000000" True
        default_poll_slice "script_left ?r1"]
    by blast
qed

lemma yuyv_expected:
  assumes "frm_pixel_format f = V4L2_PIX_FMT_YUYV" and "unat (frm_width f) * unat (frm_height f) * 2 < 2 ^ 64"
  shows "expected_frame_size_bytes f = unat (frm_width f) * unat (frm_height f) * 2"
  using assms by (simp add: expected_frame_size_bytes_def)

lemma frame_header_valid_iff:
  assumes "length (frm_data f) < 2 ^ 32"
  shows "validate_header (frame_wire_header f) m = None \<longleftrightarrow>
    m \<noteq> 0 \<and> frm_capture_timestamp_ns f \<noteq> 0 \<and>
    unat (frm_width f) \<in> {1..16384} \<and> unat (frm_height f) \<in> {1..16384} \<and> frm_pixel_format f \<noteq> 0 \<and>
    length (frm_data f) \<in> {1..unat m} \<and>
    (frm_pixel_format f = V4L2_PIX_FMT_YUYV \<longrightarrow>
       even (unat (frm_width f)) \<and> length (frm_data f) = unat (frm_width f) * unat (frm_height f) * 2)"
proof -
  have "unat (of_nat (length (frm_data f)) :: u32) = length (frm_data f)"
    using assms by (simp add: unat_of_nat take_bit_nat_eq_self)
  then show ?thesis
    by (auto simp: validate_header_iff header_acceptable_def frame_wire_header_def make_header_def kWireHeaderSize_def)
qed

lemma connect_attempts_returns:
  "max_attempts + 1 - attempt \<le> length es \<Longrightarrow>
   fst (connect_attempts strerror host p max_attempts attempt last_error st es) \<noteq> None"
proof (induction es arbitrary: attempt last_error st)
  case Nil
  then show ?case by (simp add: connect_attempts.simps)
next
  case (Cons e es)
  from Cons.prems have "max_attempts + 1 - (attempt + 1) \<le> length es" by simp
  from Cons.IH [OF this] show ?case
    by (subst connect_attempts.simps) (simp add: Let_def split: sum.split)
qed

lemma connect_attempts_result:
  assumes "attempt \<le> max_attempts"
    and "connect_attempts strerror host p max_attempts attempt le st es = (r, st')"
    and "cc_retries st + 1 = attempt"
  shows "cc_attempts st' \<le> max_attempts \<and> cc_retries st' + 1 = cc_attempts st' \<and>
    (\<forall>fd. r = Some (Inr fd) \<longrightarrow> (\<exists>i. i < length es \<and> cc_attempts st' = attempt + i \<and>
       connect_to_tcp_receiver strerror host (es ! i) = Inr fd \<and>
       (\<forall>j < i. \<exists>x. connect_to_tcp_receiver strerror host (es ! j) = Inl x))) \<and>
    (\<forall>e. r = Some (Inl e) \<longrightarrow> cc_attempts st' = max_attempts)"
  using assms
proof (induction es arbitrary: attempt le st)
  case Nil
  then show ?case by (auto simp: connect_attempts.simps [of _ _ _ _ _ _ _ "[]"])
next
  case (Cons e es)
  show ?case
  proof (cases "connect_to_tcp_receiver strerror host e")
    case (Inr fd)
    with Cons.prems show ?thesis
      by (auto simp: connect_attempts.simps [of _ _ _ _ _ _ _ "e # es"] intro: exI [of _ 0])
  next
    case (Inl x)
    show ?thesis
    proof (cases "attempt \<ge> max_attempts")
      case True
      with Inl Cons.prems show ?thesis by (auto simp: connect_attempts.simps [of _ _ _ _ _ _ _ "e # es"])
    next
      case False
      let ?st = "st\<lparr>cc_attempts := attempt, cc_retries := cc_retries st + 1\<rparr>"
      have run: "connect_attempts strerror host p max_attempts (attempt + 1) (what x) ?st es = (r, st')"
        using Cons.prems(2) Inl False by (simp add: connect_attempts.simps [of _ _ _ _ _ _ _ "e # es"] Let_def)
      have ih: "cc_attempts st' \<le> max_attempts \<and> cc_retries st' + 1 = cc_attempts st' \<and>
        (\<forall>fd. r = Some (Inr fd) \<longrightarrow> (\<exists>i. i < length es \<and> cc_attempts st' = attempt + 1 + i \<and>
           connect_to_tcp_receiver strerror host (es ! i) = Inr fd \<and>
           (\<forall>j < i. \<exists>x. connect_to_tcp_receiver strerror host (es ! j) = Inl x))) \<and>
        (\<forall>e. r = Some (Inl e) \<longrightarrow> cc_attempts st' = max_attempts)"
        using False Cons.prems(3) by (intro Cons.IH [OF _ run]) auto
      have shift: "\<exists>i. i < length (e # es) \<and> cc_attempts st' = attempt + i \<and>
          connect_to_tcp_receiver strerror host ((e # es) ! i) = Inr fd \<and>
          (\<forall>j < i. \<exists>x. connect_to_tcp_receiver strerror host ((e # es) ! j) = Inl x)" if "r = Some (Inr fd)" for fd
      proof -
        from ih that obtain i where i: "i < length es" "cc_attempts st' = attempt + 1 + i"
          "connect_to_tcp_receiver strerror host (es ! i) = Inr fd"
          "\<forall>j < i. \<exists>x. connect_to_tcp_receiver strerror host (es ! j) = Inl x" by blast
        then show ?thesis using Inl
          by (intro exI [of _ "Suc i"]) (auto simp: less_Suc_eq_0_disj)
      qed
      with ih show ?thesis by blast
    qed
  qed
qed

section \<open>Properties\<close>

text \<open>
  C19: sending a frame hands the connection a prefix of the frame's encoding, and reports success exactly
  when this prefix is the whole encoding, with its exact length; on every failure (timeout, cancellation,
  socket error) the receiver sees an incomplete frame and never a damaged one.
\<close>

theorem send_frame_all_or_prefix:
  assumes "0 \<le> fd" and "frame_contract strerror fd f t now es"
    and "send_frame_over_tcp strerror fd f t now es = (r, out, es')"
  shows "prefix out (frame_wire f) \<and> ((\<exists>n. r = FrameSent n) \<longleftrightarrow> out = frame_wire f) \<and>
    (\<forall>n. r = FrameSent n \<longrightarrow> n = length (frame_wire f))"
  using frame_send_prefix [OF assms] by blast

definition sample_frame :: frame where
  "sample_frame = empty_frame\<lparr>frm_data := [16, 128, 235, 128], frm_width := 2, frm_height := 1,
     frm_pixel_format := V4L2_PIX_FMT_YUYV, frm_bytesused := 4, frm_sequence := 7, frm_capture_timestamp_ns := 1000\<rparr>"

theorem send_frame_all_or_prefix_witness:
  "prefix (fst (snd (send_frame_over_tcp (\<lambda>n. ''error'') 4 sample_frame 2000 0
     [quiet_env\<lparr>send_ret := 44\<rparr>, quiet_env\<lparr>send_ret := 3\<rparr>, quiet_env\<lparr>stop_at_top := True, send_ret := 1\<rparr>]))) (frame_wire sample_frame)"
proof -
  let ?es = "[quiet_env\<lparr>send_ret := 44\<rparr>, quiet_env\<lparr>send_ret := 3\<rparr>, quiet_env\<lparr>stop_at_top := True, send_ret := 1\<rparr>]"
  have left: "script_left (send_all_until (\<lambda>n. ''error'') 4 (Some (serialize_header (frame_wire_header sample_frame)))
      kWireHeaderSize 2000000000 True default_poll_slice ?es) = tl ?es"
    by (simp add: send_all_until_def default_poll_slice_def kWireHeaderSize_def send_iter_def quiet_env_def
        cancellation_requested_def)
  have "frame_contract (\<lambda>n. ''error'') 4 sample_frame 2000 0 ?es"
    by (simp add: frame_contract_def left) (simp add: kWireHeaderSize_def quiet_env_def sample_frame_def)
  from send_frame_all_or_prefix [OF _ this, of "fst (send_frame_over_tcp (\<lambda>n. ''error'') 4 sample_frame 2000 0 ?es)"
      "fst (snd (send_frame_over_tcp (\<lambda>n. ''error'') 4 sample_frame 2000 0 ?es))"
      "snd (snd (send_frame_over_tcp (\<lambda>n. ''error'') 4 sample_frame 2000 0 ?es))"]
  show ?thesis by simp
qed



text \<open>
  C38: connecting never exceeds the configured number of attempts and counts exactly one retry less than
  attempts; a descriptor is returned from the first attempt that succeeded, and failure is reported only
  after the last permitted attempt. The loop ends: it has returned or thrown once that many attempts have
  been answered.
\<close>

theorem connect_retry_bounded:
  assumes "0 < max_attempts"
    and "connect_to_tcp_receiver_with_retry strerror host p max_attempts \<lparr>cc_attempts = 0, cc_retries = 0\<rparr> es = (r, st)"
  shows "int (cc_attempts st) \<le> max_attempts \<and> cc_retries st + 1 = cc_attempts st \<and>
    (\<forall>fd. r = Some (Inr fd) \<longrightarrow> (\<exists>i. i < length es \<and> cc_attempts st = 1 + i \<and>
       connect_to_tcp_receiver strerror host (es ! i) = Inr fd \<and>
       (\<forall>j < i. \<exists>x. connect_to_tcp_receiver strerror host (es ! j) = Inl x))) \<and>
    (\<forall>e. r = Some (Inl e) \<longrightarrow> int (cc_attempts st) = max_attempts) \<and>
    (max_attempts \<le> int (length es) \<longrightarrow> r \<noteq> None)"
proof -
  have "connect_attempts strerror host p (nat max_attempts) 1 [] \<lparr>cc_attempts = 0, cc_retries = 0\<rparr> es = (r, st)"
    using assms(2) by (simp add: connect_to_tcp_receiver_with_retry_def)
  moreover from connect_attempts_returns [of "nat max_attempts" 1 es strerror host p "[]" "\<lparr>cc_attempts = 0, cc_retries = 0\<rparr>"] this
  have "max_attempts \<le> int (length es) \<longrightarrow> r \<noteq> None" by (auto simp: nat_le_iff)
  ultimately show ?thesis
    using connect_attempts_result [of 1 "nat max_attempts"] assms(1) by (simp add: le_nat_iff nat_le_eq_zle)
qed

theorem connect_retry_bounded_witness:
  "int (cc_attempts (snd (connect_to_tcp_receiver_with_retry (\<lambda>n. ''error'') ''127.0.0.1'' 9000 5
     \<lparr>cc_attempts = 0, cc_retries = 0\<rparr>
     [\<lparr>socket_ret = 4, socket_errno = EINVAL, inet_pton_ret = 1, connect_ret = -1, connect_errno = Errno 111\<rparr>,
      \<lparr>socket_ret = 5, socket_errno = EINVAL, inet_pton_ret = 1, connect_ret = 0, connect_errno = Errno 111\<rparr>]))) \<le> 5"
  by (rule conjunct1 [OF connect_retry_bounded [OF _ surjective_pairing]]) simp

end
