(* ===== verification/Pipeline.thy ===== *)
theory Pipeline
  imports Ring_Buffer Capture_Recovery Frame_Io
begin

text \<open>
  \<open>run_pipeline\<close> of \<open>src/main.cpp\<close>: three threads that share two ring buffers, three atomic flags and
  the statistics of \<open>include/pipeline_stats.hpp\<close>. The producer captures frames and repairs the camera,
  the consumer checks and saves them and feeds the TCP queue, the sender empties that queue.

  Every thread is a program counter and a step function. A step contains at most one access to a shared
  flag or ring (accesses only one thread makes, and counters nobody else reads before the threads are
  joined, are merged into it), so the interleavings of steps are those of the atomic accesses of the
  source. The waits on condition variables time out after 100 ms and are left out: they only delay a
  thread. What the camera, the clock, the file system and the socket answer during a step is its \<open>tick\<close>.

  The fields with \<open>log\<close> in their name, \<open>tcp_wire\<close> and \<open>tcp_failed\<close> are ghost state that records what
  passed through the queues and onto the connection; no step reads them. Counters are natural numbers.
\<close>

section \<open>Statistics\<close>

record pipeline_stats =
  captured :: nat
  consumed :: nat
  invalid :: nat
  saved :: nat
  consumed_bytes :: nat
  capture_dropped :: nat
  capture_queue_remaining :: nat
  tcp_queued :: nat
  tcp_dropped :: nat
  tcp_queue_remaining :: nat
  tcp_sent :: nat
  tcp_sent_bytes :: nat
  tcp_send_errors :: nat
  tcp_send_timeouts :: nat
  tcp_send_cancellations :: nat
  tcp_connect_attempts :: nat
  tcp_connect_retries :: nat
  camera_capture_timeouts :: nat
  camera_temporary_unavailable :: nat
  camera_device_errors :: nat
  camera_buffer_error_frames :: nat
  camera_incomplete_frames :: nat
  camera_consecutive_invalid_peak :: nat
  camera_invalid_frame_recoveries :: nat
  camera_invalid_recovery_suppressed_cooldown :: nat
  camera_invalid_recovery_suppressed_budget :: nat
  camera_recovery_attempts :: nat
  camera_recovery_successes :: nat
  camera_recovery_failures :: nat
  reconnect_count :: nat
  capture_to_consumer_latency :: latency_stats
  capture_to_send_latency :: latency_stats
  stats_last_error :: string

definition PipelineStats :: pipeline_stats where
  "PipelineStats = \<lparr>captured = 0, consumed = 0, invalid = 0, saved = 0, consumed_bytes = 0, capture_dropped = 0,
     capture_queue_remaining = 0, tcp_queued = 0, tcp_dropped = 0, tcp_queue_remaining = 0, tcp_sent = 0,
     tcp_sent_bytes = 0, tcp_send_errors = 0, tcp_send_timeouts = 0, tcp_send_cancellations = 0,
     tcp_connect_attempts = 0, tcp_connect_retries = 0, camera_capture_timeouts = 0,
     camera_temporary_unavailable = 0, camera_device_errors = 0, camera_buffer_error_frames = 0,
     camera_incomplete_frames = 0, camera_consecutive_invalid_peak = 0, camera_invalid_frame_recoveries = 0,
     camera_invalid_recovery_suppressed_cooldown = 0, camera_invalid_recovery_suppressed_budget = 0,
     camera_recovery_attempts = 0, camera_recovery_successes = 0, camera_recovery_failures = 0,
     reconnect_count = 0, capture_to_consumer_latency = LatencyStats, capture_to_send_latency = LatencyStats,
     stats_last_error = ''''\<rparr>"

section \<open>State\<close>

datatype producer_pc =
    P_Loop
  | P_Capture
  | P_Rebuild bool
  | P_Sleep bool int
  | P_Init bool
  | P_Failed
  | P_Finish
  | P_Done

datatype consumer_pc =
    C_Top
  | C_CheckDone
  | C_CheckEmpty
  | C_Pop
  | C_Queue frame
  | C_Finish
  | C_ThrowStop
  | C_Done

datatype sender_pc =
    S_Top
  | S_CheckEmpty
  | S_Pop
  | S_Sending frame
  | S_Done

record pipe =
  capture_ring :: "frame ring"
  tcp_ring :: "frame ring"
  producer_done :: bool
  consumer_done :: bool
  stop_requested :: bool
  stats :: pipeline_stats
  producer_error :: "exn option"
  consumer_error :: "exn option"
  ppc :: producer_pc
  produced :: nat
  recovery_controller :: capture_recovery
  invalid_frame_controller :: invalid_recovery
  cpc :: consumer_pc
  spc :: sender_pc
  captured_log :: "frame list"
  consumed_log :: "frame list"
  queued_log :: "frame list"
  sent_log :: "frame list"
  saved_log :: "(string \<times> bytes) list"
  tcp_wire :: bytes
  tcp_failed :: "frame option"

record tick =
  t_capture :: "frame result"
  t_init :: "camera_call \<Rightarrow> exn option"
  t_now :: int
  t_files :: "string \<Rightarrow> file_result"
  t_send :: "send_env list"
  t_send_now :: int

definition upd_stats :: "(pipeline_stats \<Rightarrow> pipeline_stats) \<Rightarrow> pipe \<Rightarrow> pipe" where
  "upd_stats f s = s\<lparr>stats := f (stats s)\<rparr>"

definition run_tcp_enabled :: "app_config \<Rightarrow> bool" where
  "run_tcp_enabled cfg = (tcp_host cfg \<noteq> None \<and> tcp_port cfg > 0)"

section \<open>Producer\<close>

definition producer_throw :: "exn \<Rightarrow> pipe \<Rightarrow> pipe" where
  "producer_throw e s = s\<lparr>producer_error := Some e, stop_requested := True, ppc := P_Finish\<rparr>"

definition exhausted_error :: "app_config \<Rightarrow> pipe \<Rightarrow> exn" where
  "exhausted_error cfg s =
     RuntimeError (''camera recovery exhausted after '' @ to_string_int (camera_recovery_max_attempts cfg) @
       '' attempt(s): '' @ stats_last_error (stats s))"

definition count_frame :: "frame \<Rightarrow> nat \<Rightarrow> pipeline_stats \<Rightarrow> pipeline_stats" where
  "count_frame f peak st =
     (let st = (if has_v4l2_buffer_error f
                then st\<lparr>camera_buffer_error_frames := camera_buffer_error_frames st + 1\<rparr> else st);
          st = (if is_incomplete_yuyv_frame f
                then st\<lparr>camera_incomplete_frames := camera_incomplete_frames st + 1\<rparr> else st);
          st = (if peak > camera_consecutive_invalid_peak st
                then st\<lparr>camera_consecutive_invalid_peak := peak\<rparr> else st)
      in st\<lparr>captured := captured st + 1\<rparr>)"

definition on_decision :: "app_config \<Rightarrow> invalid_frame_decision \<Rightarrow> pipe \<Rightarrow> pipe" where
  "on_decision cfg d s = (case d of
      NoAction \<Rightarrow> s\<lparr>ppc := P_Loop\<rparr>
    | Recover \<Rightarrow>
        if camera_recovery_enabled cfg
        then upd_stats (\<lambda>st. st\<lparr>camera_invalid_frame_recoveries := camera_invalid_frame_recoveries st + 1\<rparr>)
               (s\<lparr>ppc := P_Rebuild True\<rparr>)
        else s\<lparr>ppc := P_Loop\<rparr>
    | SuppressedByCooldown \<Rightarrow>
        upd_stats (\<lambda>st. st\<lparr>camera_invalid_recovery_suppressed_cooldown :=
          camera_invalid_recovery_suppressed_cooldown st + 1\<rparr>) (s\<lparr>ppc := P_Loop\<rparr>)
    | SuppressedByBudget \<Rightarrow>
        upd_stats (\<lambda>st. st\<lparr>camera_invalid_recovery_suppressed_budget :=
          camera_invalid_recovery_suppressed_budget st + 1\<rparr>) (s\<lparr>ppc := P_Loop\<rparr>))"

definition on_frame :: "app_config \<Rightarrow> frame \<Rightarrow> pipe \<Rightarrow> pipe" where
  "on_frame cfg f s =
     (case observe (is_frame_usable f) (invalid_frame_controller s) of (decision, ic) \<Rightarrow>
        on_decision cfg decision
          (upd_stats (count_frame f (nat (peak_invalid ic)))
            (s\<lparr>recovery_controller := on_capture_success (recovery_controller s), invalid_frame_controller := ic,
               capture_ring := push f (capture_ring s), produced := produced s + 1,
               captured_log := captured_log s @ [f]\<rparr>)))"

definition count_capture_error :: "camera_capture_error_kind \<Rightarrow> pipeline_stats \<Rightarrow> pipeline_stats" where
  "count_capture_error kind st =
     (if kind = Timeout then st\<lparr>camera_capture_timeouts := camera_capture_timeouts st + 1\<rparr>
      else if kind = TemporaryUnavailable
      then st\<lparr>camera_temporary_unavailable := camera_temporary_unavailable st + 1\<rparr>
      else st\<lparr>camera_device_errors := camera_device_errors st + 1\<rparr>)"

definition on_capture_error :: "app_config \<Rightarrow> camera_capture_error_kind \<Rightarrow> int \<Rightarrow> string \<Rightarrow> pipe \<Rightarrow> pipe" where
  "on_capture_error cfg kind code msg s =
     (let text = ''camera capture error kind='' @ camera_capture_error_kind_name kind @ '' errno='' @
                 to_string_int code @ '': '' @ msg;
          s = upd_stats (\<lambda>st. (count_capture_error kind st)\<lparr>stats_last_error := text\<rparr>) s
      in case should_reinitialize kind (recovery_controller s) of (should, rc) \<Rightarrow>
           (let s = s\<lparr>recovery_controller := rc\<rparr> in
            if \<not> should then s\<lparr>ppc := P_Loop\<rparr>
            else if \<not> camera_recovery_enabled cfg then producer_throw (CameraCaptureError kind code msg) s
            else s\<lparr>ppc := P_Rebuild False\<rparr>))"

definition on_rebuilt :: "bool \<Rightarrow> pipe \<Rightarrow> pipe" where
  "on_rebuilt invalid_frame_trigger s =
     upd_stats (\<lambda>st. st\<lparr>camera_recovery_successes := camera_recovery_successes st + 1,
                        reconnect_count := reconnect_count st + 1, stats_last_error := ''''\<rparr>)
       (s\<lparr>recovery_controller := on_recovery_success (recovery_controller s),
          invalid_frame_controller :=
            (if invalid_frame_trigger then on_invalid_frame_recovery_success (invalid_frame_controller s)
             else on_external_recovery_success (invalid_frame_controller s)),
          ppc := P_Loop\<rparr>)"

definition on_rebuild_failed :: "bool \<Rightarrow> exn \<Rightarrow> pipe \<Rightarrow> pipe" where
  "on_rebuild_failed invalid_frame_trigger e s =
     upd_stats (\<lambda>st. st\<lparr>camera_recovery_failures := camera_recovery_failures st + 1,
                        stats_last_error := ''camera recovery attempt '' @
                          to_string_int (recovery_attempts (recovery_controller s)) @ '' failed: '' @ what e\<rparr>)
       (s\<lparr>ppc := P_Rebuild invalid_frame_trigger\<rparr>)"

definition producer_step :: "app_config \<Rightarrow> tick \<Rightarrow> pipe \<Rightarrow> pipe" where
  "producer_step cfg t s = (case ppc s of
      P_Loop \<Rightarrow>
        if int (produced s) < pipeline_frames cfg \<and> \<not> stop_requested s
        then s\<lparr>ppc := P_Capture\<rparr> else s\<lparr>ppc := P_Finish\<rparr>
    | P_Capture \<Rightarrow>
        (case t_capture t of
           Inr f \<Rightarrow> on_frame cfg f s
         | Inl (CameraCaptureError kind code msg) \<Rightarrow> on_capture_error cfg kind code msg s
         | Inl e \<Rightarrow> producer_throw e s)
    | P_Rebuild trigger \<Rightarrow>
        if stop_requested s then s\<lparr>ppc := P_Failed\<rparr>
        else (case begin_recovery_attempt (recovery_controller s) of (ok, rc) \<Rightarrow>
               if ok
               then upd_stats (\<lambda>st. st\<lparr>camera_recovery_attempts := camera_recovery_attempts st + 1\<rparr>)
                      (s\<lparr>recovery_controller := rc, ppc := P_Sleep trigger (camera_recovery_retry_delay_ms cfg)\<rparr>)
               else s\<lparr>recovery_controller := rc, ppc := P_Failed\<rparr>)
    | P_Sleep trigger remaining_ms \<Rightarrow>
        if stop_requested s then s\<lparr>ppc := P_Failed\<rparr>
        else if remaining_ms > 0 then s\<lparr>ppc := P_Sleep trigger (remaining_ms - min remaining_ms kSliceMs)\<rparr>
        else s\<lparr>ppc := P_Init trigger\<rparr>
    | P_Init trigger \<Rightarrow>
        (case snd (initialize_pipeline_camera cfg (t_init t)) of
           None \<Rightarrow> on_rebuilt trigger s
         | Some e \<Rightarrow> on_rebuild_failed trigger e s)
    | P_Failed \<Rightarrow>
        if stop_requested s then s\<lparr>ppc := P_Loop\<rparr> else producer_throw (exhausted_error cfg s) s
    | P_Finish \<Rightarrow> s\<lparr>producer_done := True, ppc := P_Done\<rparr>
    | P_Done \<Rightarrow> s)"

section \<open>Consumer\<close>

definition consumer_throw :: "exn \<Rightarrow> pipe \<Rightarrow> pipe" where
  "consumer_throw e s = s\<lparr>consumer_error := Some e, consumer_done := True, cpc := C_ThrowStop\<rparr>"

definition count_consumed :: "tick \<Rightarrow> frame \<Rightarrow> pipeline_stats \<Rightarrow> pipeline_stats" where
  "count_consumed t f st =
     st\<lparr>capture_to_consumer_latency :=
          add_sample_us (elapsed_microseconds (frm_host_receive_time f) (t_now t)) (capture_to_consumer_latency st),
        consumed := consumed st + 1, consumed_bytes := consumed_bytes st + unat (frm_bytesused f)\<rparr>"

definition save_consumed :: "app_config \<Rightarrow> tick \<Rightarrow> frame \<Rightarrow> pipe \<Rightarrow> exn option \<times> pipe" where
  "save_consumed cfg t f s =
     (if pipeline_save cfg \<and> int (saved (stats s)) < save_limit cfg then
        let save_index = saved (stats s);
            s = upd_stats (\<lambda>st. st\<lparr>saved := saved st + 1\<rparr>) s
        in if int save_index < save_limit cfg then
             (case save_frame_to_files (t_files t) f (output_dir cfg) save_index of
                (written, e) \<Rightarrow> (e, s\<lparr>saved_log := saved_log s @ written\<rparr>))
           else (None, s)
      else (None, s))"

definition consume_frame :: "app_config \<Rightarrow> tick \<Rightarrow> frame \<Rightarrow> pipe \<Rightarrow> pipe" where
  "consume_frame cfg t f s =
     (let s = upd_stats (count_consumed t f) (s\<lparr>consumed_log := consumed_log s @ [f]\<rparr>) in
      if \<not> is_frame_usable f then upd_stats (\<lambda>st. st\<lparr>invalid := invalid st + 1\<rparr>) (s\<lparr>cpc := C_Top\<rparr>)
      else case save_consumed cfg t f s of
             (Some e, s) \<Rightarrow> consumer_throw e s
           | (None, s) \<Rightarrow> if run_tcp_enabled cfg then s\<lparr>cpc := C_Queue f\<rparr> else s\<lparr>cpc := C_Top\<rparr>)"

definition consumer_step :: "app_config \<Rightarrow> tick \<Rightarrow> pipe \<Rightarrow> pipe" where
  "consumer_step cfg t s = (case cpc s of
      C_Top \<Rightarrow> if stop_requested s then s\<lparr>cpc := C_Finish\<rparr> else s\<lparr>cpc := C_CheckDone\<rparr>
    | C_CheckDone \<Rightarrow> if producer_done s then s\<lparr>cpc := C_CheckEmpty\<rparr> else s\<lparr>cpc := C_Pop\<rparr>
    | C_CheckEmpty \<Rightarrow> if ring_empty (capture_ring s) then s\<lparr>cpc := C_Finish\<rparr> else s\<lparr>cpc := C_Pop\<rparr>
    | C_Pop \<Rightarrow>
        (case try_pop_oldest moved_frame (capture_ring s) of
           (None, r) \<Rightarrow> s\<lparr>cpc := C_Top\<rparr>
         | (Some f, r) \<Rightarrow> consume_frame cfg t f (s\<lparr>capture_ring := r\<rparr>))
    | C_Queue f \<Rightarrow>
        upd_stats (\<lambda>st. st\<lparr>tcp_queued := tcp_queued st + 1\<rparr>)
          (s\<lparr>tcp_ring := push f (tcp_ring s), queued_log := queued_log s @ [f], cpc := C_Top\<rparr>)
    | C_Finish \<Rightarrow> s\<lparr>consumer_done := True, cpc := C_Done\<rparr>
    | C_ThrowStop \<Rightarrow> s\<lparr>stop_requested := True, cpc := C_Done\<rparr>
    | C_Done \<Rightarrow> s)"

section \<open>Sender\<close>

definition send_error_text :: "frame \<Rightarrow> string \<Rightarrow> pipeline_stats \<Rightarrow> exn \<Rightarrow> string" where
  "send_error_text f verb st e =
     ''send frame_id='' @ to_string (unat (frm_sequence f)) @ verb @ '' after tcp_sent_frames='' @
     to_string (tcp_sent st) @ '': '' @ what e"

definition on_sent :: "tick \<Rightarrow> frame \<Rightarrow> nat \<Rightarrow> pipe \<Rightarrow> pipe" where
  "on_sent t f n s =
     upd_stats (\<lambda>st. st\<lparr>capture_to_send_latency :=
          add_sample_us (elapsed_microseconds (frm_host_receive_time f) (t_now t)) (capture_to_send_latency st),
        tcp_sent_bytes := tcp_sent_bytes st + n, tcp_sent := tcp_sent st + 1\<rparr>)
       (s\<lparr>sent_log := sent_log s @ [f], spc := S_Top\<rparr>)"

definition on_send_error :: "frame \<Rightarrow> exn \<Rightarrow> pipe \<Rightarrow> pipe" where
  "on_send_error f e s =
     (let s = s\<lparr>tcp_failed := Some f, spc := S_Done\<rparr> in case e of
        SendTimeout m \<Rightarrow>
          upd_stats (\<lambda>st. st\<lparr>tcp_send_errors := tcp_send_errors st + 1, tcp_send_timeouts := tcp_send_timeouts st + 1,
                             stats_last_error := send_error_text f '' timed out'' st e\<rparr>) (s\<lparr>stop_requested := True\<rparr>)
      | SendCancelled m \<Rightarrow>
          upd_stats (\<lambda>st. st\<lparr>tcp_send_cancellations := tcp_send_cancellations st + 1,
                             stats_last_error := send_error_text f '' cancelled'' st e\<rparr>) s
      | _ \<Rightarrow>
          upd_stats (\<lambda>st. st\<lparr>tcp_send_errors := tcp_send_errors st + 1,
                             stats_last_error := send_error_text f '' failed'' st e\<rparr>) (s\<lparr>stop_requested := True\<rparr>))"

definition sender_step :: "(errno \<Rightarrow> string) \<Rightarrow> int \<Rightarrow> app_config \<Rightarrow> tick \<Rightarrow> pipe \<Rightarrow> pipe" where
  "sender_step strerror fd cfg t s = (case spc s of
      S_Top \<Rightarrow> if consumer_done s then s\<lparr>spc := S_CheckEmpty\<rparr> else s\<lparr>spc := S_Pop\<rparr>
    | S_CheckEmpty \<Rightarrow> if ring_empty (tcp_ring s) then s\<lparr>spc := S_Done\<rparr> else s\<lparr>spc := S_Pop\<rparr>
    | S_Pop \<Rightarrow>
        (case try_pop_oldest moved_frame (tcp_ring s) of
           (None, r) \<Rightarrow> s\<lparr>spc := S_Top\<rparr>
         | (Some f, r) \<Rightarrow> s\<lparr>tcp_ring := r, spc := S_Sending f\<rparr>)
    | S_Sending f \<Rightarrow>
        (case send_frame_over_tcp strerror fd f (tcp_send_timeout_ms cfg) (t_send_now t) (t_send t) of
           (FrameBlocked, out, rest) \<Rightarrow> s
         | (FrameSent n, out, rest) \<Rightarrow> on_sent t f n (s\<lparr>tcp_wire := tcp_wire s @ out\<rparr>)
         | (FrameThrew e, out, rest) \<Rightarrow> on_send_error f e (s\<lparr>tcp_wire := tcp_wire s @ out\<rparr>))
    | S_Done \<Rightarrow> s)"

section \<open>Start, interleaving and result\<close>

definition pipeline_guards :: "app_config \<Rightarrow> unit result" where
  "pipeline_guards cfg =
     throw_if (pipeline_frames cfg \<le> 0) (RuntimeError ''Pipeline frame count must be positive'')
     (throw_if (ring_capacity cfg \<le> 0) (RuntimeError ''Ring capacity must be positive'')
     (throw_if (tcp_queue_capacity cfg \<le> 0) (RuntimeError ''TCP queue capacity must be positive'')
     (throw_if (tcp_connect_max_attempts cfg \<le> 0) (RuntimeError ''TCP connect max attempts must be positive'')
     (throw_if (tcp_connect_retry_delay_ms cfg < 0) (RuntimeError ''TCP connect retry delay must be non-negative'')
     (throw_if (tcp_send_timeout_ms cfg \<le> 0) (RuntimeError ''TCP send timeout must be positive'')
     (throw_if (camera_timeout_recovery_threshold cfg \<le> 0 \<or> camera_invalid_frame_recovery_threshold cfg \<le> 0 \<or>
        camera_invalid_frame_recovery_cooldown_frames cfg < 0 \<or> camera_invalid_frame_recovery_max_count cfg \<le> 0 \<or>
        camera_recovery_max_attempts cfg \<le> 0 \<or> camera_recovery_retry_delay_ms cfg < 0)
        (RuntimeError ''Invalid camera recovery configuration'')
     (Inr ())))))))"

text \<open>The state when the threads start: \<open>st\<close> are the statistics after connecting.\<close>

definition start_threads :: "app_config \<Rightarrow> pipeline_stats \<Rightarrow> pipe result" where
  "start_threads cfg st =
     bind_r (pipeline_guards cfg) (\<lambda>_.
     bind_r (RingBuffer empty_frame (nat (ring_capacity cfg))) (\<lambda>r1.
     bind_r (RingBuffer empty_frame (nat (tcp_queue_capacity cfg))) (\<lambda>r2.
     bind_r (CaptureRecoveryController (camera_timeout_recovery_threshold cfg) (camera_recovery_max_attempts cfg)) (\<lambda>rc.
     bind_r (InvalidFrameRecoveryController (camera_invalid_frame_recovery_threshold cfg)
       (camera_invalid_frame_recovery_cooldown_frames cfg) (camera_invalid_frame_recovery_max_count cfg)) (\<lambda>ic.
     Inr \<lparr>capture_ring = r1, tcp_ring = r2, producer_done = False, consumer_done = False, stop_requested = False,
          stats = st, producer_error = None, consumer_error = None, ppc = P_Loop, produced = 0,
          recovery_controller = rc, invalid_frame_controller = ic, cpc = C_Top,
          spc = (if run_tcp_enabled cfg then S_Top else S_Done), captured_log = [], consumed_log = [],
          queued_log = [], sent_log = [], saved_log = [], tcp_wire = [], tcp_failed = None\<rparr>)))))"

datatype thread = Producer | Consumer | Sender

definition thread_step :: "(errno \<Rightarrow> string) \<Rightarrow> int \<Rightarrow> app_config \<Rightarrow> thread \<Rightarrow> tick \<Rightarrow> pipe \<Rightarrow> pipe" where
  "thread_step strerror fd cfg th t s = (case th of
      Producer \<Rightarrow> producer_step cfg t s
    | Consumer \<Rightarrow> consumer_step cfg t s
    | Sender \<Rightarrow> sender_step strerror fd cfg t s)"

definition all_done :: "pipe \<Rightarrow> bool" where
  "all_done s \<longleftrightarrow> ppc s = P_Done \<and> cpc s = C_Done \<and> spc s = S_Done"

text \<open>
  After the joins: the final counters and the exception that leaves \<open>run_pipeline\<close>, if any. \<open>write_error\<close>
  is what writing the statistics file throws.
\<close>

definition final_stats :: "pipe \<Rightarrow> pipeline_stats" where
  "final_stats s = (stats s)\<lparr>
     capture_dropped := dropped_count (capture_ring s), capture_queue_remaining := ring_size (capture_ring s),
     tcp_dropped := dropped_count (tcp_ring s), tcp_queue_remaining := ring_size (tcp_ring s)\<rparr>"

definition pipeline_result :: "exn option \<Rightarrow> pipe \<Rightarrow> exn option" where
  "pipeline_result write_error s =
     (if write_error \<noteq> None then write_error
      else if producer_error s \<noteq> None then producer_error s
      else if consumer_error s \<noteq> None then consumer_error s
      else if tcp_send_errors (final_stats s) > 0
      then Some (RuntimeError (''TCP transmission failed: '' @ stats_last_error (final_stats s)))
      else None)"

section \<open>Reachable states\<close>

text \<open>
  What a step may assume of its environment: the kernel keeps its contract for \<open>send\<close>, and a send call
  that reads the stop flag as set does so because it was set (the flag is never cleared).
\<close>

definition tick_ok :: "(errno \<Rightarrow> string) \<Rightarrow> int \<Rightarrow> app_config \<Rightarrow> thread \<Rightarrow> tick \<Rightarrow> pipe \<Rightarrow> bool" where
  "tick_ok strerror fd cfg th t s \<longleftrightarrow>
     (case spc s of
        S_Sending f \<Rightarrow> th = Sender \<longrightarrow>
          frame_contract strerror fd f (tcp_send_timeout_ms cfg) (t_send_now t) (t_send t) \<and>
          list_all (\<lambda>e. stop_at_top e \<or> stop_after_send e \<longrightarrow> stop_requested s) (t_send t)
      | _ \<Rightarrow> True)"

inductive reachable :: "(errno \<Rightarrow> string) \<Rightarrow> int \<Rightarrow> app_config \<Rightarrow> pipeline_stats \<Rightarrow> pipe \<Rightarrow> bool"
  for strerror fd cfg st where
  start: "start_threads cfg st = Inr s \<Longrightarrow> reachable strerror fd cfg st s"
| step: "reachable strerror fd cfg st s \<Longrightarrow> tick_ok strerror fd cfg th t s \<Longrightarrow>
    reachable strerror fd cfg st (thread_step strerror fd cfg th t s)"

inductive_cases reachable_cases: "reachable strerror fd cfg st s"

section \<open>What a step leaves alone\<close>

lemmas producer_defs = producer_step_def on_frame_def on_decision_def on_capture_error_def on_rebuilt_def
  on_rebuild_failed_def producer_throw_def upd_stats_def count_frame_def count_capture_error_def Let_def

lemmas producer_splits = producer_pc.splits sum.splits exn.splits prod.splits invalid_frame_decision.splits option.splits

lemma on_decision_keeps [simp]:
  "capture_ring (on_decision cfg d s) = capture_ring s" "tcp_ring (on_decision cfg d s) = tcp_ring s"
  "producer_done (on_decision cfg d s) = producer_done s" "consumer_done (on_decision cfg d s) = consumer_done s"
  "stop_requested (on_decision cfg d s) = stop_requested s" "producer_error (on_decision cfg d s) = producer_error s"
  "consumer_error (on_decision cfg d s) = consumer_error s" "produced (on_decision cfg d s) = produced s"
  "cpc (on_decision cfg d s) = cpc s" "spc (on_decision cfg d s) = spc s"
  "captured_log (on_decision cfg d s) = captured_log s" "consumed_log (on_decision cfg d s) = consumed_log s"
  "queued_log (on_decision cfg d s) = queued_log s" "sent_log (on_decision cfg d s) = sent_log s"
  "tcp_wire (on_decision cfg d s) = tcp_wire s" "tcp_failed (on_decision cfg d s) = tcp_failed s"
  "captured (stats (on_decision cfg d s)) = captured (stats s)"
  "recovery_controller (on_decision cfg d s) = recovery_controller s"
  "invalid_frame_controller (on_decision cfg d s) = invalid_frame_controller s"
  by (cases d; simp add: on_decision_def upd_stats_def)+

text \<open>The statistics only the consumer and the sender write.\<close>

definition others_stats :: "pipeline_stats \<Rightarrow> nat list" where
  "others_stats st = [consumed st, invalid st, saved st, tcp_queued st, tcp_sent st, tcp_sent_bytes st,
     tcp_send_errors st, tcp_send_cancellations st]"

lemma count_frame_keeps [simp]:
  "others_stats (count_frame f p st) = others_stats st" "captured (count_frame f p st) = captured st + 1"
  by (simp_all add: count_frame_def others_stats_def Let_def)

lemma count_capture_error_keeps [simp]:
  "others_stats (count_capture_error k st) = others_stats st" "captured (count_capture_error k st) = captured st"
  by (simp_all add: count_capture_error_def others_stats_def)

lemma on_decision_others [simp]: "others_stats (stats (on_decision cfg d s)) = others_stats (stats s)"
  by (cases d; simp add: on_decision_def upd_stats_def others_stats_def)

lemma stats_last_error_others [simp]:
  "others_stats (st\<lparr>stats_last_error := m\<rparr>) = others_stats st"
  "captured (st\<lparr>stats_last_error := m\<rparr>) = captured st"
  by (simp_all add: others_stats_def)

text \<open>A step of the producer is one of these.\<close>

lemma producer_step_cases:
  obtains (frame) f where "ppc s = P_Capture" "t_capture t = Inr f" "producer_step cfg t s = on_frame cfg f s"
  | (error) k n m where "ppc s = P_Capture" "producer_step cfg t s = on_capture_error cfg k n m s"
  | (throw) e where "producer_step cfg t s = producer_throw e s" "ppc s = P_Capture \<or> ppc s = P_Failed \<and> \<not> stop_requested s"
  | (rebuilt) b where "ppc s = P_Init b" "producer_step cfg t s = on_rebuilt b s"
  | (failed) b e where "ppc s = P_Init b" "producer_step cfg t s = on_rebuild_failed b e s"
  | (attempt) b rc where "ppc s = P_Rebuild b" "\<not> stop_requested s" "begin_recovery_attempt (recovery_controller s) = (True, rc)"
      "producer_step cfg t s = upd_stats (\<lambda>st. st\<lparr>camera_recovery_attempts := camera_recovery_attempts st + 1\<rparr>)
         (s\<lparr>recovery_controller := rc, ppc := P_Sleep b (camera_recovery_retry_delay_ms cfg)\<rparr>)"
  | (finish) "ppc s = P_Finish" "producer_step cfg t s = s\<lparr>producer_done := True, ppc := P_Done\<rparr>"
  | (local) pc' where "producer_step cfg t s = s\<lparr>ppc := pc'\<rparr>" "pc' = P_Done \<longleftrightarrow> ppc s = P_Done"
      "pc' = P_Finish \<longrightarrow> stop_requested s \<or> \<not> int (produced s) < pipeline_frames cfg" "pc' \<noteq> P_Capture"
  | (loop) "ppc s = P_Loop" "\<not> stop_requested s" "int (produced s) < pipeline_frames cfg"
      "producer_step cfg t s = s\<lparr>ppc := P_Capture\<rparr>"
proof (cases "ppc s")
  case P_Loop
  show thesis
  proof (cases "int (produced s) < pipeline_frames cfg \<and> \<not> stop_requested s")
    case True
    with P_Loop show thesis by (intro loop) (simp_all add: producer_step_def)
  next
    case False
    with P_Loop show thesis by (intro local [of P_Finish]) (auto simp: producer_step_def)
  qed
next
  case P_Capture
  show thesis
  proof (cases "t_capture t")
    case (Inr f)
    with P_Capture show thesis by (intro frame) (simp_all add: producer_step_def)
  next
    case (Inl e)
    show thesis
    proof (cases e)
      case (CameraCaptureError k n m)
      with P_Capture Inl show thesis by (intro error) (simp_all add: producer_step_def)
    qed (use P_Capture Inl in \<open>auto simp: producer_step_def intro: throw\<close>)
  qed
next
  case (P_Rebuild b)
  obtain ok rc where a: "begin_recovery_attempt (recovery_controller s) = (ok, rc)" by fastforce
  have keep: "rc = recovery_controller s" if "\<not> ok" using a that by (auto simp: begin_recovery_attempt_def split: if_splits)
  show thesis
  proof (cases "stop_requested s \<or> \<not> ok")
    case True
    then have "producer_step cfg t s = s\<lparr>ppc := P_Failed\<rparr>"
      using P_Rebuild a keep by (auto simp: producer_step_def)
    with P_Rebuild show thesis by (intro local [of P_Failed]) simp_all
  next
    case False
    with P_Rebuild a show thesis by (intro attempt [of b rc]) (simp_all add: producer_step_def)
  qed
next
  case (P_Sleep b n)
  consider "stop_requested s" | "\<not> stop_requested s" "n > 0" | "\<not> stop_requested s" "\<not> n > 0" by blast
  then show thesis
  proof cases
    case 1
    with P_Sleep show thesis by (intro local [of P_Failed]) (simp_all add: producer_step_def)
  next
    case 2
    with P_Sleep show thesis by (intro local [of "P_Sleep b (n - min n kSliceMs)"]) (simp_all add: producer_step_def)
  next
    case 3
    with P_Sleep show thesis by (intro local [of "P_Init b"]) (simp_all add: producer_step_def)
  qed
next
  case (P_Init b)
  show thesis
  proof (cases "snd (initialize_pipeline_camera cfg (t_init t))")
    case None
    with P_Init show thesis by (intro rebuilt) (simp_all add: producer_step_def)
  next
    case (Some e)
    with P_Init show thesis by (intro failed) (simp_all add: producer_step_def)
  qed
next
  case P_Failed
  show thesis
  proof (cases "stop_requested s")
    case True
    with P_Failed show thesis by (intro local [of P_Loop]) (simp_all add: producer_step_def)
  next
    case False
    with P_Failed show thesis by (intro throw) (simp_all add: producer_step_def)
  qed
next
  case P_Finish
  then show thesis by (intro finish) (simp_all add: producer_step_def)
next
  case P_Done
  then show thesis by (intro local [of P_Done]) (simp_all add: producer_step_def)
qed

text \<open>A step of the consumer and a step of the sender.\<close>

lemma save_consumed_keeps:
  assumes "save_consumed cfg t f s = (e, s')"
  shows "\<exists>n l. s' = s\<lparr>stats := (stats s)\<lparr>saved := n\<rparr>, saved_log := l\<rparr> \<and> (int (saved (stats s)) \<le> save_limit cfg \<longrightarrow> int n \<le> save_limit cfg)"
proof (cases "pipeline_save cfg \<and> int (saved (stats s)) < save_limit cfg")
  case True
  with assms show ?thesis
    by (intro exI [of _ "saved (stats s) + 1"] exI [of _ "saved_log s'"])
      (auto simp: save_consumed_def upd_stats_def Let_def split: prod.splits)
next
  case False
  with assms have "s' = s" by (auto simp: save_consumed_def)
  then show ?thesis by (intro exI [of _ "saved (stats s)"] exI [of _ "saved_log s"]) simp
qed

lemma consumer_step_cases:
  obtains (skip) f r where "cpc s = C_Pop" "try_pop_oldest moved_frame (capture_ring s) = (Some f, r)" "\<not> is_frame_usable f"
      "consumer_step cfg t s = upd_stats (\<lambda>st. (count_consumed t f st)\<lparr>invalid := invalid st + 1\<rparr>)
         (s\<lparr>capture_ring := r, consumed_log := consumed_log s @ [f], cpc := C_Top\<rparr>)"
  | (take) f r n l where "cpc s = C_Pop" "try_pop_oldest moved_frame (capture_ring s) = (Some f, r)" "is_frame_usable f"
      "int (saved (stats s)) \<le> save_limit cfg \<longrightarrow> int n \<le> save_limit cfg"
      "consumer_step cfg t s = s\<lparr>capture_ring := r, consumed_log := consumed_log s @ [f],
         stats := (count_consumed t f (stats s))\<lparr>saved := n\<rparr>, saved_log := l,
         cpc := (if run_tcp_enabled cfg then C_Queue f else C_Top)\<rparr>"
  | (throw) f r n l e where "cpc s = C_Pop" "try_pop_oldest moved_frame (capture_ring s) = (Some f, r)" "is_frame_usable f"
      "int (saved (stats s)) \<le> save_limit cfg \<longrightarrow> int n \<le> save_limit cfg"
      "consumer_step cfg t s = s\<lparr>capture_ring := r, consumed_log := consumed_log s @ [f],
         stats := (count_consumed t f (stats s))\<lparr>saved := n\<rparr>, saved_log := l,
         consumer_error := Some e, consumer_done := True, cpc := C_ThrowStop\<rparr>"
  | (queue) f where "cpc s = C_Queue f" "consumer_step cfg t s = upd_stats (\<lambda>st. st\<lparr>tcp_queued := tcp_queued st + 1\<rparr>)
          (s\<lparr>tcp_ring := push f (tcp_ring s), queued_log := queued_log s @ [f], cpc := C_Top\<rparr>)"
  | (finish) "cpc s = C_Finish" "consumer_step cfg t s = s\<lparr>consumer_done := True, cpc := C_Done\<rparr>"
  | (stop) "cpc s = C_ThrowStop" "consumer_step cfg t s = s\<lparr>stop_requested := True, cpc := C_Done\<rparr>"
  | (local) pc' where "consumer_step cfg t s = s\<lparr>cpc := pc'\<rparr>" "\<forall>f. cpc s \<noteq> C_Queue f" "\<forall>f. pc' \<noteq> C_Queue f"
      "pc' = C_Done \<longleftrightarrow> cpc s = C_Done" "pc' \<noteq> C_ThrowStop" "cpc s \<noteq> C_ThrowStop" "cpc s \<noteq> C_Finish"
      "pc' = C_CheckEmpty \<longrightarrow> producer_done s"
      "pc' = C_Finish \<longrightarrow> stop_requested s \<or> cpc s = C_CheckEmpty \<and> ring_empty (capture_ring s)"
proof (cases "cpc s")
  case C_Top
  show thesis
  proof (cases "stop_requested s")
    case True
    with C_Top show thesis by (intro local [of C_Finish]) (simp_all add: consumer_step_def)
  next
    case False
    with C_Top show thesis by (intro local [of C_CheckDone]) (simp_all add: consumer_step_def)
  qed
next
  case C_CheckDone
  show thesis
  proof (cases "producer_done s")
    case True
    with C_CheckDone show thesis by (intro local [of C_CheckEmpty]) (simp_all add: consumer_step_def)
  next
    case False
    with C_CheckDone show thesis by (intro local [of C_Pop]) (simp_all add: consumer_step_def)
  qed
next
  case C_CheckEmpty
  show thesis
  proof (cases "ring_empty (capture_ring s)")
    case True
    with C_CheckEmpty show thesis by (intro local [of C_Finish]) (simp_all add: consumer_step_def)
  next
    case False
    with C_CheckEmpty show thesis by (intro local [of C_Pop]) (simp_all add: consumer_step_def)
  qed
next
  case C_Pop
  obtain popped r where pop: "try_pop_oldest moved_frame (capture_ring s) = (popped, r)" by fastforce
  show thesis
  proof (cases popped)
    case None
    with C_Pop pop show thesis by (intro local [of C_Top]) (simp_all add: consumer_step_def)
  next
    case (Some f)
    let ?s = "upd_stats (count_consumed t f) (s\<lparr>capture_ring := r, consumed_log := consumed_log s @ [f]\<rparr>)"
    have st: "consumer_step cfg t s = consume_frame cfg t f (s\<lparr>capture_ring := r\<rparr>)"
      using C_Pop pop Some by (simp add: consumer_step_def)
    show thesis
    proof (cases "is_frame_usable f")
      case False
      with C_Pop pop Some st show thesis
        by (intro skip [of f r]) (simp_all add: consume_frame_def upd_stats_def count_consumed_def)
    next
      case True
      obtain e s' where sv: "save_consumed cfg t f ?s = (e, s')" by fastforce
      from save_consumed_keeps [OF sv] obtain n l where
        s': "s' = ?s\<lparr>stats := (stats ?s)\<lparr>saved := n\<rparr>, saved_log := l\<rparr>" and
        n: "int (saved (stats ?s)) \<le> save_limit cfg \<longrightarrow> int n \<le> save_limit cfg" by blast
      have n': "int (saved (stats s)) \<le> save_limit cfg \<longrightarrow> int n \<le> save_limit cfg"
        using n by (simp add: upd_stats_def count_consumed_def)
      show thesis
      proof (cases e)
        case None
        with C_Pop pop Some True st sv s' n' show thesis
          by (intro take [of f r n l]) (simp_all add: consume_frame_def upd_stats_def)
      next
        case (Some e')
        with C_Pop pop \<open>popped = Some f\<close> True st sv s' n' show thesis
          by (intro throw [of f r n e' l]) (simp_all add: consume_frame_def upd_stats_def consumer_throw_def)
      qed
    qed
  qed
next
  case (C_Queue f)
  then show thesis by (intro queue [of f]) (simp_all add: consumer_step_def)
next
  case C_Finish
  then show thesis by (intro finish) (simp_all add: consumer_step_def)
next
  case C_ThrowStop
  then show thesis by (intro stop) (simp_all add: consumer_step_def)
next
  case C_Done
  then show thesis by (intro local [of C_Done]) (simp_all add: consumer_step_def)
qed

lemma sender_step_cases:
  assumes "0 \<le> fd" and "tick_ok strerror fd cfg Sender t s"
  obtains (pop) f r where "spc s = S_Pop" "try_pop_oldest moved_frame (tcp_ring s) = (Some f, r)"
      "sender_step strerror fd cfg t s = s\<lparr>tcp_ring := r, spc := S_Sending f\<rparr>"
  | (sent) f where "spc s = S_Sending f"
      "sender_step strerror fd cfg t s =
         on_sent t f (length (frame_wire f)) (s\<lparr>tcp_wire := tcp_wire s @ frame_wire f\<rparr>)"
  | (failed) f e out where "spc s = S_Sending f" "strict_prefix out (frame_wire f)"
      "\<And>m. e = SendCancelled m \<Longrightarrow> stop_requested s"
      "sender_step strerror fd cfg t s = on_send_error f e (s\<lparr>tcp_wire := tcp_wire s @ out\<rparr>)"
  | (blocked) "sender_step strerror fd cfg t s = s"
  | (local) pc' where "sender_step strerror fd cfg t s = s\<lparr>spc := pc'\<rparr>" "\<forall>f. spc s \<noteq> S_Sending f" "\<forall>f. pc' \<noteq> S_Sending f"
      "pc' = S_CheckEmpty \<longrightarrow> consumer_done s" "spc s \<noteq> S_Done"
      "pc' = S_Done \<longrightarrow> spc s = S_CheckEmpty \<and> ring_empty (tcp_ring s)"
proof (cases "spc s")
  case S_Top
  show thesis
  proof (cases "consumer_done s")
    case True
    with S_Top show thesis by (intro local [of S_CheckEmpty]) (simp_all add: sender_step_def)
  next
    case False
    with S_Top show thesis by (intro local [of S_Pop]) (simp_all add: sender_step_def)
  qed
next
  case S_CheckEmpty
  show thesis
  proof (cases "ring_empty (tcp_ring s)")
    case True
    with S_CheckEmpty show thesis by (intro local [of S_Done]) (simp_all add: sender_step_def)
  next
    case False
    with S_CheckEmpty show thesis by (intro local [of S_Pop]) (simp_all add: sender_step_def)
  qed
next
  case S_Pop
  obtain popped r where p: "try_pop_oldest moved_frame (tcp_ring s) = (popped, r)" by fastforce
  show thesis
  proof (cases popped)
    case None
    with S_Pop p show thesis by (intro local [of S_Top]) (simp_all add: sender_step_def)
  next
    case (Some f)
    with S_Pop p show thesis by (intro pop) (simp_all add: sender_step_def)
  qed
next
  case (S_Sending f)
  obtain r out rest where send: "send_frame_over_tcp strerror fd f (tcp_send_timeout_ms cfg) (t_send_now t) (t_send t) = (r, out, rest)"
    by (metis prod_cases3)
  have contract: "frame_contract strerror fd f (tcp_send_timeout_ms cfg) (t_send_now t) (t_send t)"
    and stop: "list_all (\<lambda>e. stop_at_top e \<or> stop_after_send e \<longrightarrow> stop_requested s) (t_send t)"
    using assms(2) S_Sending by (simp_all add: tick_ok_def)
  note prefix = frame_send_prefix [OF assms(1) contract send]
  show thesis
  proof (cases r)
    case (FrameSent n)
    with prefix(2) S_Sending send show thesis by (intro sent) (simp_all add: sender_step_def)
  next
    case (FrameThrew e)
    have "stop_requested s" if "e = SendCancelled m" for m
      using send_frame_cancelled [of strerror fd f] send FrameThrew that stop by (fastforce simp: list_all_iff)
    moreover have "strict_prefix out (frame_wire f)" using prefix(1,3) FrameThrew by (auto simp: strict_prefix_def)
    ultimately show thesis using S_Sending send FrameThrew by (intro failed [of f out e]) (simp_all add: sender_step_def)
  next
    case FrameBlocked
    with S_Sending send show thesis by (intro blocked) (simp add: sender_step_def)
  qed
next
  case S_Done
  then show thesis by (intro blocked) (simp add: sender_step_def)
qed

end
