(* ===== verification/Pipeline_Safety.thy ===== *)
theory Pipeline_Safety
  imports Pipeline
begin

text \<open>
  Invariants of the three-thread pipeline and what follows from them: nothing is lost silently between
  the camera and the socket, the bytes on the connection are complete frames in capture order, a normal
  return means that everything was processed, and after a stop request every thread finishes.
\<close>

section \<open>Queue steps\<close>

lemma ring_push_step:
  assumes "ring_wf q"
  shows "ring_wf (push f q)"
    and "length (snapshot (push f q)) + dropped_count (push f q) = length (snapshot q) + dropped_count q + 1"
    and "subseq (xs @ snapshot q) ys \<Longrightarrow> subseq (xs @ snapshot (push f q)) (ys @ [f])"
proof -
  show "ring_wf (push f q)" using assms by (rule rq.wf_enq)
  show "length (snapshot (push f q)) + dropped_count (push f q) = length (snapshot q) + dropped_count q + 1"
    using assms by (rule rq.enq_balance)
  assume sub: "subseq (xs @ snapshot q) ys"
  from assms show "subseq (xs @ snapshot (push f q)) (ys @ [f])"
  proof (cases rule: rq.enq_cases [of q f])
    case room
    with subseq_snoc_trans [OF sub, of f] show ?thesis by simp
  next
    case (full y zs)
    have "subseq (xs @ zs) (xs @ y # zs)" by (intro list_emb_append_mono) auto
    with sub full have "subseq (xs @ zs) ys" using subseq_order.order_trans by metis
    from subseq_snoc_trans [OF this, of f] full show ?thesis by simp
  qed
qed

lemma ring_pop_step:
  assumes "ring_wf q" and "try_pop_oldest moved q = (Some f, r)"
  shows "ring_wf r" and "snapshot q = f # snapshot r" and "dropped_count r = dropped_count q"
    and "rb_size q = Suc (rb_size r)"
proof -
  show "ring_wf r" and s: "snapshot q = f # snapshot r" and "dropped_count r = dropped_count q"
    using assms rq.wf_deq [OF assms(1), of moved] rq.items_deq [OF assms(1), of moved] rq.deq_keeps(1) [OF assms(1), of moved]
    by simp_all
  from arg_cong [OF s, of length] show "rb_size q = Suc (rb_size r)" by simp
qed

section \<open>The capture queue\<close>

definition inv_capture :: "app_config \<Rightarrow> pipe \<Rightarrow> bool" where
  "inv_capture cfg s \<longleftrightarrow>
     ring_wf (capture_ring s) \<and> subseq (consumed_log s @ snapshot (capture_ring s)) (captured_log s) \<and>
     length (captured_log s) =
       length (consumed_log s) + length (snapshot (capture_ring s)) + dropped_count (capture_ring s) \<and>
     captured (stats s) = length (captured_log s) \<and> consumed (stats s) = length (consumed_log s) \<and>
     produced s = length (captured_log s) \<and> int (produced s) \<le> pipeline_frames cfg \<and>
     (ppc s = P_Capture \<longrightarrow> int (produced s) < pipeline_frames cfg)"

lemma others_consumed:
  "others_stats st = others_stats st' \<Longrightarrow> consumed st = consumed st' \<and> invalid st = invalid st' \<and>
     saved st = saved st' \<and> tcp_queued st = tcp_queued st' \<and> tcp_sent st = tcp_sent st' \<and>
     tcp_sent_bytes st = tcp_sent_bytes st' \<and> tcp_send_errors st = tcp_send_errors st'"
  by (simp add: others_stats_def)

text \<open>What the producer never touches, and what it touches only when it has captured a frame.\<close>

definition consumer_view :: "pipe \<Rightarrow>
    frame ring \<times> bool \<times> exn option \<times> consumer_pc \<times> sender_pc \<times> frame list \<times> frame list \<times> frame list \<times> bytes \<times> frame option \<times> nat list" where
  "consumer_view s = (tcp_ring s, consumer_done s, consumer_error s, cpc s, spc s, consumed_log s, queued_log s,
     sent_log s, tcp_wire s, tcp_failed s, others_stats (stats s))"

definition capture_view :: "pipe \<Rightarrow> frame ring \<times> frame list \<times> nat \<times> nat" where
  "capture_view s = (capture_ring s, captured_log s, captured (stats s), produced s)"

lemmas views = consumer_view_def capture_view_def others_stats_def

lemma on_frame_view: "consumer_view (on_frame cfg f s) = consumer_view s"
  by (simp add: on_frame_def consumer_view_def split: prod.split) (simp add: upd_stats_def)

lemma on_capture_error_view:
  "consumer_view (on_capture_error cfg k n m s) = consumer_view s"
  "capture_view (on_capture_error cfg k n m s) = capture_view s"
  by (simp_all add: on_capture_error_def upd_stats_def producer_throw_def Let_def split: prod.split)
    (simp_all add: consumer_view_def capture_view_def)

lemma producer_throw_view:
  "consumer_view (producer_throw e s) = consumer_view s" "capture_view (producer_throw e s) = capture_view s"
  by (simp_all add: producer_throw_def views)

lemma on_rebuilt_view:
  "consumer_view (on_rebuilt b s) = consumer_view s" "capture_view (on_rebuilt b s) = capture_view s"
  by (simp_all add: on_rebuilt_def upd_stats_def views)

lemma on_rebuild_failed_view:
  "consumer_view (on_rebuild_failed b e s) = consumer_view s" "capture_view (on_rebuild_failed b e s) = capture_view s"
  by (simp_all add: on_rebuild_failed_def upd_stats_def views)

lemma ppc_view:
  "consumer_view (s\<lparr>ppc := pc\<rparr>) = consumer_view s" "capture_view (s\<lparr>ppc := pc\<rparr>) = capture_view s"
  "consumer_view (s\<lparr>producer_done := b\<rparr>) = consumer_view s" "capture_view (s\<lparr>producer_done := b\<rparr>) = capture_view s"
  by (simp_all add: views)

lemma attempt_view:
  "consumer_view (upd_stats (\<lambda>st. st\<lparr>camera_recovery_attempts := camera_recovery_attempts st + 1\<rparr>) (s\<lparr>recovery_controller := rc, ppc := pc\<rparr>)) = consumer_view s"
  "capture_view (upd_stats (\<lambda>st. st\<lparr>camera_recovery_attempts := camera_recovery_attempts st + 1\<rparr>) (s\<lparr>recovery_controller := rc, ppc := pc\<rparr>)) = capture_view s"
  by (simp_all add: upd_stats_def views)

lemmas producer_views = on_capture_error_view producer_throw_view on_rebuilt_view on_rebuild_failed_view ppc_view attempt_view

lemma producer_consumer_view: "consumer_view (producer_step cfg t s) = consumer_view s"
  by (cases rule: producer_step_cases [of s t cfg]) (simp_all only: on_frame_view producer_views)

lemma on_frame_fields:
  "capture_ring (on_frame cfg f s) = push f (capture_ring s)" "captured_log (on_frame cfg f s) = captured_log s @ [f]"
  "captured (stats (on_frame cfg f s)) = captured (stats s) + 1" "produced (on_frame cfg f s) = produced s + 1"
  "producer_done (on_frame cfg f s) = producer_done s" "stop_requested (on_frame cfg f s) = stop_requested s"
  "producer_error (on_frame cfg f s) = producer_error s"
  by (simp_all add: on_frame_def upd_stats_def split: prod.split)

lemma on_decision_pc: "ppc (on_decision cfg d s) = P_Loop \<or> ppc (on_decision cfg d s) = P_Rebuild True"
  by (cases d) (simp_all add: on_decision_def upd_stats_def)

lemma on_frame_pc: "ppc (on_frame cfg f s) = P_Loop \<or> ppc (on_frame cfg f s) = P_Rebuild True"
  using on_decision_pc by (simp add: on_frame_def split: prod.split)

lemma on_capture_error_pc: "ppc (on_capture_error cfg k n m s) \<in> {P_Loop, P_Finish, P_Rebuild False}"
  by (simp add: on_capture_error_def producer_throw_def Let_def split: prod.split)

text \<open>How the producer changes the flags.\<close>

lemma producer_pc:
  assumes "ppc (producer_step cfg t s) = P_Capture"
  shows "int (produced s) < pipeline_frames cfg"
proof (cases rule: producer_step_cases [of s t cfg])
  case (frame f)
  with assms on_frame_pc [of cfg f s] show ?thesis by auto
next
  case (error k n m)
  with assms on_capture_error_pc [of cfg k n m s] show ?thesis by auto
qed (use assms in \<open>simp_all add: producer_throw_def on_rebuilt_def on_rebuild_failed_def upd_stats_def\<close>)

lemma inv_capture_producer:
  assumes "inv_capture cfg s"
  shows "inv_capture cfg (producer_step cfg t s)"
proof (cases "\<exists>f. producer_step cfg t s = on_frame cfg f s \<and> ppc s = P_Capture")
  case True
  then obtain f where step: "producer_step cfg t s = on_frame cfg f s" and pc: "ppc s = P_Capture" by blast
  have wf: "ring_wf (capture_ring s)" using assms by (simp add: inv_capture_def)
  have "consumed_log (on_frame cfg f s) = consumed_log s" "consumed (stats (on_frame cfg f s)) = consumed (stats s)"
    using on_frame_view [of cfg f s] by (simp_all add: views)
  moreover have "ppc (on_frame cfg f s) \<noteq> P_Capture" using on_frame_pc [of cfg f s] by auto
  ultimately show ?thesis
    using assms pc ring_push_step [OF wf] unfolding step by (auto simp: inv_capture_def on_frame_fields)
next
  case False
  have "capture_view (producer_step cfg t s) = capture_view s"
    using False by (cases rule: producer_step_cases [of s t cfg]) (auto simp only: producer_views)
  then have "capture_ring (producer_step cfg t s) = capture_ring s" "captured_log (producer_step cfg t s) = captured_log s"
    "captured (stats (producer_step cfg t s)) = captured (stats s)" "produced (producer_step cfg t s) = produced s"
    by (simp_all add: capture_view_def)
  moreover have "consumed_log (producer_step cfg t s) = consumed_log s" "consumed (stats (producer_step cfg t s)) = consumed (stats s)"
    using producer_consumer_view [of cfg t s] by (simp_all add: views)
  ultimately show ?thesis using assms producer_pc [of cfg t s] by (simp add: inv_capture_def)
qed

lemma count_consumed_fields [simp]:
  "consumed (count_consumed t f st) = consumed st + 1" "captured (count_consumed t f st) = captured st"
  "invalid (count_consumed t f st) = invalid st" "saved (count_consumed t f st) = saved st"
  "tcp_queued (count_consumed t f st) = tcp_queued st" "tcp_sent (count_consumed t f st) = tcp_sent st"
  "tcp_sent_bytes (count_consumed t f st) = tcp_sent_bytes st" "tcp_send_errors (count_consumed t f st) = tcp_send_errors st"
  by (simp_all add: count_consumed_def)

lemma inv_capture_pop:
  assumes "inv_capture cfg s" and "try_pop_oldest moved_frame (capture_ring s) = (Some f, r)"
    and "capture_ring s' = r" "consumed_log s' = consumed_log s @ [f]" "captured_log s' = captured_log s"
    and "captured (stats s') = captured (stats s)" "consumed (stats s') = consumed (stats s) + 1"
    and "produced s' = produced s" "ppc s' = ppc s"
  shows "inv_capture cfg s'"
  using assms ring_pop_step [of "capture_ring s" moved_frame f r] by (auto simp: inv_capture_def)

lemma inv_capture_consumer:
  assumes "inv_capture cfg s"
  shows "inv_capture cfg (consumer_step cfg t s)"
proof (cases rule: consumer_step_cases [of s cfg t])
  case (skip f r)
  then show ?thesis by (intro inv_capture_pop [OF assms, of f r]) (simp_all add: upd_stats_def)
next
  case (take f r n l)
  then show ?thesis by (intro inv_capture_pop [OF assms, of f r]) simp_all
next
  case (throw f r n l e)
  then show ?thesis by (intro inv_capture_pop [OF assms, of f r]) simp_all
qed (use assms in \<open>auto simp: inv_capture_def upd_stats_def\<close>)

text \<open>What the sender never touches.\<close>

definition sender_frame :: "pipe \<Rightarrow> pipe \<Rightarrow> bool" where
  "sender_frame s s' \<longleftrightarrow>
     capture_ring s' = capture_ring s \<and> producer_done s' = producer_done s \<and> consumer_done s' = consumer_done s \<and>
     producer_error s' = producer_error s \<and> consumer_error s' = consumer_error s \<and> ppc s' = ppc s \<and>
     produced s' = produced s \<and> cpc s' = cpc s \<and> captured_log s' = captured_log s \<and> consumed_log s' = consumed_log s \<and>
     queued_log s' = queued_log s \<and> captured (stats s') = captured (stats s) \<and> consumed (stats s') = consumed (stats s) \<and>
     invalid (stats s') = invalid (stats s) \<and> tcp_queued (stats s') = tcp_queued (stats s) \<and>
     saved (stats s') = saved (stats s) \<and> (stop_requested s \<longrightarrow> stop_requested s')"

lemma sender_keeps:
  assumes "0 \<le> fd" and "tick_ok strerror fd cfg Sender t s"
  shows "sender_frame s (sender_step strerror fd cfg t s)"
  using assms
proof (cases rule: sender_step_cases)
  case (failed f e out)
  then show ?thesis by (cases e) (simp_all add: sender_frame_def on_send_error_def upd_stats_def)
qed (simp_all add: sender_frame_def on_sent_def upd_stats_def)

lemma inv_capture_sender:
  assumes "inv_capture cfg s" and "sender_frame s s'"
  shows "inv_capture cfg s'"
  using assms by (auto simp: inv_capture_def sender_frame_def)

section \<open>From the consumer to the TCP queue\<close>

definition in_hand :: "consumer_pc \<Rightarrow> frame list" where
  "in_hand pc = (case pc of C_Queue f \<Rightarrow> [f] | _ \<Rightarrow> [])"

definition inv_consume :: "app_config \<Rightarrow> pipe \<Rightarrow> bool" where
  "inv_consume cfg s \<longleftrightarrow>
     invalid (stats s) = length (filter (\<lambda>f. \<not> is_frame_usable f) (consumed_log s)) \<and>
     tcp_queued (stats s) = length (queued_log s) \<and>
     (consumer_error s \<noteq> None \<longrightarrow> cpc s \<in> {C_ThrowStop, C_Done}) \<and>
     (if \<not> run_tcp_enabled cfg then queued_log s = [] \<and> in_hand (cpc s) = []
      else if consumer_error s = None then queued_log s @ in_hand (cpc s) = filter is_frame_usable (consumed_log s)
      else prefix (queued_log s) (filter is_frame_usable (consumed_log s)))"

lemma inv_consume_producer:
  assumes "inv_consume cfg s"
  shows "inv_consume cfg (producer_step cfg t s)"
  using assms producer_consumer_view [of cfg t s] by (simp add: inv_consume_def views)

lemma inv_consume_sender:
  assumes "inv_consume cfg s" and "sender_frame s s'"
  shows "inv_consume cfg s'"
  using assms by (auto simp: inv_consume_def sender_frame_def)

lemma inv_consume_consumer:
  assumes "inv_consume cfg s"
  shows "inv_consume cfg (consumer_step cfg t s)"
proof (cases rule: consumer_step_cases [of s cfg t])
  case (skip f r)
  with assms show ?thesis by (auto simp: inv_consume_def upd_stats_def in_hand_def)
next
  case (take f r n l)
  with assms show ?thesis by (auto simp: inv_consume_def in_hand_def)
next
  case (throw f r n l e)
  with assms show ?thesis by (auto simp: inv_consume_def in_hand_def)
next
  case (queue f)
  then have h: "in_hand (cpc s) = [f]" by (simp add: in_hand_def)
  with assms have "run_tcp_enabled cfg" "consumer_error s = None"
    using queue(1) by (auto simp: inv_consume_def split: if_splits)
  moreover from this assms h have "filter is_frame_usable (consumed_log s) = queued_log s @ [f]"
    by (simp add: inv_consume_def)
  ultimately show ?thesis using assms queue by (simp add: inv_consume_def upd_stats_def in_hand_def)
next
  case finish
  with assms show ?thesis by (auto simp: inv_consume_def in_hand_def)
next
  case stop
  with assms show ?thesis by (auto simp: inv_consume_def in_hand_def)
next
  case (local pc')
  then have "in_hand pc' = []" "in_hand (cpc s) = []" by (auto simp: in_hand_def split: consumer_pc.splits)
  with local assms show ?thesis by (auto simp: inv_consume_def)
qed

section \<open>From the TCP queue to the connection\<close>

definition outgoing :: "pipe \<Rightarrow> frame list" where
  "outgoing s = (case spc s of S_Sending f \<Rightarrow> [f] | _ \<Rightarrow> []) @ (case tcp_failed s of None \<Rightarrow> [] | Some f \<Rightarrow> [f])"

definition wire_ok :: "pipe \<Rightarrow> bool" where
  "wire_ok s \<longleftrightarrow> (\<exists>part. tcp_wire s = concat (map frame_wire (sent_log s)) @ part \<and>
     (case tcp_failed s of None \<Rightarrow> part = [] | Some f \<Rightarrow> strict_prefix part (frame_wire f)))"

definition inv_send :: "pipe \<Rightarrow> bool" where
  "inv_send s \<longleftrightarrow>
     ring_wf (tcp_ring s) \<and> subseq ((sent_log s @ outgoing s) @ snapshot (tcp_ring s)) (queued_log s) \<and>
     length (queued_log s) =
       length (sent_log s @ outgoing s) + length (snapshot (tcp_ring s)) + dropped_count (tcp_ring s) \<and>
     tcp_sent (stats s) = length (sent_log s) \<and>
     tcp_sent_bytes (stats s) = (\<Sum>f\<leftarrow>sent_log s. length (frame_wire f)) \<and>
     wire_ok s \<and> (tcp_failed s \<noteq> None \<longrightarrow> spc s = S_Done)"

lemma inv_send_producer:
  assumes "inv_send s"
  shows "inv_send (producer_step cfg t s)"
  using assms producer_consumer_view [of cfg t s] by (simp add: inv_send_def outgoing_def wire_ok_def views)

lemma inv_send_consumer:
  assumes "inv_send s"
  shows "inv_send (consumer_step cfg t s)"
proof (cases rule: consumer_step_cases [of s cfg t])
  case (queue f)
  have wf: "ring_wf (tcp_ring s)" using assms by (simp add: inv_send_def)
  have out: "outgoing (consumer_step cfg t s) = outgoing s" using queue by (simp add: outgoing_def upd_stats_def)
  show ?thesis
    using assms ring_push_step(1,2) [OF wf, of f] ring_push_step(3) [OF wf, of "sent_log s @ outgoing s" "queued_log s" f]
    unfolding inv_send_def out by (simp add: queue upd_stats_def wire_ok_def)
qed (use assms in \<open>simp_all add: inv_send_def outgoing_def wire_ok_def upd_stats_def\<close>)

lemma inv_send_sender:
  assumes "inv_send s" and "0 \<le> fd" and "tick_ok strerror fd cfg Sender t s"
  shows "inv_send (sender_step strerror fd cfg t s)"
  using assms(2,3)
proof (cases rule: sender_step_cases)
  case (pop f r)
  have "tcp_failed s = None" using assms(1) pop(1) by (auto simp: inv_send_def)
  with assms(1) pop ring_pop_step [of "tcp_ring s" moved_frame f r] show ?thesis
    by (simp add: inv_send_def outgoing_def wire_ok_def)
next
  case (sent f)
  have "tcp_failed s = None" using assms(1) sent(1) by (auto simp: inv_send_def)
  with assms(1) sent show ?thesis
    by (simp add: inv_send_def outgoing_def wire_ok_def on_sent_def upd_stats_def)
next
  case (failed f e out)
  have none: "tcp_failed s = None" using assms(1) failed(1) by (auto simp: inv_send_def)
  have w: "tcp_wire s = concat (map frame_wire (sent_log s))" using assms(1) none by (simp add: inv_send_def wire_ok_def)
  let ?s = "sender_step strerror fd cfg t s"
  have "tcp_ring ?s = tcp_ring s" "sent_log ?s = sent_log s" "queued_log ?s = queued_log s" "tcp_failed ?s = Some f"
    "spc ?s = S_Done" "tcp_wire ?s = tcp_wire s @ out" "tcp_sent (stats ?s) = tcp_sent (stats s)"
    "tcp_sent_bytes (stats ?s) = tcp_sent_bytes (stats s)"
    unfolding failed(4) by (cases e; simp add: on_send_error_def upd_stats_def)+
  with assms(1) failed(1,2) none w show ?thesis by (auto simp: inv_send_def outgoing_def wire_ok_def)
next
  case blocked
  with assms(1) show ?thesis by simp
next
  case (local pc')
  then have "tcp_failed s = None" using assms(1) by (auto simp: inv_send_def)
  with local assms(1) show ?thesis
    by (auto simp: inv_send_def outgoing_def wire_ok_def split: sender_pc.splits)
qed

section \<open>Flags and program counters\<close>

definition flags_producer :: "app_config \<Rightarrow> pipe \<Rightarrow> bool" where
  "flags_producer cfg s \<longleftrightarrow>
     (producer_done s \<longleftrightarrow> ppc s = P_Done) \<and>
     (ppc s = P_Finish \<or> ppc s = P_Done \<longrightarrow> stop_requested s \<or> pipeline_frames cfg \<le> int (produced s))"

definition flags_consumer :: "pipe \<Rightarrow> bool" where
  "flags_consumer s \<longleftrightarrow>
     (consumer_done s \<longleftrightarrow> cpc s = C_ThrowStop \<or> cpc s = C_Done) \<and>
     (cpc s = C_ThrowStop \<longrightarrow> consumer_error s \<noteq> None) \<and> (cpc s = C_CheckEmpty \<longrightarrow> producer_done s) \<and>
     (cpc s = C_Finish \<or> cpc s = C_Done \<longrightarrow> stop_requested s \<or> producer_done s \<and> rb_size (capture_ring s) = 0)"

definition flags_stop :: "pipe \<Rightarrow> bool" where
  "flags_stop s \<longleftrightarrow>
     (stop_requested s \<longrightarrow>
        producer_error s \<noteq> None \<or> consumer_error s \<noteq> None \<or> 0 < tcp_send_errors (stats s)) \<and>
     (tcp_failed s \<noteq> None \<longrightarrow> stop_requested s)"

definition flags_sender :: "app_config \<Rightarrow> pipe \<Rightarrow> bool" where
  "flags_sender cfg s \<longleftrightarrow>
     (spc s = S_CheckEmpty \<longrightarrow> consumer_done s) \<and>
     (spc s = S_Done \<and> run_tcp_enabled cfg \<longrightarrow>
        tcp_failed s \<noteq> None \<or> consumer_done s \<and> rb_size (tcp_ring s) = 0)"

definition inv_flags :: "app_config \<Rightarrow> pipe \<Rightarrow> bool" where
  "inv_flags cfg s \<longleftrightarrow> flags_producer cfg s \<and> flags_consumer s \<and> flags_stop s \<and> flags_sender cfg s"

text \<open>The producer's own flags, over any of its steps.\<close>

definition producer_flags_ok :: "app_config \<Rightarrow> pipe \<Rightarrow> pipe \<Rightarrow> bool" where
  "producer_flags_ok cfg s s' \<longleftrightarrow>
     (producer_done s' \<longleftrightarrow> ppc s' = P_Done) \<and>
     (ppc s' = P_Finish \<or> ppc s' = P_Done \<longrightarrow> stop_requested s' \<or> pipeline_frames cfg \<le> int (produced s')) \<and>
     (stop_requested s \<longrightarrow> stop_requested s') \<and> (stop_requested s' \<longrightarrow> stop_requested s \<or> producer_error s' \<noteq> None) \<and>
     (producer_error s \<noteq> None \<longrightarrow> producer_error s' \<noteq> None) \<and> (producer_done s \<longrightarrow> s' = s)"

lemma on_capture_error_flags:
  "producer_done (on_capture_error cfg k n m s) = producer_done s"
  "produced (on_capture_error cfg k n m s) = produced s"
  "ppc (on_capture_error cfg k n m s) \<noteq> P_Done"
  "if ppc (on_capture_error cfg k n m s) = P_Finish
   then stop_requested (on_capture_error cfg k n m s) \<and> producer_error (on_capture_error cfg k n m s) \<noteq> None
   else stop_requested (on_capture_error cfg k n m s) = stop_requested s \<and>
        producer_error (on_capture_error cfg k n m s) = producer_error s"
  by (simp_all add: on_capture_error_def producer_throw_def upd_stats_def Let_def split: prod.split)

lemma producer_flags:
  assumes "producer_done s \<longleftrightarrow> ppc s = P_Done"
    and "ppc s = P_Finish \<or> ppc s = P_Done \<longrightarrow> stop_requested s \<or> pipeline_frames cfg \<le> int (produced s)"
  shows "producer_flags_ok cfg s (producer_step cfg t s)"
proof (cases rule: producer_step_cases [of s t cfg])
  case (frame f)
  then show ?thesis using assms on_frame_pc [of cfg f s] by (auto simp: producer_flags_ok_def on_frame_fields)
next
  case (error k n m)
  have "\<not> producer_done s" using assms(1) error(1) by simp
  with on_capture_error_flags [of cfg k n m s] show ?thesis
    unfolding error(2) producer_flags_ok_def by (auto split: if_splits)
next
  case (throw e)
  have "\<not> producer_done s" using assms(1) throw(2) by auto
  then show ?thesis unfolding throw(1) by (simp add: producer_flags_ok_def producer_throw_def)
next
  case (rebuilt b)
  have "\<not> producer_done s" using assms(1) rebuilt(1) by simp
  then show ?thesis unfolding rebuilt(2) by (simp add: producer_flags_ok_def on_rebuilt_def upd_stats_def)
next
  case (failed b e)
  have "\<not> producer_done s" using assms(1) failed(1) by simp
  then show ?thesis unfolding failed(2) by (simp add: producer_flags_ok_def on_rebuild_failed_def upd_stats_def)
next
  case (attempt b rc)
  have "\<not> producer_done s" using assms(1) attempt(1) by simp
  then show ?thesis unfolding attempt(4) by (simp add: producer_flags_ok_def upd_stats_def)
next
  case finish
  have "\<not> producer_done s" using assms(1) finish(1) by simp
  with assms(2) finish(1) show ?thesis unfolding finish(2) by (simp add: producer_flags_ok_def)
next
  case (local pc')
  show ?thesis
  proof (cases "ppc s = P_Done")
    case True
    then have "producer_step cfg t s = s" by (simp add: producer_step_def)
    with assms True show ?thesis by (simp add: producer_flags_ok_def)
  next
    case False
    with assms(1) local(2,3) show ?thesis unfolding local(1) by (auto simp: producer_flags_ok_def)
  qed
next
  case loop
  have "\<not> producer_done s" using assms(1) loop(1) by simp
  then show ?thesis unfolding loop(4) by (simp add: producer_flags_ok_def)
qed

lemma inv_flags_producer:
  assumes "inv_flags cfg s"
  shows "inv_flags cfg (producer_step cfg t s)"
proof -
  let ?s = "producer_step cfg t s"
  have f: "producer_flags_ok cfg s ?s"
    using assms by (intro producer_flags) (simp_all add: inv_flags_def flags_producer_def)
  have v: "tcp_ring ?s = tcp_ring s" "consumer_done ?s = consumer_done s" "consumer_error ?s = consumer_error s"
    "cpc ?s = cpc s" "spc ?s = spc s" "tcp_failed ?s = tcp_failed s" "tcp_send_errors (stats ?s) = tcp_send_errors (stats s)"
    using producer_consumer_view [of cfg t s] by (simp_all add: views)
  show ?thesis
  proof (cases "producer_done s")
    case True
    with f assms show ?thesis by (simp add: producer_flags_ok_def)
  next
    case False
    have "flags_producer cfg ?s" using f by (simp add: producer_flags_ok_def flags_producer_def)
    moreover have "flags_consumer ?s"
      using assms f False by (auto simp: inv_flags_def flags_consumer_def producer_flags_ok_def v)
    moreover have "flags_stop ?s" using assms f by (auto simp: inv_flags_def flags_stop_def producer_flags_ok_def v)
    moreover have "flags_sender cfg ?s" using assms by (simp add: inv_flags_def flags_sender_def v)
    ultimately show ?thesis by (simp add: inv_flags_def)
  qed
qed

lemma flags_producer_consumer:
  assumes "flags_producer cfg s"
  shows "flags_producer cfg (consumer_step cfg t s)"
  by (cases rule: consumer_step_cases [of s cfg t]) (use assms in \<open>auto simp: flags_producer_def upd_stats_def\<close>)

lemma flags_consumer_consumer:
  assumes "flags_consumer s"
  shows "flags_consumer (consumer_step cfg t s)"
  by (cases rule: consumer_step_cases [of s cfg t])
    (use assms in \<open>auto simp: flags_consumer_def upd_stats_def ring_empty_def\<close>)

lemma flags_stop_consumer:
  assumes "flags_stop s" and "flags_consumer s"
  shows "flags_stop (consumer_step cfg t s)"
  by (cases rule: consumer_step_cases [of s cfg t])
    (use assms in \<open>auto simp: flags_consumer_def flags_stop_def upd_stats_def\<close>)

lemma flags_sender_consumer:
  assumes "flags_sender cfg s" and "flags_consumer s"
  shows "flags_sender cfg (consumer_step cfg t s)"
  by (cases rule: consumer_step_cases [of s cfg t])
    (use assms in \<open>auto simp: flags_consumer_def flags_sender_def upd_stats_def\<close>)

lemma inv_flags_consumer: "inv_flags cfg s \<Longrightarrow> inv_flags cfg (consumer_step cfg t s)"
  by (simp add: inv_flags_def flags_producer_consumer flags_consumer_consumer flags_stop_consumer flags_sender_consumer)

lemma inv_flags_sender:
  assumes "inv_flags cfg s" and "0 \<le> fd" and "tick_ok strerror fd cfg Sender t s"
  shows "inv_flags cfg (sender_step strerror fd cfg t s)"
proof -
  let ?s = "sender_step strerror fd cfg t s"
  have fr: "sender_frame s ?s" using assms(2,3) by (rule sender_keeps)
  have "flags_producer cfg ?s" using assms(1) fr by (auto simp: inv_flags_def flags_producer_def sender_frame_def)
  moreover have "flags_consumer ?s" using assms(1) fr by (auto simp: inv_flags_def flags_consumer_def sender_frame_def)
  moreover have "flags_stop ?s \<and> flags_sender cfg ?s"
    using assms(2,3)
  proof (cases rule: sender_step_cases)
    case (failed f e out)
    have "stop_requested ?s \<and> (stop_requested s \<or> 0 < tcp_send_errors (stats ?s)) \<and>
        tcp_send_errors (stats s) \<le> tcp_send_errors (stats ?s) \<and> tcp_failed ?s = Some f \<and> spc ?s = S_Done"
      using failed(3) unfolding failed(4) by (cases e) (auto simp: on_send_error_def upd_stats_def)
    with assms(1) fr show ?thesis by (auto simp: inv_flags_def flags_stop_def flags_sender_def sender_frame_def)
  qed (use assms(1) in \<open>auto simp: inv_flags_def flags_stop_def flags_sender_def on_sent_def upd_stats_def ring_empty_def\<close>)
  ultimately show ?thesis by (simp add: inv_flags_def)
qed

section \<open>All reachable states\<close>

definition pipe_inv :: "app_config \<Rightarrow> pipe \<Rightarrow> bool" where
  "pipe_inv cfg s \<longleftrightarrow> inv_capture cfg s \<and> inv_consume cfg s \<and> inv_send s \<and> inv_flags cfg s"

definition fresh_stats :: "pipeline_stats \<Rightarrow> bool" where
  "fresh_stats st \<longleftrightarrow> captured st = 0 \<and> consumed st = 0 \<and> invalid st = 0 \<and> tcp_queued st = 0 \<and> tcp_sent st = 0 \<and>
     tcp_sent_bytes st = 0 \<and> tcp_send_errors st = 0"

lemma start_inv:
  assumes "start_threads cfg st = Inr s" and "fresh_stats st"
  shows "pipe_inv cfg s"
proof -
  from assms(1) obtain r1 r2 rc ic where g: "pipeline_guards cfg = Inr ()"
    and r1: "RingBuffer empty_frame (nat (ring_capacity cfg)) = Inr r1"
    and r2: "RingBuffer empty_frame (nat (tcp_queue_capacity cfg)) = Inr r2"
    and s: "s = \<lparr>capture_ring = r1, tcp_ring = r2, producer_done = False, consumer_done = False, stop_requested = False,
          stats = st, producer_error = None, consumer_error = None, ppc = P_Loop, produced = 0,
          recovery_controller = rc, invalid_frame_controller = ic, cpc = C_Top,
          spc = (if run_tcp_enabled cfg then S_Top else S_Done), captured_log = [], consumed_log = [],
          queued_log = [], sent_log = [], saved_log = [], tcp_wire = [], tcp_failed = None\<rparr>"
    by (auto simp: start_threads_def)
  have f: "0 < pipeline_frames cfg" using g by (simp add: pipeline_guards_def)
  note wf = ring_wf_RingBuffer [OF r1] ring_wf_RingBuffer [OF r2]
  have e: "snapshot r1 = []" "snapshot r2 = []" "dropped_count r1 = 0" "dropped_count r2 = 0" "rb_size r1 = 0" "rb_size r2 = 0"
    using RingBuffer_fields [OF r1] RingBuffer_fields [OF r2] length_snapshot [of r1] length_snapshot [of r2] by auto
  show ?thesis
    using assms(2) f wf e
    by (simp add: pipe_inv_def inv_capture_def inv_consume_def inv_send_def inv_flags_def flags_producer_def
        flags_consumer_def flags_stop_def flags_sender_def wire_ok_def outgoing_def
        in_hand_def fresh_stats_def s)
qed

lemma reachable_inv:
  assumes "reachable strerror fd cfg st s" and "0 \<le> fd" and "fresh_stats st"
  shows "pipe_inv cfg s"
  using assms(1)
proof induction
  case (start s)
  then show ?case using assms(3) by (rule start_inv)
next
  case (step s th t)
  show ?case
  proof (cases th)
    case Producer
    with step.IH show ?thesis
      by (simp add: pipe_inv_def thread_step_def inv_capture_producer inv_consume_producer inv_send_producer inv_flags_producer)
  next
    case Consumer
    with step.IH show ?thesis
      by (simp add: pipe_inv_def thread_step_def inv_capture_consumer inv_consume_consumer inv_send_consumer inv_flags_consumer)
  next
    case Sender
    with step have ok: "tick_ok strerror fd cfg Sender t s" by simp
    note keep = sender_keeps [OF assms(2) ok]
    from step.IH Sender show ?thesis
      using inv_capture_sender [OF _ keep] inv_consume_sender [OF _ keep] inv_send_sender [OF _ assms(2) ok]
        inv_flags_sender [OF _ assms(2) ok]
      by (simp add: pipe_inv_def thread_step_def)
  qed
qed

end
