(* ===== verification/Pipeline_Runs.thy ===== *)
theory Pipeline_Runs
  imports Pipeline_Safety
begin

text \<open>
  Runs of the pipeline: a schedule lists which thread moves next and what its environment answers. The
  theory shows that a stop request ends the producer and the consumer within a fixed number of their own
  steps and that the sender drains its queue, and states the properties of \<open>run_pipeline\<close> with a complete
  concrete run.
\<close>

section \<open>Schedules\<close>

type_synonym schedule = "(thread \<times> tick) list"

fun run_schedule :: "(errno \<Rightarrow> string) \<Rightarrow> int \<Rightarrow> app_config \<Rightarrow> schedule \<Rightarrow> pipe \<Rightarrow> pipe" where
  "run_schedule strerror fd cfg [] s = s"
| "run_schedule strerror fd cfg ((th, t) # sch) s =
     run_schedule strerror fd cfg sch (thread_step strerror fd cfg th t s)"

fun schedule_ok :: "(errno \<Rightarrow> string) \<Rightarrow> int \<Rightarrow> app_config \<Rightarrow> schedule \<Rightarrow> pipe \<Rightarrow> bool" where
  "schedule_ok strerror fd cfg [] s \<longleftrightarrow> True"
| "schedule_ok strerror fd cfg ((th, t) # sch) s \<longleftrightarrow>
     tick_ok strerror fd cfg th t s \<and> schedule_ok strerror fd cfg sch (thread_step strerror fd cfg th t s)"

definition steps_of :: "thread \<Rightarrow> schedule \<Rightarrow> nat" where
  "steps_of th sch = length (filter (\<lambda>p. fst p = th) sch)"

lemma steps_of_simps [simp]:
  "steps_of th [] = 0" "steps_of th (p # sch) = (if fst p = th then Suc (steps_of th sch) else steps_of th sch)"
  by (simp_all add: steps_of_def)

lemma reachable_schedule:
  "reachable strerror fd cfg st s \<Longrightarrow> schedule_ok strerror fd cfg sch s \<Longrightarrow>
   reachable strerror fd cfg st (run_schedule strerror fd cfg sch s)"
  by (induction strerror fd cfg sch s rule: schedule_ok.induct) (simp_all add: reachable.step)

section \<open>The stop request\<close>

text \<open>How many of its own steps a stopped thread still makes at most.\<close>

fun producer_rank :: "producer_pc \<Rightarrow> nat" where
  "producer_rank P_Done = 0"
| "producer_rank P_Finish = 1"
| "producer_rank P_Loop = 2"
| "producer_rank P_Failed = 3"
| "producer_rank (P_Rebuild b) = 4"
| "producer_rank (P_Sleep b n) = 4"
| "producer_rank (P_Init b) = 5"
| "producer_rank P_Capture = 5"

fun consumer_rank :: "consumer_pc \<Rightarrow> nat" where
  "consumer_rank C_Done = 0"
| "consumer_rank C_Finish = 1"
| "consumer_rank C_ThrowStop = 1"
| "consumer_rank C_Top = 2"
| "consumer_rank (C_Queue f) = 3"
| "consumer_rank C_Pop = 4"
| "consumer_rank C_CheckEmpty = 5"
| "consumer_rank C_CheckDone = 6"

lemma rank_bounds: "producer_rank pc \<le> 5" "consumer_rank pc' \<le> 6"
  by (cases pc; simp) (cases pc'; simp)

lemma rank_zero: "producer_rank pc = 0 \<longleftrightarrow> pc = P_Done" "consumer_rank pc' = 0 \<longleftrightarrow> pc' = C_Done"
  by (cases pc; simp) (cases pc'; simp)

lemma capture_pc:
  assumes "ppc s = P_Capture"
  shows "ppc (producer_step cfg t s) \<in> {P_Loop, P_Rebuild True, P_Rebuild False, P_Finish}"
proof (cases "t_capture t")
  case (Inl e)
  show ?thesis
  proof (cases e)
    case (CameraCaptureError k n m)
    with assms Inl on_capture_error_pc [of cfg k n m s] show ?thesis by (auto simp: producer_step_def)
  qed (use assms Inl in \<open>simp_all add: producer_step_def producer_throw_def\<close>)
next
  case (Inr f)
  with assms on_frame_pc [of cfg f s] show ?thesis by (auto simp: producer_step_def)
qed

lemma producer_rank_step:
  assumes "stop_requested s"
  shows "producer_rank (ppc (producer_step cfg t s)) \<le> producer_rank (ppc s) - 1"
proof (cases "ppc s = P_Capture")
  case True
  with capture_pc [OF True, of cfg t] show ?thesis by auto
next
  case False
  with assms show ?thesis
    by (cases "ppc s") (simp_all add: producer_step_def on_rebuilt_def on_rebuild_failed_def upd_stats_def split: option.split)
qed

lemma consumer_rank_step:
  assumes "stop_requested s"
  shows "consumer_rank (cpc (consumer_step cfg t s)) \<le> consumer_rank (cpc s) - 1"
  using assms
  by (cases "cpc s")
    (auto simp: consumer_step_def consume_frame_def consumer_throw_def upd_stats_def Let_def
      split: prod.splits option.splits)

lemma producer_stop:
  assumes "stop_requested s"
  shows "stop_requested (producer_step cfg t s)"
proof (cases rule: producer_step_cases [of s t cfg])
  case (error k n m)
  with on_capture_error_flags(4) [of cfg k n m s] assms show ?thesis by (auto split: if_splits)
qed (use assms in \<open>simp_all add: on_frame_fields producer_throw_def on_rebuilt_def on_rebuild_failed_def upd_stats_def\<close>)

lemma consumer_stop: "stop_requested s \<Longrightarrow> stop_requested (consumer_step cfg t s)"
  by (cases rule: consumer_step_cases [of s cfg t]) (simp_all add: upd_stats_def)

lemma consumer_keeps_pcs: "ppc (consumer_step cfg t s) = ppc s" "spc (consumer_step cfg t s) = spc s"
  by (cases rule: consumer_step_cases [of s cfg t]; simp add: upd_stats_def)+

lemma producer_keeps_pcs: "cpc (producer_step cfg t s) = cpc s" "spc (producer_step cfg t s) = spc s"
  using producer_consumer_view [of cfg t s] by (simp_all add: consumer_view_def)

lemma on_send_error_keeps:
  "ppc (on_send_error f e s) = ppc s" "cpc (on_send_error f e s) = cpc s" "spc (on_send_error f e s) = S_Done"
  "consumer_done (on_send_error f e s) = consumer_done s" "tcp_ring (on_send_error f e s) = tcp_ring s"
  "stop_requested s \<Longrightarrow> stop_requested (on_send_error f e s)"
  by (cases e; simp add: on_send_error_def upd_stats_def)+

lemma sender_keeps_pcs:
  "ppc (sender_step strerror fd cfg t s) = ppc s" "cpc (sender_step strerror fd cfg t s) = cpc s"
  "consumer_done (sender_step strerror fd cfg t s) = consumer_done s"
  "stop_requested s \<Longrightarrow> stop_requested (sender_step strerror fd cfg t s)"
  by (simp_all add: sender_step_def on_sent_def upd_stats_def on_send_error_keeps
      split: sender_pc.split prod.split option.split frame_send.split)

lemma thread_step_stop: "stop_requested s \<Longrightarrow> stop_requested (thread_step strerror fd cfg th t s)"
  by (cases th) (simp_all add: thread_step_def producer_stop consumer_stop sender_keeps_pcs)

lemma stopped_ranks:
  assumes "stop_requested s"
  shows "producer_rank (ppc (run_schedule strerror fd cfg sch s)) \<le> producer_rank (ppc s) - steps_of Producer sch \<and>
    consumer_rank (cpc (run_schedule strerror fd cfg sch s)) \<le> consumer_rank (cpc s) - steps_of Consumer sch \<and>
    stop_requested (run_schedule strerror fd cfg sch s)"
  using assms
proof (induction strerror fd cfg sch s rule: run_schedule.induct)
  case (2 strerror fd cfg th t sch s)
  let ?s = "thread_step strerror fd cfg th t s"
  have "producer_rank (ppc ?s) \<le> producer_rank (ppc s) - (if th = Producer then 1 else 0) \<and>
      consumer_rank (cpc ?s) \<le> consumer_rank (cpc s) - (if th = Consumer then 1 else 0)"
    using producer_rank_step [OF "2.prems", of cfg t] consumer_rank_step [OF "2.prems", of cfg t]
    by (cases th) (simp_all add: thread_step_def producer_keeps_pcs consumer_keeps_pcs sender_keeps_pcs)
  with "2.IH" [OF thread_step_stop [OF "2.prems"]] show ?case by auto
qed simp

section \<open>Draining the TCP queue\<close>

definition sender_moves :: "(errno \<Rightarrow> string) \<Rightarrow> int \<Rightarrow> app_config \<Rightarrow> tick \<Rightarrow> pipe \<Rightarrow> bool" where
  "sender_moves strerror fd cfg t s \<longleftrightarrow> (case spc s of
      S_Sending f \<Rightarrow>
        fst (send_frame_over_tcp strerror fd f (tcp_send_timeout_ms cfg) (t_send_now t) (t_send t)) \<noteq> FrameBlocked
    | _ \<Rightarrow> True)"

fun sends_return :: "(errno \<Rightarrow> string) \<Rightarrow> int \<Rightarrow> app_config \<Rightarrow> schedule \<Rightarrow> pipe \<Rightarrow> bool" where
  "sends_return strerror fd cfg [] s \<longleftrightarrow> True"
| "sends_return strerror fd cfg ((th, t) # sch) s \<longleftrightarrow>
     (th = Sender \<longrightarrow> sender_moves strerror fd cfg t s) \<and>
     sends_return strerror fd cfg sch (thread_step strerror fd cfg th t s)"

definition sender_rank :: "pipe \<Rightarrow> nat" where
  "sender_rank s = (case spc s of
      S_Done \<Rightarrow> 0
    | S_Top \<Rightarrow> 4 * rb_size (tcp_ring s) + 3
    | S_CheckEmpty \<Rightarrow> 4 * rb_size (tcp_ring s) + 2
    | S_Pop \<Rightarrow> if rb_size (tcp_ring s) = 0 then 4 else 4 * rb_size (tcp_ring s) + 1
    | S_Sending f \<Rightarrow> 4 * rb_size (tcp_ring s) + 4)"

lemma sender_rank_bound: "sender_rank s \<le> 4 * rb_size (tcp_ring s) + 4"
  by (simp add: sender_rank_def split: sender_pc.split)

lemma sender_rank_zero: "sender_rank s = 0 \<longleftrightarrow> spc s = S_Done"
  by (simp add: sender_rank_def split: sender_pc.split)

lemma pop_size: "try_pop_oldest moved q = (p, r) \<Longrightarrow> if rb_size q = 0 then p = None \<and> r = q else p \<noteq> None \<and> rb_size q = Suc (rb_size r)"
  by (auto simp: try_pop_oldest_def Let_def split: if_splits)

lemma sender_rank_step:
  assumes "consumer_done s" and "sender_moves strerror fd cfg t s"
  shows "sender_rank (sender_step strerror fd cfg t s) \<le> sender_rank s - 1"
proof (cases "spc s")
  case S_Pop
  obtain p r where pop: "try_pop_oldest moved_frame (tcp_ring s) = (p, r)" by fastforce
  with S_Pop pop_size [OF pop] show ?thesis
    by (cases p) (auto simp: sender_step_def sender_rank_def split: if_splits)
next
  case (S_Sending f)
  then show ?thesis using assms(2)
    by (auto simp: sender_step_def sender_rank_def sender_moves_def on_sent_def upd_stats_def on_send_error_keeps
        split: prod.split frame_send.split)
qed (use assms(1) in \<open>simp_all add: sender_step_def sender_rank_def ring_empty_def\<close>)

text \<open>Once the consumer has finished nothing is added to the queue.\<close>

definition consumer_finished :: "pipe \<Rightarrow> bool" where
  "consumer_finished s \<longleftrightarrow> consumer_done s \<and> cpc s = C_Done"

lemma finished_step:
  assumes "consumer_finished s" and "th = Sender \<longrightarrow> sender_moves strerror fd cfg t s"
  shows "consumer_finished (thread_step strerror fd cfg th t s) \<and>
    sender_rank (thread_step strerror fd cfg th t s) \<le> sender_rank s - (if th = Sender then 1 else 0)"
proof (cases th)
  case Producer
  have "tcp_ring (producer_step cfg t s) = tcp_ring s" "consumer_done (producer_step cfg t s) = consumer_done s"
    using producer_consumer_view [of cfg t s] by (simp_all add: consumer_view_def)
  with Producer assms(1) show ?thesis
    by (cases "spc s") (simp_all add: thread_step_def consumer_finished_def sender_rank_def producer_keeps_pcs)
next
  case Consumer
  with assms(1) show ?thesis by (simp add: thread_step_def consumer_finished_def consumer_step_def)
next
  case Sender
  with assms sender_rank_step [of s] show ?thesis
    by (simp add: thread_step_def consumer_finished_def sender_keeps_pcs)
qed

lemma finished_rank:
  assumes "consumer_finished s" and "sends_return strerror fd cfg sch s"
  shows "sender_rank (run_schedule strerror fd cfg sch s) \<le> sender_rank s - steps_of Sender sch"
  using assms
proof (induction strerror fd cfg sch s rule: run_schedule.induct)
  case (2 strerror fd cfg th t sch s)
  from "2.prems" have step: "consumer_finished (thread_step strerror fd cfg th t s) \<and>
    sender_rank (thread_step strerror fd cfg th t s) \<le> sender_rank s - (if th = Sender then 1 else 0)"
    by (intro finished_step) auto
  with "2.IH" "2.prems" have "sender_rank (run_schedule strerror fd cfg sch (thread_step strerror fd cfg th t s))
      \<le> sender_rank (thread_step strerror fd cfg th t s) - steps_of Sender sch" by simp
  with step show ?case by auto
qed simp

section \<open>The capacity of the TCP queue\<close>

lemma capacity_keeps [simp]: "capacity (push f q) = capacity q" "capacity (snd (try_pop_oldest moved q)) = capacity q"
  by (simp_all add: capacity_def push_def push_locked_def try_pop_oldest_def Let_def)

lemma sender_tcp_ring:
  "tcp_ring (sender_step strerror fd cfg t s) \<in> {tcp_ring s, snd (try_pop_oldest moved_frame (tcp_ring s))}"
  by (simp add: sender_step_def on_sent_def upd_stats_def on_send_error_keeps
      split: sender_pc.split prod.split option.split frame_send.split)

lemma consumer_tcp_ring: "capacity (tcp_ring (consumer_step cfg t s)) = capacity (tcp_ring s)"
  by (cases rule: consumer_step_cases [of s cfg t]) (simp_all add: upd_stats_def)

lemma reachable_capacity:
  assumes "reachable strerror fd cfg st s"
  shows "capacity (tcp_ring s) = nat (tcp_queue_capacity cfg)"
  using assms
proof induction
  case (start s)
  then show ?case by (auto simp: start_threads_def RingBuffer_def capacity_def throw_if_def split: if_splits)
next
  case (step s th t)
  have "tcp_ring (producer_step cfg t s) = tcp_ring s"
    using producer_consumer_view [of cfg t s] by (simp add: consumer_view_def)
  moreover have "capacity (tcp_ring (sender_step strerror fd cfg t s)) = capacity (tcp_ring s)"
    using sender_tcp_ring [of strerror fd cfg t s] by auto
  ultimately show ?case using step.IH by (cases th) (simp_all add: thread_step_def consumer_tcp_ring)
qed

lemma run_schedule_append:
  "run_schedule strerror fd cfg (sch @ sch') s = run_schedule strerror fd cfg sch' (run_schedule strerror fd cfg sch s)"
  by (induction strerror fd cfg sch s rule: run_schedule.induct) simp_all

section \<open>A complete run\<close>

text \<open>
  One frame is captured, consumed, queued and sent in two \<open>send\<close> calls, each thread running to its end in turn.
\<close>

definition demo_cfg :: app_config where
  "demo_cfg = AppConfig\<lparr>pipeline_frames := 1, ring_capacity := 2, tcp_queue_capacity := 2,
     tcp_host := Some ''127.0.0.1'', tcp_port := 5000, tcp_send_timeout_ms := 2000\<rparr>"

definition demo_tick :: tick where
  "demo_tick = \<lparr>t_capture = Inr sample_frame, t_init = (\<lambda>c. None), t_now = 5000, t_files = (\<lambda>path. FileOk),
     t_send = [quiet_env\<lparr>send_ret := 44\<rparr>, quiet_env\<lparr>send_ret := 4\<rparr>], t_send_now = 0\<rparr>"

definition demo_start :: pipe where
  "demo_start = (case start_threads demo_cfg PipelineStats of Inr s \<Rightarrow> s)"

definition demo_steps :: "thread \<Rightarrow> nat \<Rightarrow> schedule" where
  "demo_steps th n = replicate n (th, demo_tick)"

definition demo_schedule :: schedule where
  "demo_schedule = demo_steps Producer 4 @ demo_steps Consumer 9 @ demo_steps Sender 6"

lemma sample_frame_usable [simp]: "is_frame_usable sample_frame"
  by (simp add: is_frame_usable_def frame_unusable_reason_def sample_frame_def has_v4l2_buffer_error_def
      is_incomplete_yuyv_frame_def expected_frame_size_bytes_def empty_frame_def V4L2_BUF_FLAG_ERROR_def
      V4L2_PIX_FMT_YUYV_def)

lemma demo_start: "start_threads demo_cfg PipelineStats = Inr demo_start"
  by (simp add: demo_start_def start_threads_def pipeline_guards_def demo_cfg_def AppConfig_def RingBuffer_def
      CaptureRecoveryController_def InvalidFrameRecoveryController_def throw_if_def)

lemma sample_sent:
  "send_frame_over_tcp (\<lambda>n. ''error'') 4 sample_frame 2000 0 [quiet_env\<lparr>send_ret := 44\<rparr>, quiet_env\<lparr>send_ret := 4\<rparr>] =
     (FrameSent 48, frame_wire sample_frame, [])"
  by (simp add: send_frame_over_tcp_def sample_frame_def send_all_until_def default_poll_slice_def
      kWireHeaderSize_def send_iter_def quiet_env_def cancellation_requested_def Let_def empty_frame_def frame_wire_def)
    (simp add: kWireHeaderSize_def flip: length_0_conv)

lemma sample_contract:
  "frame_contract (\<lambda>n. ''error'') 4 sample_frame 2000 0 [quiet_env\<lparr>send_ret := 44\<rparr>, quiet_env\<lparr>send_ret := 4\<rparr>]"
proof -
  let ?es = "[quiet_env\<lparr>send_ret := 44\<rparr>, quiet_env\<lparr>send_ret := 4\<rparr>]"
  have "script_left (send_all_until (\<lambda>n. ''error'') 4 (Some (serialize_header (frame_wire_header sample_frame)))
      kWireHeaderSize 2000000000 True default_poll_slice ?es) = tl ?es"
    by (simp add: send_all_until_def default_poll_slice_def kWireHeaderSize_def send_iter_def quiet_env_def
        cancellation_requested_def)
  then show ?thesis
    by (simp add: frame_contract_def) (simp add: kWireHeaderSize_def quiet_env_def sample_frame_def)
qed

lemmas demo_eval = demo_start_def start_threads_def pipeline_guards_def demo_cfg_def AppConfig_def RingBuffer_def
  CaptureRecoveryController_def InvalidFrameRecoveryController_def throw_if_def demo_steps_def demo_tick_def
  thread_step_def producer_step_def on_frame_def on_decision_def observe_def upd_stats_def count_frame_def
  on_capture_success_def push_def push_locked_def Let_def numeral_eq_Suc demo_schedule_def

definition demo_final :: pipe where
  "demo_final = run_schedule (\<lambda>n. ''error'') 4 demo_cfg demo_schedule demo_start"

lemmas demo_eval2 = demo_eval consumer_step_def consume_frame_def save_consumed_def count_consumed_def
  try_pop_oldest_def ring_empty_def run_tcp_enabled_def sender_step_def on_sent_def tick_ok_def

lemma demo_done: "all_done demo_final \<and> pipeline_result None demo_final = None"
  by (simp add: demo_final_def demo_eval2 all_done_def pipeline_result_def final_stats_def sample_sent PipelineStats_def)

lemma demo_ok: "schedule_ok (\<lambda>n. ''error'') 4 demo_cfg demo_schedule demo_start"
  by (simp add: demo_eval2 sample_sent sample_contract PipelineStats_def) (simp add: quiet_env_def)

lemma demo_reachable: "reachable (\<lambda>n. ''error'') 4 demo_cfg PipelineStats demo_final"
  unfolding demo_final_def by (intro reachable_schedule reachable.start demo_start demo_ok)

lemma fresh_PipelineStats: "fresh_stats PipelineStats"
  by (simp add: fresh_stats_def PipelineStats_def)

section \<open>Properties\<close>

text \<open>
  C4: at any moment of any interleaving, the frames handed to the connection are a subsequence, in capture
  order, of the captured frames; each of them passed the usability checks; the bytes on the connection
  are their complete encodings followed by at most a strict prefix of the one frame whose transmission failed;
  and the counters account for every captured frame, as consumed, still queued or dropped from the ring.
\<close>

theorem pipeline_sent_subsequence:
  assumes "reachable strerror fd cfg st s" and "0 \<le> fd" and "fresh_stats st"
  shows "subseq (sent_log s) (captured_log s) \<and> list_all is_frame_usable (sent_log s) \<and>
    (\<exists>part. tcp_wire s = concat (map frame_wire (sent_log s)) @ part \<and>
       (case tcp_failed s of None \<Rightarrow> part = [] | Some f \<Rightarrow> strict_prefix part (frame_wire f))) \<and>
    captured (stats s) = consumed (stats s) + ring_size (capture_ring s) + dropped_count (capture_ring s) \<and>
    tcp_sent (stats s) = length (sent_log s) \<and> captured (stats s) = length (captured_log s)"
proof -
  have inv: "pipe_inv cfg s" using assms by (rule reachable_inv)
  then have q: "subseq ((sent_log s @ outgoing s) @ snapshot (tcp_ring s)) (queued_log s)"
    by (simp add: pipe_inv_def inv_send_def)
  have u: "prefix (queued_log s) (filter is_frame_usable (consumed_log s))"
    using inv by (auto simp: pipe_inv_def inv_consume_def split: if_splits dest: sym)
  have c: "subseq (consumed_log s @ snapshot (capture_ring s)) (captured_log s)"
    using inv by (simp add: pipe_inv_def inv_capture_def)
  have sent: "subseq (sent_log s) (filter is_frame_usable (consumed_log s))"
    using q u by (meson prefix_imp_subseq subseq_append_left subseq_order.order_trans)
  moreover have "subseq (filter is_frame_usable (consumed_log s)) (captured_log s)"
    using c by (meson subseq_append_left subseq_filter_left subseq_order.order_trans)
  ultimately have "subseq (sent_log s) (captured_log s)" by (rule subseq_order.order_trans)
  moreover have "list_all is_frame_usable (sent_log s)"
    using subseq_set [OF sent] by (auto simp: list_all_iff)
  ultimately show ?thesis
    using inv by (simp add: pipe_inv_def inv_capture_def inv_send_def wire_ok_def ring_size_def)
qed

theorem pipeline_sent_subsequence_witness:
  "subseq (sent_log demo_final) (captured_log demo_final) \<and> tcp_sent (stats demo_final) = length (sent_log demo_final)"
  using pipeline_sent_subsequence [OF demo_reachable _ fresh_PipelineStats] by simp

text \<open>What a normal return says about the capture side.\<close>

lemma normal_return_counts:
  assumes "reachable strerror fd cfg st s" and "0 \<le> fd" and "fresh_stats st"
    and "all_done s" and "pipeline_result write_error s = None"
  shows "producer_error s = None" and "consumer_error s = None" and "tcp_send_errors (final_stats s) = 0"
    and "\<not> stop_requested s" and "tcp_failed s = None" and "rb_size (capture_ring s) = 0"
    and "int (captured (final_stats s)) = pipeline_frames cfg"
proof -
  have inv: "inv_capture cfg s" "inv_flags cfg s" using reachable_inv [OF assms(1-3)] by (simp_all add: pipe_inv_def)
  have pcs: "ppc s = P_Done" "cpc s = C_Done" "spc s = S_Done" using assms(4) by (simp_all add: all_done_def)
  show none: "producer_error s = None" "consumer_error s = None" "tcp_send_errors (final_stats s) = 0"
    using assms(5) by (auto simp: pipeline_result_def split: if_splits)
  then show stop: "\<not> stop_requested s" "tcp_failed s = None"
    using inv(2) by (auto simp: inv_flags_def flags_stop_def final_stats_def)
  then have "pipeline_frames cfg \<le> int (produced s)" and e: "rb_size (capture_ring s) = 0"
    using inv(2) pcs none by (auto simp: inv_flags_def flags_producer_def flags_consumer_def)
  then show "int (captured (final_stats s)) = pipeline_frames cfg" using inv(1) by (simp add: inv_capture_def final_stats_def)
  show "rb_size (capture_ring s) = 0" by (rule e)
qed

text \<open>
  C3: a normal return of \<open>run_pipeline\<close> means complete work. When the threads have ended and no exception
  leaves the function, exactly the requested number of frames was captured, nobody asked for a stop, the
  capture ring is empty and every captured frame was consumed or counted as dropped; with TCP enabled
  the queue is empty too, every usable consumed frame was sent or counted as dropped, and the bytes on
  the connection are exactly the encodings of the sent frames.
\<close>

theorem pipeline_normal_return_complete:
  assumes "reachable strerror fd cfg st s" and "0 \<le> fd" and "fresh_stats st"
    and "all_done s" and "pipeline_result write_error s = None"
  shows "int (captured (final_stats s)) = pipeline_frames cfg \<and> \<not> stop_requested s \<and>
    capture_queue_remaining (final_stats s) = 0 \<and>
    captured (final_stats s) = consumed (final_stats s) + capture_dropped (final_stats s) \<and>
    (run_tcp_enabled cfg \<longrightarrow> tcp_queue_remaining (final_stats s) = 0 \<and>
       consumed (final_stats s) =
         invalid (final_stats s) + tcp_sent (final_stats s) + tcp_dropped (final_stats s) \<and>
       tcp_wire s = concat (map frame_wire (sent_log s)))"
proof -
  have inv: "inv_capture cfg s" "inv_consume cfg s" "inv_send s" "inv_flags cfg s"
    using reachable_inv [OF assms(1-3)] by (simp_all add: pipe_inv_def)
  have pcs: "ppc s = P_Done" "cpc s = C_Done" "spc s = S_Done" using assms(4) by (simp_all add: all_done_def)
  note nr = normal_return_counts [OF assms]
  have none: "consumer_error s = None" by (rule nr)
  have stop: "\<not> stop_requested s" "tcp_failed s = None" by (rule nr)+
  have cap: "int (captured (stats s)) = pipeline_frames cfg"
    "captured (stats s) = consumed (stats s) + dropped_count (capture_ring s)"
    using inv(1) nr(6,7) by (simp_all add: inv_capture_def final_stats_def)
  have tcp: "rb_size (tcp_ring s) = 0 \<and> consumed (stats s) = invalid (stats s) + tcp_sent (stats s) + dropped_count (tcp_ring s) \<and>
      tcp_wire s = concat (map frame_wire (sent_log s))" if "run_tcp_enabled cfg"
  proof -
    have empty: "rb_size (tcp_ring s) = 0" using inv(4) pcs stop that by (simp add: inv_flags_def flags_sender_def)
    have "queued_log s = filter is_frame_usable (consumed_log s)"
      using inv(2) none pcs that by (simp add: inv_consume_def in_hand_def)
    moreover have "consumed (stats s) = length (filter is_frame_usable (consumed_log s)) + invalid (stats s)"
      using inv(1,2) sum_length_filter_compl [of is_frame_usable "consumed_log s"] by (simp add: inv_capture_def inv_consume_def)
    ultimately show ?thesis
      using inv(3) empty pcs stop by (simp add: inv_send_def outgoing_def wire_ok_def)
  qed
  show ?thesis using cap nr(6) stop tcp by (simp add: final_stats_def ring_size_def)
qed

theorem pipeline_normal_return_complete_witness:
  "int (captured (final_stats demo_final)) = 1 \<and> tcp_wire demo_final = concat (map frame_wire (sent_log demo_final))"
  using pipeline_normal_return_complete [OF demo_reachable _ fresh_PipelineStats, of None] demo_done
  by (simp add: demo_cfg_def AppConfig_def run_tcp_enabled_def)

text \<open>
  C5: a stop request ends the pipeline. From any state in which a stop was requested, five steps of the
  producer and six of the consumer, however interleaved with each other and with the sender, bring both to
  their end; after that the sender ends within four steps per place of its queue and four more, provided
  its send calls return (which \<open>send_all_until\<close> does by its deadline).
\<close>

theorem pipeline_stop_terminates:
  assumes "reachable strerror fd cfg st s" and "0 \<le> fd" and "fresh_stats st" and "stop_requested s"
    and "schedule_ok strerror fd cfg sch s" and "5 \<le> steps_of Producer sch" and "6 \<le> steps_of Consumer sch"
    and "sends_return strerror fd cfg sch' (run_schedule strerror fd cfg sch s)"
    and "4 * nat (tcp_queue_capacity cfg) + 4 \<le> steps_of Sender sch'"
  shows "all_done (run_schedule strerror fd cfg (sch @ sch') s)"
proof -
  let ?s = "run_schedule strerror fd cfg sch s"
  have reach: "reachable strerror fd cfg st ?s" using assms(1,5) by (rule reachable_schedule)
  have inv: "inv_flags cfg ?s" "ring_wf (tcp_ring ?s)"
    using reachable_inv [OF reach assms(2,3)] by (simp_all add: pipe_inv_def inv_send_def)
  note ranks = stopped_ranks [OF assms(4), of strerror fd cfg sch]
  have zero: "producer_rank (ppc ?s) = 0" "consumer_rank (cpc ?s) = 0"
    using ranks rank_bounds(1) [of "ppc s"] rank_bounds(2) [of "cpc s"] assms(6,7) by linarith+
  then have fin: "consumer_finished ?s"
    using inv(1) by (simp add: rank_zero consumer_finished_def inv_flags_def flags_consumer_def)
  have "sender_rank ?s \<le> 4 * nat (tcp_queue_capacity cfg) + 4"
    using sender_rank_bound [of ?s] reachable_capacity [OF reach] inv(2) by (simp add: ring_wf_def capacity_def)
  with finished_rank [OF fin assms(8)] assms(9)
  have "sender_rank (run_schedule strerror fd cfg sch' ?s) = 0" by linarith
  moreover have "stop_requested ?s" using ranks by simp
  from stopped_ranks [OF this, of strerror fd cfg sch'] zero
  have "producer_rank (ppc (run_schedule strerror fd cfg sch' ?s)) = 0 \<and> consumer_rank (cpc (run_schedule strerror fd cfg sch' ?s)) = 0"
    by simp
  ultimately show ?thesis by (simp add: all_done_def rank_zero sender_rank_zero run_schedule_append)
qed

definition fail_tick :: tick where
  "fail_tick = demo_tick\<lparr>t_capture := Inl (RuntimeError ''device removed'')\<rparr>"

definition stopped_demo :: pipe where
  "stopped_demo = run_schedule (\<lambda>n. ''error'') 4 demo_cfg [(Producer, fail_tick), (Producer, fail_tick)] demo_start"

theorem pipeline_stop_terminates_witness:
  "stop_requested stopped_demo \<and>
   all_done (run_schedule (\<lambda>n. ''error'') 4 demo_cfg
     ((demo_steps Producer 5 @ demo_steps Consumer 6) @ demo_steps Sender 12) stopped_demo)"
proof
  have "schedule_ok (\<lambda>n. ''error'') 4 demo_cfg [(Producer, fail_tick), (Producer, fail_tick)] demo_start"
    by (simp add: demo_eval2 fail_tick_def)
  with demo_start have reach: "reachable (\<lambda>n. ''error'') 4 demo_cfg PipelineStats stopped_demo"
    unfolding stopped_demo_def by (intro reachable_schedule reachable.start)
  show stop: "stop_requested stopped_demo"
    by (simp add: stopped_demo_def fail_tick_def demo_eval2 producer_throw_def)
  have ok: "schedule_ok (\<lambda>n. ''error'') 4 demo_cfg (demo_steps Producer 5 @ demo_steps Consumer 6) stopped_demo"
    by (simp add: stopped_demo_def fail_tick_def demo_eval2 producer_throw_def)
  have ret: "sends_return (\<lambda>n. ''error'') 4 demo_cfg (demo_steps Sender 12)
      (run_schedule (\<lambda>n. ''error'') 4 demo_cfg (demo_steps Producer 5 @ demo_steps Consumer 6) stopped_demo)"
    by (simp add: stopped_demo_def fail_tick_def demo_eval2 producer_throw_def sender_moves_def)
  show "all_done (run_schedule (\<lambda>n. ''error'') 4 demo_cfg
     ((demo_steps Producer 5 @ demo_steps Consumer 6) @ demo_steps Sender 12) stopped_demo)"
    by (rule pipeline_stop_terminates [OF reach _ fresh_PipelineStats stop ok _ _ ret])
      (simp_all add: demo_steps_def steps_of_def demo_cfg_def)
qed

end
