(* ===== verification/Protocol_Fixture.thy ===== *)
theory Protocol_Fixture
  imports Frame_Protocol
begin

unbundle bit_operations_syntax

text \<open>
  The fixture tool \<open>src/protocol_fixture.cpp\<close>: it writes a file with a deterministic sequence of frames in
  the wire format, or verifies such a file byte by byte.

  A file to be read is its content together with the information whether reading stops at the end of the
  file (an I/O error otherwise); writing a file has the outcome \<open>file_result\<close>, whose failures are the ones
  that throw, and what a failed write leaves in the file is not modelled. The directories of the path are
  created by the code only when there are any, which is part of that outcome.
\<close>

section \<open>Options\<close>

record fixture_options =
  write_path :: string
  verify_path :: string
  fx_stats_output :: string
  fx_frames :: nat

definition Options :: fixture_options where
  "Options = \<lparr>write_path = [], verify_path = [], fx_stats_output = [], fx_frames = 32\<rparr>"

definition parse_positive_u64 :: "string \<Rightarrow> string \<Rightarrow> nat result" where
  "parse_positive_u64 text name =
     (let failure = Inl (InvalidArgument (''Invalid positive integer for '' @ name @ '': '' @ text)) in
      case stoull text of
        Inl e \<Rightarrow> failure
      | Inr (v, pos) \<Rightarrow> if pos \<noteq> length text \<or> v = 0 \<or> v > 1000000 then failure else Inr v)"

text \<open>The argument loop; \<open>None\<close> is \<open>std::exit(0)\<close> after \<open>--help\<close>.\<close>

fun option_loop :: "string list \<Rightarrow> fixture_options \<Rightarrow> fixture_options option result" where
  "option_loop [] opts = Inr (Some opts)"
| "option_loop (arg # args) opts =
     (if arg = ''--help'' \<or> arg = ''-h'' then Inr None
      else case args of
        [] \<Rightarrow> Inl (InvalidArgument (''Unknown or incomplete argument: '' @ arg))
      | val # rest \<Rightarrow>
          if arg = ''--write'' then option_loop rest (opts\<lparr>write_path := val\<rparr>)
          else if arg = ''--verify'' then option_loop rest (opts\<lparr>verify_path := val\<rparr>)
          else if arg = ''--frames'' then
            bind_r (parse_positive_u64 val arg) (\<lambda>n. option_loop rest (opts\<lparr>fx_frames := n\<rparr>))
          else if arg = ''--stats-output'' then option_loop rest (opts\<lparr>fx_stats_output := val\<rparr>)
          else Inl (InvalidArgument (''Unknown or incomplete argument: '' @ arg)))"

definition parse_options :: "string list \<Rightarrow> fixture_options option result" where
  "parse_options args =
     bind_r (option_loop args Options) (\<lambda>r. case r of
         None \<Rightarrow> Inr None
       | Some opts \<Rightarrow>
           throw_if ((write_path opts \<noteq> []) = (verify_path opts \<noteq> []))
             (InvalidArgument ''Specify exactly one of --write or --verify'') (Inr (Some opts)))"

section \<open>The deterministic frames\<close>

definition kFixtureWidth :: u32 where "kFixtureWidth = 8"
definition kFixtureHeight :: u32 where "kFixtureHeight = 4"
definition kFixtureTimestampBase :: u64 where "kFixtureTimestampBase = 1700000000000000000"
definition kFixtureTimestampStep :: u64 where "kFixtureTimestampStep = 33333333"

text \<open>The two loops with their counters \<open>x\<close> and \<open>y\<close>, the running \<open>offset\<close> and the vector they fill.\<close>

function fixture_row :: "u64 \<Rightarrow> nat \<Rightarrow> nat \<Rightarrow> nat \<Rightarrow> bytes \<Rightarrow> nat \<times> bytes" where
  "fixture_row frame_id y x offset payload =
     (if x < unat kFixtureWidth then
        let seed = (ucast (frame_id AND 0xffffffff) :: u32);
            xw = of_nat x; yw = of_nat y;
            y0 = ucast ((xw + yw * 17 + seed * 3) AND 0xff);
            y1 = ucast ((xw + yw * 29 + seed * 5 + 1) AND 0xff);
            u = ucast ((96 + yw * 7 + seed) AND 0xff);
            v = ucast ((160 + xw * 5 + seed * 2) AND 0xff)
        in fixture_row frame_id y (x + 2) (offset + 4) (store4 payload offset y0 u y1 v)
      else (offset, payload))"
  by pat_completeness auto
termination by (relation "measure (\<lambda>(f, y, x, offset, p). unat kFixtureWidth - x)") auto

function fixture_rows :: "u64 \<Rightarrow> nat \<Rightarrow> nat \<Rightarrow> bytes \<Rightarrow> bytes" where
  "fixture_rows frame_id y offset payload =
     (if y < unat kFixtureHeight then
        (case fixture_row frame_id y 0 offset payload of
           (offset, payload) \<Rightarrow> fixture_rows frame_id (y + 1) offset payload)
      else payload)"
  by pat_completeness auto
termination by (relation "measure (\<lambda>(f, y, offset, p). unat kFixtureHeight - y)") auto

declare fixture_row.simps [simp del] fixture_rows.simps [simp del]

definition make_fixture_payload :: "u64 \<Rightarrow> bytes" where
  "make_fixture_payload frame_id =
     fixture_rows frame_id 0 0 (replicate (unat kFixtureWidth * unat kFixtureHeight * 2) 0)"

definition fixture_timestamp :: "u64 \<Rightarrow> u64" where
  "fixture_timestamp frame_id = kFixtureTimestampBase + frame_id * kFixtureTimestampStep"

section \<open>Statistics\<close>

definition fixture_escape_char :: "char \<Rightarrow> string" where
  "fixture_escape_char ch =
     (if ch = CHR 0x5C then [CHR 0x5C, CHR 0x5C]
      else if ch = CHR 0x22 then [CHR 0x5C, CHR 0x22]
      else if ch = CHR 0x0A then [CHR 0x5C, CHR ''n'']
      else if ch = CHR 0x0D then [CHR 0x5C, CHR ''r'']
      else if ch = CHR 0x09 then [CHR 0x5C, CHR ''t'']
      else [ch])"

definition fixture_json_escape :: "string \<Rightarrow> string" where
  "fixture_json_escape text = concat (map fixture_escape_char text)"

definition quoted :: "string \<Rightarrow> string" where
  "quoted s = [CHR 0x22] @ s @ [CHR 0x22]"

definition fixture_stats_text :: "string \<Rightarrow> string \<Rightarrow> nat \<Rightarrow> nat \<Rightarrow> bool \<Rightarrow> string" where
  "fixture_stats_text mode fixture_path frames bytes verified =
     ''{'' @ [CHR 0x0A] @
     ''  '' @ quoted ''mode'' @ '': '' @ quoted (fixture_json_escape mode) @ '','' @ [CHR 0x0A] @
     ''  '' @ quoted ''fixture_path'' @ '': '' @ quoted (fixture_json_escape fixture_path) @ '','' @ [CHR 0x0A] @
     ''  '' @ quoted ''protocol_version'' @ '': '' @ to_string (unat kVersion) @ '','' @ [CHR 0x0A] @
     ''  '' @ quoted ''wire_header_size'' @ '': '' @ to_string kWireHeaderSize @ '','' @ [CHR 0x0A] @
     ''  '' @ quoted ''frames'' @ '': '' @ to_string frames @ '','' @ [CHR 0x0A] @
     ''  '' @ quoted ''bytes'' @ '': '' @ to_string bytes @ '','' @ [CHR 0x0A] @
     ''  '' @ quoted ''verified'' @ '': '' @ (if verified then ''true'' else ''false'') @ [CHR 0x0A] @
     ''}'' @ [CHR 0x0A]"

text \<open>The files written, as pairs of a path and the content; a failing stream is not noticed by \<open>write_stats\<close>.\<close>

definition fixture_write_stats ::
    "(string \<Rightarrow> file_result) \<Rightarrow> string \<Rightarrow> string \<Rightarrow> string \<Rightarrow> nat \<Rightarrow> nat \<Rightarrow> bool \<Rightarrow> (string \<times> bytes) list result" where
  "fixture_write_stats fs path mode fixture_path frames bytes verified =
     (if path = [] then Inr []
      else case fs path of
        CreateDirsFailed m \<Rightarrow> Inl (RuntimeError m)
      | OpenFailed \<Rightarrow> Inl (RuntimeError (''Failed to open stats output: '' @ path))
      | WriteFailed \<Rightarrow> Inr []
      | FileOk \<Rightarrow> Inr [(path, map of_char (fixture_stats_text mode fixture_path frames bytes verified))])"

section \<open>Writing\<close>

definition fixture_header :: "u64 \<Rightarrow> frame_header" where
  "fixture_header frame_id =
     (let payload = make_fixture_payload frame_id in
      make_header frame_id (fixture_timestamp frame_id) kFixtureWidth kFixtureHeight V4L2_PIX_FMT_YUYV
        (of_nat (length payload)) (compute_crc32 payload))"

text \<open>\<open>n\<close> turns are left; \<open>out\<close> is the file so far.\<close>

fun write_loop :: "nat \<Rightarrow> u64 \<Rightarrow> bytes \<Rightarrow> nat \<Rightarrow> bytes \<times> nat" where
  "write_loop 0 frame_id out bytes_written = (out, bytes_written)"
| "write_loop (Suc n) frame_id out bytes_written =
     (let payload = make_fixture_payload frame_id;
          wire = serialize_header (fixture_header frame_id)
      in write_loop n (frame_id + 1) (out @ wire @ payload) (bytes_written + (length wire + length payload)))"

definition write_fixture :: "(string \<Rightarrow> file_result) \<Rightarrow> fixture_options \<Rightarrow> (string \<times> bytes) list result" where
  "write_fixture fs opts = (case fs (write_path opts) of
      CreateDirsFailed m \<Rightarrow> Inl (RuntimeError m)
    | OpenFailed \<Rightarrow> Inl (RuntimeError (''Failed to open fixture for writing: '' @ write_path opts))
    | WriteFailed \<Rightarrow> Inl (RuntimeError (''Failed while writing fixture: '' @ write_path opts))
    | FileOk \<Rightarrow>
        (case write_loop (fx_frames opts) 0 [] 0 of (out, bytes_written) \<Rightarrow>
           bind_r (fixture_write_stats fs (fx_stats_output opts) ''write'' (write_path opts) (fx_frames opts)
                     bytes_written True)
             (\<lambda>stats. Inr ((write_path opts, out) # stats))))"

section \<open>Verifying\<close>

definition at_frame :: "string \<Rightarrow> nat \<Rightarrow> exn" where
  "at_frame msg n = RuntimeError (msg @ '' at frame '' @ to_string n)"

text \<open>
  \<open>bs\<close> is what is left of the file, \<open>eof\<close> says that reading beyond it reports the end of the file. The frame
  counter is compared with the 64-bit fields.
\<close>

function verify_loop :: "bool \<Rightarrow> bytes \<Rightarrow> nat \<Rightarrow> nat \<Rightarrow> (nat \<times> nat) result" where
  "verify_loop eof bs verified_frames verified_bytes =
     (let wire = take kWireHeaderSize bs in
      if length wire = 0 \<and> eof then Inr (verified_frames, verified_bytes)
      else if length wire \<noteq> kWireHeaderSize then Inl (at_frame ''Truncated wire header'' verified_frames)
      else case deserialize_header (Some wire) of
        Inl reason \<Rightarrow> Inl (RuntimeError (''Header decode failed at frame '' @ to_string verified_frames @ '': '' @ reason))
      | Inr header \<Rightarrow>
          (case validate_header header kDefaultMaxPayloadBytes of
             Some reason \<Rightarrow>
               Inl (RuntimeError (''Header validation failed at frame '' @ to_string verified_frames @ '': '' @ reason))
           | None \<Rightarrow>
               if hdr_frame_id header \<noteq> of_nat verified_frames \<or>
                  hdr_capture_timestamp_ns header \<noteq> fixture_timestamp (of_nat verified_frames) \<or>
                  hdr_width header \<noteq> kFixtureWidth \<or> hdr_height header \<noteq> kFixtureHeight \<or>
                  hdr_pixel_format header \<noteq> V4L2_PIX_FMT_YUYV
               then Inl (at_frame ''Deterministic header fields mismatch'' verified_frames)
               else
                 let payload = take (unat (hdr_payload_size header)) (drop kWireHeaderSize bs) in
                 if length payload \<noteq> unat (hdr_payload_size header) then
                   Inl (at_frame ''Truncated payload'' verified_frames)
                 else if compute_crc32 payload \<noteq> hdr_payload_crc32 header then
                   Inl (at_frame ''CRC mismatch'' verified_frames)
                 else if payload \<noteq> make_fixture_payload (of_nat verified_frames) then
                   Inl (at_frame ''Deterministic payload mismatch'' verified_frames)
                 else verify_loop eof (drop (kWireHeaderSize + length payload) bs) (verified_frames + 1)
                        (verified_bytes + (length wire + length payload))))"
  by pat_completeness auto
termination by (relation "measure (\<lambda>(eof, bs, n, b). length bs)") (auto simp: kWireHeaderSize_def)

declare verify_loop.simps [simp del]

definition verify_fixture ::
    "(string \<Rightarrow> (bytes \<times> bool) option) \<Rightarrow> (string \<Rightarrow> file_result) \<Rightarrow> fixture_options \<Rightarrow> (string \<times> bytes) list result" where
  "verify_fixture files_in fs opts = (case files_in (verify_path opts) of
      None \<Rightarrow> Inl (RuntimeError (''Failed to open fixture for verification: '' @ verify_path opts))
    | Some (content, eof) \<Rightarrow>
        bind_r (verify_loop eof content 0 0) (\<lambda>(verified_frames, verified_bytes).
          throw_if (verified_frames \<noteq> fx_frames opts)
            (RuntimeError (''Fixture frame count mismatch: got='' @ to_string verified_frames @ '', expected='' @
               to_string (fx_frames opts)))
            (fixture_write_stats fs (fx_stats_output opts) ''verify'' (verify_path opts) verified_frames
               verified_bytes True)))"

text \<open>\<open>main\<close>: the exit code and the files written.\<close>

definition fixture_main ::
    "(string \<Rightarrow> (bytes \<times> bool) option) \<Rightarrow> (string \<Rightarrow> file_result) \<Rightarrow> string list \<Rightarrow> int \<times> (string \<times> bytes) list" where
  "fixture_main files_in fs args =
     (case bind_r (parse_options args) (\<lambda>r. case r of
         None \<Rightarrow> Inr []
       | Some opts \<Rightarrow> if write_path opts \<noteq> [] then write_fixture fs opts else verify_fixture files_in fs opts) of
        Inl e \<Rightarrow> (1, [])
      | Inr written \<Rightarrow> (0, written))"

section \<open>The written file\<close>

definition fixture_frame :: "nat \<Rightarrow> bytes" where
  "fixture_frame i = serialize_header (fixture_header (of_nat i)) @ make_fixture_payload (of_nat i)"

definition fixture_bytes :: "nat \<Rightarrow> bytes" where
  "fixture_bytes n = concat (map fixture_frame [0..<n])"

lemma length_fixture_row: "length (snd (fixture_row f y x off p)) = length p"
proof (induction f y x off p rule: fixture_row.induct)
  case (1 f y x off p)
  then show ?case by (subst fixture_row.simps) (simp add: Let_def store4_def)
qed

lemma length_fixture_rows: "length (fixture_rows f y off p) = length p"
proof (induction f y off p rule: fixture_rows.induct)
  case (1 f y off p)
  then show ?case using length_fixture_row [of f y 0 off p]
    by (subst fixture_rows.simps) (auto split: prod.split)
qed

lemma length_fixture_payload [simp]: "length (make_fixture_payload f) = 64"
  by (simp add: make_fixture_payload_def length_fixture_rows kFixtureWidth_def kFixtureHeight_def)

lemma length_fixture_frame [simp]: "length (fixture_frame i) = 108"
  by (simp add: fixture_frame_def kWireHeaderSize_def)

lemma fixture_header_fields:
  "fixture_header f = make_header f (fixture_timestamp f) 8 4 V4L2_PIX_FMT_YUYV 64 (compute_crc32 (make_fixture_payload f))"
  by (simp add: fixture_header_def Let_def kFixtureWidth_def kFixtureHeight_def)

lemma word_of_nat_eq_unat: "of_nat (unat w) = w"
  by simp

lemma len64: "LENGTH(64) = 64" by simp

lemma fixture_timestamp_nonzero: "i \<le> 1000000 \<Longrightarrow> fixture_timestamp (of_nat i) \<noteq> 0"
proof -
  assume i: "i \<le> 1000000"
  have "fixture_timestamp (of_nat i) = of_nat (1700000000000000000 + i * 33333333)"
    by (simp add: fixture_timestamp_def kFixtureTimestampBase_def kFixtureTimestampStep_def)
  moreover have "1700000000000000000 + i * 33333333 < 2 ^ 64" using i by simp
  ultimately have "unat (fixture_timestamp (of_nat i)) = 1700000000000000000 + i * 33333333"
    by (simp only: unat_of_nat_small len64)
  then show ?thesis by (metis add_is_0 unat_0 zero_neq_numeral)
qed

lemma fixture_header_valid:
  "i \<le> 1000000 \<Longrightarrow> validate_header (fixture_header (of_nat i)) kDefaultMaxPayloadBytes = None"
  using fixture_timestamp_nonzero [of i]
  by (simp add: validate_header_iff header_acceptable_def fixture_header_fields make_header_def kDefaultMaxPayloadBytes_def
      V4L2_PIX_FMT_YUYV_def kWireHeaderSize_def)

lemma write_loop_bytes:
  "write_loop n (of_nat i) out b = (out @ concat (map fixture_frame [i..<i + n]), b + 108 * n)"
proof (induction n arbitrary: i out b)
  case (Suc n)
  have "of_nat i + 1 = (of_nat (Suc i) :: u64)" by simp
  moreover have "[i..<i + Suc n] = i # [Suc i..<Suc i + n]" by (simp add: upt_conv_Cons)
  ultimately show ?case using Suc [of "Suc i"]
    by (simp add: Let_def fixture_frame_def kWireHeaderSize_def del: of_nat_Suc upt_Suc)
qed simp

lemma write_loop_fixture: "write_loop n 0 [] 0 = (fixture_bytes n, 108 * n)"
  using write_loop_bytes [of n 0 "[]" 0] by (simp add: fixture_bytes_def)

section \<open>What the verification accepts\<close>

lemma verify_loop_frame:
  assumes "i \<le> 1000000"
  shows "verify_loop eof (fixture_frame i @ rest) i b = verify_loop eof rest (i + 1) (b + 108)"
proof -
  let ?h = "fixture_header (of_nat i)" and ?p = "make_fixture_payload (of_nat i)"
  have w: "take kWireHeaderSize (fixture_frame i @ rest) = serialize_header ?h"
    "drop kWireHeaderSize (fixture_frame i @ rest) = ?p @ rest"
    by (simp_all add: fixture_frame_def)
  have d: "deserialize_header (Some (serialize_header ?h)) = Inr ?h" by (simp add: deserialize_header_iff)
  have f: "hdr_frame_id ?h = of_nat i" "hdr_capture_timestamp_ns ?h = fixture_timestamp (of_nat i)"
    "hdr_width ?h = kFixtureWidth" "hdr_height ?h = kFixtureHeight" "hdr_pixel_format ?h = V4L2_PIX_FMT_YUYV"
    "hdr_payload_crc32 ?h = compute_crc32 ?p" "unat (hdr_payload_size ?h) = 64"
    by (simp_all add: fixture_header_fields make_header_def kFixtureWidth_def kFixtureHeight_def)
  have p: "take 64 (?p @ rest) = ?p" by simp
  have "length (serialize_header ?h) = 44" by (simp add: kWireHeaderSize_def)
  then have k: "serialize_header ?h \<noteq> []" "kWireHeaderSize + 64 = 108" by (force, simp add: kWireHeaderSize_def)
  have r: "drop 108 (fixture_frame i @ rest) = rest" by simp
  show ?thesis
    by (subst verify_loop.simps)
       (simp add: w d f k p fixture_header_valid [OF assms] r Let_def del: take_append drop_append)
qed

lemma verify_loop_frames:
  "i + n \<le> 1000001 \<Longrightarrow> verify_loop eof (concat (map fixture_frame [i..<i + n]) @ rest) i b =
     verify_loop eof rest (i + n) (b + 108 * n)"
proof (induction n arbitrary: i b)
  case (Suc n)
  have "[i..<i + Suc n] = i # [Suc i..<Suc i + n]" by (simp add: upt_conv_Cons)
  with Suc.IH [of "Suc i" "b + 108"] Suc.prems show ?case by (simp add: verify_loop_frame add.assoc del: upt_Suc)
qed simp

lemma header_determined:
  assumes "validate_header h kDefaultMaxPayloadBytes = None" and "hdr_frame_id h = i"
    and "hdr_capture_timestamp_ns h = fixture_timestamp i" and "hdr_width h = kFixtureWidth"
    and "hdr_height h = kFixtureHeight" and "hdr_pixel_format h = V4L2_PIX_FMT_YUYV"
    and "hdr_payload_crc32 h = compute_crc32 (make_fixture_payload i)"
  shows "h = fixture_header i"
proof -
  have "hdr_magic h = kMagic" "unat (hdr_header_size h) = kWireHeaderSize" "hdr_version h = kVersion"
    "unat (hdr_payload_size h) = 64"
    using assms(1,4-6) by (simp_all add: validate_header_iff header_acceptable_def kFixtureWidth_def kFixtureHeight_def)
  moreover from this have "hdr_header_size h = of_nat kWireHeaderSize" "hdr_payload_size h = 64"
    by (metis word_of_nat_eq_unat, metis of_nat_numeral word_of_nat_eq_unat)
  ultimately show ?thesis
    using assms(2-7) by (simp add: fixture_header_fields make_header_def kFixtureWidth_def kFixtureHeight_def)
qed

lemma verify_loop_turn:
  assumes "verify_loop eof bs i b = Inr (n, b')"
  obtains (finished) "bs = []" "eof" "n = i" "b' = b"
  | (frame) h where "deserialize_header (Some (take kWireHeaderSize bs)) = Inr h"
      "validate_header h kDefaultMaxPayloadBytes = None"
      "hdr_frame_id h = of_nat i" "hdr_capture_timestamp_ns h = fixture_timestamp (of_nat i)"
      "hdr_width h = kFixtureWidth" "hdr_height h = kFixtureHeight" "hdr_pixel_format h = V4L2_PIX_FMT_YUYV"
      "hdr_payload_crc32 h = compute_crc32 (make_fixture_payload (of_nat i))"
      "take 64 (drop kWireHeaderSize bs) = make_fixture_payload (of_nat i)"
      "verify_loop eof (drop 108 bs) (i + 1) (b + 108) = Inr (n, b')"
proof (cases "length (take kWireHeaderSize bs) = 0 \<and> eof")
  case True
  then have bs: "bs = []" and "eof" by (cases bs; simp add: kWireHeaderSize_def)+
  then have "verify_loop eof bs i b = Inr (i, b)" by (subst verify_loop.simps) (simp add: Let_def)
  with bs \<open>eof\<close> assms finished show thesis by simp
next
  case False
  note run = assms [unfolded verify_loop.simps [of eof bs i b]]
  from run False obtain h where h: "deserialize_header (Some (take kWireHeaderSize bs)) = Inr h"
      "validate_header h kDefaultMaxPayloadBytes = None" "length (take kWireHeaderSize bs) = kWireHeaderSize"
      "hdr_frame_id h = of_nat i" "hdr_capture_timestamp_ns h = fixture_timestamp (of_nat i)"
      "hdr_width h = kFixtureWidth" "hdr_height h = kFixtureHeight" "hdr_pixel_format h = V4L2_PIX_FMT_YUYV"
    and p: "take (unat (hdr_payload_size h)) (drop kWireHeaderSize bs) = make_fixture_payload (of_nat i)"
      "min (length bs - kWireHeaderSize) (unat (hdr_payload_size h)) = unat (hdr_payload_size h)"
      "compute_crc32 (make_fixture_payload (of_nat i)) = hdr_payload_crc32 h"
    and rest: "verify_loop eof (drop (kWireHeaderSize + length (make_fixture_payload (of_nat i))) bs) (i + 1)
        (b + (kWireHeaderSize + length (make_fixture_payload (of_nat i)))) = Inr (n, b')"
    by (auto simp add: Let_def split: if_splits sum.splits option.splits)
  have "unat (hdr_payload_size h) = 64" using p(2) arg_cong [OF p(1), of length] by simp
  with h p rest show thesis by (intro frame) (simp_all add: kWireHeaderSize_def)
qed

lemma verify_loop_accepts:
  "verify_loop eof bs i b = Inr (n, b') \<Longrightarrow>
     eof \<and> i \<le> n \<and> bs = concat (map fixture_frame [i..<n]) \<and> b' = b + length bs"
proof (induction "length bs" arbitrary: bs i b rule: less_induct)
  case less
  from less.prems show ?case
  proof (cases rule: verify_loop_turn)
    case finished
    then show ?thesis by simp
  next
    case (frame h)
    have "h = fixture_header (of_nat i)" using frame by (intro header_determined) simp_all
    with frame(1,9) have "fixture_frame i = take kWireHeaderSize bs @ take 64 (drop kWireHeaderSize bs)"
      by (simp add: fixture_frame_def deserialize_header_iff)
    also have "\<dots> = take 108 bs" by (simp add: slices_join_end kWireHeaderSize_def)
    finally have bs: "bs = fixture_frame i @ drop 108 bs" by simp
    have "length (fixture_frame i @ drop 108 bs) = 108 + length (drop 108 bs)" by (simp del: length_drop)
    then have l: "length bs = 108 + length (drop 108 bs)" using bs by (simp only: bs [symmetric])
    then have "length (drop 108 bs) < length bs" by (simp only:)
    from less.hyps [OF this frame(10)] have IH: "eof" "i + 1 \<le> n" "drop 108 bs = concat (map fixture_frame [i + 1..<n])"
      "b' = b + 108 + length (drop 108 bs)" by blast+
    have "[i..<n] = i # [i + 1..<n]" using IH(2) by (simp add: upt_conv_Cons)
    then have "concat (map fixture_frame [i..<n]) = fixture_frame i @ drop 108 bs" using IH(3) by simp
    then have "bs = concat (map fixture_frame [i..<n])" using bs by (rule trans [OF _ sym, rotated])
    with IH(1,2,4) l show ?thesis by linarith
  qed
qed

lemma verify_loop_iff:
  assumes "n \<le> 1000000"
  shows "verify_loop eof bs 0 0 = Inr (n, b) \<longleftrightarrow> eof \<and> bs = fixture_bytes n \<and> b = length bs"
proof
  assume "verify_loop eof bs 0 0 = Inr (n, b)"
  from verify_loop_accepts [OF this] show "eof \<and> bs = fixture_bytes n \<and> b = length bs"
    by (simp add: fixture_bytes_def)
next
  assume a: "eof \<and> bs = fixture_bytes n \<and> b = length bs"
  have "verify_loop True [] n (108 * n) = Inr (n, 108 * n)" by (subst verify_loop.simps) (simp add: Let_def)
  moreover have "length (fixture_bytes n) = 108 * n"
    by (simp add: fixture_bytes_def length_concat comp_def sum_list_triv)
  ultimately show "verify_loop eof bs 0 0 = Inr (n, b)"
    using a assms verify_loop_frames [of 0 n eof "[]" 0] by (simp add: fixture_bytes_def)
qed

section \<open>Properties\<close>

text \<open>
  The verification accepts exactly the file the tool writes. For every number of frames the options allow,
  \<open>verify_fixture\<close> succeeds on a file if and only if it could be read to its end and consists of the bytes
  \<open>write_fixture\<close> writes for that number of frames (and the statistics file can be opened): a single
  changed, missing or additional byte is refused.
\<close>

theorem verify_fixture_accepts_iff:
  assumes "fx_frames opts \<le> 1000000" and "files_in (verify_path opts) = Some (content, eof)"
  shows "(\<exists>written. verify_fixture files_in fs opts = Inr written) \<longleftrightarrow>
    eof \<and> content = fst (write_loop (fx_frames opts) 0 [] 0) \<and>
    (fx_stats_output opts = [] \<or> fs (fx_stats_output opts) \<in> {FileOk, WriteFailed})"
proof -
  have "(\<exists>w. fixture_write_stats fs p m f n b v = Inr w) \<longleftrightarrow> p = [] \<or> fs p \<in> {FileOk, WriteFailed}" for p m f n b v
    by (auto simp: fixture_write_stats_def split: file_result.split)
  then show ?thesis
    using verify_loop_iff [OF assms(1), of eof content] assms(2)
    by (auto simp: verify_fixture_def write_loop_fixture)
qed

theorem verify_fixture_accepts_iff_witness:
  "\<exists>e. verify_fixture (\<lambda>p. Some ([0x50, 0x54, 0x34], True)) (\<lambda>p. FileOk) (Options\<lparr>verify_path := ''f'', fx_frames := 1\<rparr>) = Inl e"
proof -
  have "fst (write_loop 1 0 [] 0) \<noteq> [0x50, 0x54, 0x34]"
    by (auto simp: write_loop_fixture fixture_bytes_def dest: arg_cong [of _ _ length])
  with verify_fixture_accepts_iff [of "Options\<lparr>verify_path := ''f'', fx_frames := 1\<rparr>" "\<lambda>p. Some ([0x50, 0x54, 0x34], True)"
      "[0x50, 0x54, 0x34]" True "\<lambda>p. FileOk"]
  show ?thesis
    by (cases "verify_fixture (\<lambda>p. Some ([0x50, 0x54, 0x34], True)) (\<lambda>p. FileOk) (Options\<lparr>verify_path := ''f'', fx_frames := 1\<rparr>)") auto
qed

text \<open>
  The tool verifies what it wrote. Running it with \<open>--write\<close> and then, on the file it produced, with
  \<open>--verify\<close> and the same number of frames gives exit code 0 both times.
\<close>

theorem fixture_main_round_trip:
  assumes "path \<noteq> []" and "0 < n" and "n \<le> 1000000" and "fs path = FileOk"
  shows "\<exists>content. fixture_main files_in fs [''--write'', path, ''--frames'', to_string n] = (0, [(path, content)]) \<and>
    (files_in path = Some (content, True) \<longrightarrow>
       fixture_main files_in fs [''--verify'', path, ''--frames'', to_string n] = (0, []))"
proof -
  have n: "parse_positive_u64 (to_string n) name = Inr n" for name
    using assms(2,3) by (simp add: parse_positive_u64_def stoull_to_string)
  have "verify_loop True (fixture_bytes n) 0 0 = Inr (n, length (fixture_bytes n))"
    using verify_loop_iff [OF assms(3)] by blast
  then show ?thesis
    using assms n
    by (simp add: fixture_main_def parse_options_def Options_def write_fixture_def fixture_write_stats_def write_loop_fixture
        verify_fixture_def)
qed

theorem fixture_main_round_trip_witness:
  "\<exists>content. fixture_main (\<lambda>p. None) (\<lambda>p. FileOk) [''--write'', ''out.bin'', ''--frames'', to_string 3] = (0, [(''out.bin'', content)])"
  using fixture_main_round_trip [of "''out.bin''" 3 "\<lambda>p. FileOk" "\<lambda>p. None"] by auto

end
