(* ===== verification/Stats_Json.thy ===== *)
theory Stats_Json
  imports Latency_Stats Cpp_Strings
begin

text \<open>
  The building blocks of \<open>src/stats_json.cpp\<close>: escaping of JSON strings, the fields of a report, the number
  format of \<open>std::fixed << std::setprecision(3)\<close> and \<open>write_atomic_text_file\<close>. The reports themselves are in
  \<open>Stats_Reports\<close>.

  A reader of flat JSON objects is defined as the specification of the texts: members of a string name
  and a number or a string, white space as in RFC 8259.
\<close>

section \<open>Escaping\<close>

definition hex_digit :: "nat \<Rightarrow> char" where
  "hex_digit d = (if d < 10 then char_of (48 + d) else char_of (87 + d))"

text \<open>\<open>std::hex << std::setw(4) << std::setfill('0')\<close> of a value below 256.\<close>

definition hex4 :: "nat \<Rightarrow> string" where
  "hex4 n = ''00'' @ [hex_digit (n div 16), hex_digit (n mod 16)]"

definition escape_char :: "char \<Rightarrow> string" where
  "escape_char ch =
     (if ch = CHR 0x5C then [CHR 0x5C, CHR 0x5C]
      else if ch = CHR 0x22 then [CHR 0x5C, CHR 0x22]
      else if ch = CHR 0x0A then [CHR 0x5C, CHR ''n'']
      else if ch = CHR 0x0D then [CHR 0x5C, CHR ''r'']
      else if ch = CHR 0x09 then [CHR 0x5C, CHR ''t'']
      else if (of_char ch :: nat) < 0x20 then [CHR 0x5C, CHR ''u''] @ hex4 (of_char ch)
      else [ch])"

definition json_escape :: "string \<Rightarrow> string" where
  "json_escape text = concat (map escape_char text)"

section \<open>Numbers and fields\<close>

definition round_half_even :: "real \<Rightarrow> nat" where
  "round_half_even y =
     (let f = nat \<lfloor>y\<rfloor>; d = y - real f in
      if d < 1 / 2 \<or> (d = 1 / 2 \<and> even f) then f else f + 1)"

definition pad3 :: "nat \<Rightarrow> string" where
  "pad3 n = [digit_char (n div 100 mod 10), digit_char (n div 10 mod 10), digit_char (n mod 10)]"

definition fixed3 :: "real \<Rightarrow> string" where
  "fixed3 x =
     (let m = round_half_even (1000 * \<bar>x\<bar>) in
      (if x < 0 then ''-'' else []) @ to_string (m div 1000) @ ''.'' @ pad3 (m mod 1000))"

text \<open>The text of one field, as the output statements write it.\<close>

definition field_line :: "string \<times> string \<Rightarrow> string" where
  "field_line f = (case f of (key, val) \<Rightarrow>
     ''  '' @ [CHR 0x22] @ key @ [CHR 0x22] @ '': '' @ val @ '','' @ [CHR 0x0A])"

text \<open>\<open>write_latency_fields\<close>; every caller passes \<open>trailing_comma = true\<close>.\<close>

definition latency_fields :: "string \<Rightarrow> latency_summary \<Rightarrow> (string \<times> string) list" where
  "latency_fields name summary =
     [(name @ ''_samples'', to_string (sample_count summary)),
      (name @ ''_min_us'', fixed3 (min_us summary)),
      (name @ ''_mean_us'', fixed3 (mean_us summary)),
      (name @ ''_p50_us'', fixed3 (p50_us summary)),
      (name @ ''_p95_us'', fixed3 (p95_us summary)),
      (name @ ''_p99_us'', fixed3 (p99_us summary)),
      (name @ ''_max_us'', fixed3 (max_us summary)),
      (name @ ''_jitter_us'', fixed3 (jitter_us summary))]"

text \<open>A report: the fields in order, then \<open>last_error\<close>.\<close>

definition report_text :: "(string \<times> string) list \<Rightarrow> string \<Rightarrow> string" where
  "report_text members last_err =
     ''{'' @ [CHR 0x0A] @ concat (map field_line members) @
     ''  '' @ [CHR 0x22] @ ''last_error'' @ [CHR 0x22] @ '': '' @ [CHR 0x22] @ json_escape last_err @ [CHR 0x22] @ [CHR 0x0A] @
     ''}'' @ [CHR 0x0A]"

section \<open>Writing a file atomically\<close>

text \<open>
  A file system maps paths to contents. The answers of the environment: the exception of
  \<open>create_directories\<close>, whether the temporary file opens, whether \<open>write\<close> reports an error (with what it
  left in the file), how much of the text reaches the file when the stream is closed (the code does not
  check that), and the outcomes of the three calls at the end, an error message for a failed \<open>rename\<close>.
\<close>

type_synonym files = "string \<rightharpoonup> string"

record write_env =
  we_create_dirs :: "exn option"
  we_open :: bool
  we_write :: "string option"
  we_flushed :: "string \<Rightarrow> string"
  we_rename :: "string option"
  we_remove :: bool
  we_rename_again :: "string option"

definition rename_file :: "string \<Rightarrow> string \<Rightarrow> files \<Rightarrow> files" where
  "rename_file src dst fs = (fs(dst := fs src))(src := None)"

text \<open>The states of the file system in order, the last one is the final state, and the exception.\<close>

definition write_atomic_text_file :: "write_env \<Rightarrow> string \<Rightarrow> string \<Rightarrow> files \<Rightarrow> files list \<times> exn option" where
  "write_atomic_text_file env target text fs =
     (if target = [] then ([fs], Some (RuntimeError ''stats output path must not be empty''))
      else if CHR ''/'' \<in> set target \<and> we_create_dirs env \<noteq> None then ([fs], we_create_dirs env)
      else
        (let temp = target @ ''.tmp'' in
         if \<not> we_open env then ([fs], Some (RuntimeError (''Failed to open temporary stats file: '' @ temp)))
         else
           (let fs1 = fs(temp \<mapsto> []) in
            case we_write env of
              Some partial \<Rightarrow>
                ([fs, fs1, fs1(temp \<mapsto> partial)], Some (RuntimeError (''Failed to write temporary stats file: '' @ temp)))
            | None \<Rightarrow>
                (let fs2 = fs1(temp \<mapsto> we_flushed env text) in
                 case we_rename env of
                   None \<Rightarrow> ([fs, fs1, fs2, rename_file temp target fs2], None)
                 | Some msg1 \<Rightarrow>
                     (let fs3 = (if we_remove env then fs2(target := None) else fs2) in
                      case we_rename_again env of
                        None \<Rightarrow> ([fs, fs1, fs2, fs3, rename_file temp target fs3], None)
                      | Some msg \<Rightarrow>
                          ([fs, fs1, fs2, fs3],
                           Some (RuntimeError (''Failed to atomically replace stats file '' @ target @ '': '' @ msg))))))))"

section \<open>Reading JSON\<close>

datatype json = JNumber string | JString string

definition json_space :: "char \<Rightarrow> bool" where
  "json_space c = (c = CHR 0x20 \<or> c = CHR 0x09 \<or> c = CHR 0x0A \<or> c = CHR 0x0D)"

definition skip_space :: "string \<Rightarrow> string" where
  "skip_space = dropWhile json_space"

definition hex_value :: "char \<Rightarrow> nat option" where
  "hex_value c =
     (let n = (of_char c :: nat) in
      if 48 \<le> n \<and> n \<le> 57 then Some (n - 48)
      else if 97 \<le> n \<and> n \<le> 102 then Some (n - 87)
      else if 65 \<le> n \<and> n \<le> 70 then Some (n - 55) else None)"

text \<open>A character given by its code; codes above 255 do not occur in byte strings.\<close>

definition hex_char :: "char \<Rightarrow> char \<Rightarrow> char \<Rightarrow> char \<Rightarrow> char option" where
  "hex_char a b c d =
     (case (hex_value a, hex_value b, hex_value c, hex_value d) of
        (Some i, Some j, Some k, Some l) \<Rightarrow>
          (let n = ((i * 16 + j) * 16 + k) * 16 + l in if n < 256 then Some (char_of n) else None)
      | _ \<Rightarrow> None)"

definition simple_escape :: "char \<Rightarrow> char option" where
  "simple_escape c =
     (if c = CHR 0x22 \<or> c = CHR 0x5C \<or> c = CHR ''/'' then Some c
      else if c = CHR ''n'' then Some (CHR 0x0A)
      else if c = CHR ''r'' then Some (CHR 0x0D)
      else if c = CHR ''t'' then Some (CHR 0x09)
      else if c = CHR ''b'' then Some (CHR 0x08)
      else if c = CHR ''f'' then Some (CHR 0x0C)
      else None)"

text \<open>The rest of a string after the opening quote: its value and what follows the closing quote.\<close>

fun read_string :: "string \<Rightarrow> (string \<times> string) option" where
  "read_string [] = None"
| "read_string (c # r) =
     (if c = CHR 0x22 then Some ([], r)
      else if (of_char c :: nat) < 0x20 then None
      else if c \<noteq> CHR 0x5C then map_option (\<lambda>(s, t). (c # s, t)) (read_string r)
      else case r of
        [] \<Rightarrow> None
      | e # r1 \<Rightarrow>
          if e = CHR ''u'' then
            (case r1 of h1 # h2 # h3 # h4 # r2 \<Rightarrow>
               (case hex_char h1 h2 h3 h4 of
                  None \<Rightarrow> None
                | Some ch \<Rightarrow> map_option (\<lambda>(s, t). (ch # s, t)) (read_string r2))
             | _ \<Rightarrow> None)
          else case simple_escape e of
            None \<Rightarrow> None
          | Some ch \<Rightarrow> map_option (\<lambda>(s, t). (ch # s, t)) (read_string r1))"

definition number_char :: "char \<Rightarrow> bool" where
  "number_char c = (isdigit c \<or> c = CHR ''.'' \<or> c = CHR ''-'')"

definition read_value :: "string \<Rightarrow> (json \<times> string) option" where
  "read_value s =
     (if s \<noteq> [] \<and> hd s = CHR 0x22 then map_option (\<lambda>(v, r). (JString v, r)) (read_string (tl s))
      else let ds = takeWhile number_char s in
        if ds = [] then None else Some (JNumber ds, dropWhile number_char s))"

definition read_member :: "string \<Rightarrow> ((string \<times> json) \<times> string) option" where
  "read_member s = (case skip_space s of
      q # r \<Rightarrow>
        (if q \<noteq> CHR 0x22 then None
         else case read_string r of
           None \<Rightarrow> None
         | Some (key, r) \<Rightarrow>
             (case skip_space r of
                colon # r \<Rightarrow>
                  (if colon \<noteq> CHR '':'' then None
                   else map_option (\<lambda>(v, r). ((key, v), skip_space r)) (read_value (skip_space r)))
              | [] \<Rightarrow> None))
    | [] \<Rightarrow> None)"

text \<open>The members up to the closing brace; each takes at least one character, so the length is enough fuel.\<close>

fun read_members :: "nat \<Rightarrow> string \<Rightarrow> (string \<times> json) list option" where
  "read_members 0 s = None"
| "read_members (Suc n) s = (case read_member s of
      None \<Rightarrow> None
    | Some (m, r) \<Rightarrow>
        (case r of
           [] \<Rightarrow> None
         | c # r \<Rightarrow>
             if c = CHR '','' then map_option (Cons m) (read_members n r)
             else if c = CHR 0x7D \<and> skip_space r = [] then Some [m]
             else None))"

definition read_object :: "string \<Rightarrow> (string \<times> json) list option" where
  "read_object s = (case skip_space s of
      [] \<Rightarrow> None
    | c # r \<Rightarrow> if c = CHR 0x7B then read_members (length r) r else None)"

section \<open>Lemmas\<close>

lemma char_cases_code: "c = char_of (of_char c :: nat)" "(of_char c :: nat) < 256"
  by simp_all

lemma hex_value_digit: "d < 16 \<Longrightarrow> hex_value (hex_digit d) = Some d"
  by (auto simp: hex_value_def hex_digit_def Let_def)

lemma hex_char_hex4:
  "(of_char c :: nat) < 256 \<Longrightarrow> hex_char (CHR ''0'') (CHR ''0'') (hex_digit (of_char c div 16)) (hex_digit (of_char c mod 16)) = Some c"
proof -
  assume "(of_char c :: nat) < 256"
  then have "of_char c div 16 < (16 :: nat)" "of_char c mod 16 < (16 :: nat)"
    by (simp_all only: less_mult_imp_div_less [of _ 16 16, simplified] mod_less_divisor zero_less_numeral)
  moreover have "hex_value (CHR ''0'') = Some 0" by (simp add: hex_value_def)
  ultimately show ?thesis by (simp add: hex_char_def hex_value_digit Let_def)
qed

lemma read_string_escape_char:
  "read_string (escape_char c @ r) = map_option (\<lambda>(s, t). (c # s, t)) (read_string r)"
  using hex_char_hex4 [of c]
  by (auto simp: escape_char_def hex4_def simple_escape_def)

lemma read_string_escape: "read_string (json_escape s @ CHR 0x22 # r) = Some (s, r)"
proof (induction s)
  case Nil
  then show ?case by (simp add: json_escape_def)
next
  case (Cons c s)
  then show ?case by (simp add: json_escape_def read_string_escape_char)
qed

lemma read_string_plain:
  "\<forall>c \<in> set s. (of_char c :: nat) \<ge> 0x20 \<and> c \<noteq> CHR 0x22 \<and> c \<noteq> CHR 0x5C \<Longrightarrow> read_string (s @ CHR 0x22 # r) = Some (s, r)"
  by (induction s) auto

definition plain_key :: "string \<Rightarrow> bool" where
  "plain_key s \<longleftrightarrow> (\<forall>c \<in> set s. (of_char c :: nat) \<ge> 0x20 \<and> c \<noteq> CHR 0x22 \<and> c \<noteq> CHR 0x5C)"

definition number_text :: "string \<Rightarrow> bool" where
  "number_text s \<longleftrightarrow> s \<noteq> [] \<and> (\<forall>c \<in> set s. number_char c)"

lemma number_char_not: "number_char c \<Longrightarrow> \<not> json_space c \<and> c \<noteq> CHR 0x22"
  by (auto simp: number_char_def json_space_def isdigit_def)

lemma number_text_to_string [simp]: "number_text (to_string n)"
  by (auto simp: number_text_def number_char_def dest: to_string_digits)

lemma number_text_fixed3 [simp]: "number_text (fixed3 x)"
  by (auto simp: number_text_def fixed3_def Let_def number_char_def pad3_def dest: to_string_digits)

lemma skip_space_stop [simp]: "\<not> json_space c \<Longrightarrow> skip_space (c # r) = c # r"
  by (simp add: skip_space_def)

lemma skip_space_blank [simp]: "skip_space (CHR '' '' # r) = skip_space r" "skip_space (CHR 0x0A # r) = skip_space r"
  by (simp_all add: skip_space_def json_space_def)

lemma json_space_chars [simp]:
  "\<not> json_space (CHR 0x22)" "\<not> json_space (CHR '':'')" "\<not> json_space (CHR '','')" "\<not> json_space (CHR 0x7D)" "\<not> json_space (CHR 0x7B)"
  by (simp_all add: json_space_def)

lemma read_value_number:
  assumes "number_text v" and "\<not> number_char c"
  shows "read_value (v @ c # r) = Some (JNumber v, c # r)" and "skip_space (v @ c # r) = v @ c # r"
proof -
  obtain d w where v: "v = d # w" using assms(1) by (cases v) (auto simp: number_text_def)
  then have d: "number_char d" using assms(1) by (simp add: number_text_def)
  have "takeWhile number_char (v @ c # r) = v" "dropWhile number_char (v @ c # r) = c # r"
    using assms by (simp_all add: number_text_def takeWhile_append2 dropWhile_append2)
  then show "read_value (v @ c # r) = Some (JNumber v, c # r)" using v number_char_not [OF d] by (simp add: read_value_def Let_def)
  show "skip_space (v @ c # r) = v @ c # r" using v number_char_not [OF d] by simp
qed

lemma read_member_field:
  assumes "plain_key k" and "number_text v"
  shows "read_member (CHR 0x0A # field_line (k, v) @ r) = Some ((k, JNumber v), CHR '','' # CHR 0x0A # r)"
proof -
  have c: "\<not> number_char (CHR '','')" by (simp add: number_char_def isdigit_def)
  have key: "read_string (k @ CHR 0x22 # t) = Some (k, t)" for t
    using assms(1) by (simp add: read_string_plain plain_key_def)
  show ?thesis
    using read_value_number [OF assms(2) c, of "CHR 0x0A # r"]
    by (simp add: read_member_def field_line_def key)
qed

lemma read_member_last:
  "read_member (CHR 0x0A # ''  '' @ [CHR 0x22] @ ''last_error'' @ [CHR 0x22] @ '': '' @ [CHR 0x22] @ json_escape e @ [CHR 0x22] @
     [CHR 0x0A] @ ''}'' @ [CHR 0x0A]) = Some ((''last_error'', JString e), ''}'' @ [CHR 0x0A])"
proof -
  have key: "read_string (''last_error'' @ CHR 0x22 # t) = Some (''last_error'', t)" for t
    by (rule read_string_plain) simp
  then have key': "read_string (CHR ''l'' # CHR ''a'' # CHR ''s'' # CHR ''t'' # CHR ''_'' # CHR ''e'' # CHR ''r'' # CHR ''r'' #
      CHR ''o'' # CHR ''r'' # CHR 0x22 # t) = Some (''last_error'', t)" for t by simp
  show ?thesis
    using read_string_escape [of e "CHR 0x0A # CHR 0x7D # [CHR 0x0A]"]
    by (simp add: read_member_def key' read_value_def del: read_string.simps)
qed

lemma read_members_report:
  assumes "\<forall>(k, v) \<in> set ms. plain_key k \<and> number_text v" and "length ms < n"
  shows "read_members n (CHR 0x0A # concat (map field_line ms) @ ''  '' @ [CHR 0x22] @ ''last_error'' @ [CHR 0x22] @ '': '' @
      [CHR 0x22] @ json_escape e @ [CHR 0x22] @ [CHR 0x0A] @ ''}'' @ [CHR 0x0A]) =
    Some (map (\<lambda>(k, v). (k, JNumber v)) ms @ [(''last_error'', JString e)])"
  using assms
proof (induction ms arbitrary: n)
  case Nil
  then obtain m where "n = Suc m" by (cases n) auto
  moreover have "skip_space [CHR 0x0A] = []" by (simp add: skip_space_def json_space_def)
  ultimately show ?case using read_member_last [of e] by simp
next
  case (Cons f ms)
  obtain k v where f: "f = (k, v)" by fastforce
  from Cons.prems obtain m where n: "n = Suc m" "length ms < m" by (cases n) auto
  show ?case
    using Cons.IH [OF _ n(2)] Cons.prems(1) read_member_field [of k v] by (simp add: f n(1))
qed

lemma read_object_report:
  assumes "\<forall>(k, v) \<in> set ms. plain_key k \<and> number_text v"
  shows "read_object (report_text ms e) = Some (map (\<lambda>(k, v). (k, JNumber v)) ms @ [(''last_error'', JString e)])"
proof -
  have "length ms \<le> length (concat (map field_line ms))"
    by (induction ms) (auto simp: field_line_def)
  then show ?thesis using read_members_report [OF assms] by (simp add: read_object_def report_text_def del: read_members.simps)
qed

lemma write_atomic_ok:
  "write_atomic_text_file env target text fs = (states, None) \<Longrightarrow> we_flushed env text = text \<Longrightarrow> last states target = Some text"
  by (auto simp: write_atomic_text_file_def rename_file_def Let_def split: if_splits option.splits)

section \<open>Properties\<close>


definition fine_write_env :: write_env where
  "fine_write_env = \<lparr>we_create_dirs = None, we_open = True, we_write = None, we_flushed = (\<lambda>t. t), we_rename = None,
     we_remove = True, we_rename_again = None\<rparr>"


text \<open>The code does not notice that closing the stream failed: a truncated text replaces the old content.\<close>

lemma write_atomic_unchecked_close:
  "last (fst (write_atomic_text_file (fine_write_env\<lparr>we_flushed := (\<lambda>t. [])\<rparr>) ''s.json'' ''new'' [''s.json'' \<mapsto> ''old''])) ''s.json'' = Some [] \<and>
   snd (write_atomic_text_file (fine_write_env\<lparr>we_flushed := (\<lambda>t. [])\<rparr>) ''s.json'' ''new'' [''s.json'' \<mapsto> ''old'']) = None"
  by (simp add: write_atomic_text_file_def fine_write_env_def rename_file_def Let_def)

end
