(* ===== verification/Tcp_Receiver.thy ===== *)
theory Tcp_Receiver
  imports Frame_Protocol Latency_Stats
begin

unbundle bit_operations_syntax

text \<open>
  The TCP receiver tool, \<open>src/tcp_receiver.cpp\<close>: exact reads from a stream socket, the per-session
  frame loop with its header, payload and CRC checks, the accept loop over sessions, the command
  line and the exit code.

  The environment is explicit. A connection is the byte stream the peer writes before it closes,
  together with one \<open>recv_event\<close> per call of \<open>recv\<close>: how many bytes the kernel is ready to hand out
  (at least one while bytes are left, never more than requested; zero at the end of the stream), or
  an error. \<open>accept\<close> answers from a list. The system clock read after the \<open>n\<close>-th complete frame is
  \<open>clock n\<close>, and \<open>file_system path\<close> is what happens when the payload file is written. A call that has not
  returned when its events are used up is \<open>Blocked\<close>. Counters are natural numbers; messages printed
  on the console are not modelled, \<open>last_error\<close> is.
\<close>

section \<open>Command line\<close>

record receiver_config =
  port :: int
  output_dir :: string
  max_frames :: int
  max_sessions :: int
  stats_output :: string
  max_payload_bytes :: u32
  save_payloads :: bool

definition parse_int_arg :: "string \<Rightarrow> string \<Rightarrow> int result" where
  "parse_int_arg text name =
     (let failure = Inl (InvalidArgument (''Invalid integer for '' @ name @ '': '' @ text)) in
      case stol text of
        Inl e \<Rightarrow> failure
      | Inr (v, pos) \<Rightarrow> if pos \<noteq> length text \<or> v < 0 \<or> v > 1000000 then failure else Inr v)"

definition parse_u32_arg :: "string \<Rightarrow> string \<Rightarrow> u32 result" where
  "parse_u32_arg text name =
     (let failure = Inl (InvalidArgument (''Invalid unsigned integer for '' @ name @ '': '' @ text)) in
      case stoull text of
        Inl e \<Rightarrow> failure
      | Inr (v, pos) \<Rightarrow> if pos \<noteq> length text \<or> v = 0 \<or> v > 2 ^ 32 - 1 then failure else Inr (of_nat v))"

definition default_receiver_config :: receiver_config where
  "default_receiver_config = \<lparr>port = 9000, output_dir = ''output/tcp_recv'', max_frames = 0, max_sessions = 1,
     stats_output = ''output/stats/receiver_stats.json'', max_payload_bytes = kDefaultMaxPayloadBytes,
     save_payloads = True\<rparr>"

text \<open>The argument loop; \<open>None\<close> is the early return after \<open>--help\<close>.\<close>

fun parse_receiver_args :: "string list \<Rightarrow> receiver_config \<Rightarrow> receiver_config option result" where
  "parse_receiver_args [] c = Inr (Some c)"
| "parse_receiver_args (arg # args) c =
    (if arg = ''--help'' then Inr None
     else if arg = ''--discard-payload'' then parse_receiver_args args (c\<lparr>save_payloads := False\<rparr>)
     else case args of
       [] \<Rightarrow> Inl (InvalidArgument (''Unknown or incomplete argument: '' @ arg))
     | val # rest \<Rightarrow>
         if arg = ''--port'' then
           bind_r (parse_int_arg val arg) (\<lambda>v. parse_receiver_args rest (c\<lparr>port := v\<rparr>))
         else if arg = ''--output'' then parse_receiver_args rest (c\<lparr>output_dir := val\<rparr>)
         else if arg = ''--max-frames'' then
           bind_r (parse_int_arg val arg) (\<lambda>v. parse_receiver_args rest (c\<lparr>max_frames := v\<rparr>))
         else if arg = ''--max-sessions'' then
           bind_r (parse_int_arg val arg) (\<lambda>v. parse_receiver_args rest (c\<lparr>max_sessions := v\<rparr>))
         else if arg = ''--stats-output'' then parse_receiver_args rest (c\<lparr>stats_output := val\<rparr>)
         else if arg = ''--max-payload-bytes'' then
           bind_r (parse_u32_arg val arg) (\<lambda>v. parse_receiver_args rest (c\<lparr>max_payload_bytes := v\<rparr>))
         else Inl (InvalidArgument (''Unknown or incomplete argument: '' @ arg)))"

definition check_receiver_config :: "receiver_config \<Rightarrow> receiver_config result" where
  "check_receiver_config c =
     throw_if (port c \<le> 0 \<or> port c > 65535) (InvalidArgument ''--port must be between 1 and 65535'')
     (throw_if (max_sessions c \<le> 0) (InvalidArgument ''--max-sessions must be positive'') (Inr c))"

section \<open>Reading from the socket\<close>

datatype recv_event = Ready nat | RecvError errno

record conn =
  pending :: bytes
  events :: "recv_event list"

datatype read_result = ReadAll bytes | PeerClosed | ReadThrew exn | ReadBlocked

fun read_loop :: "(errno \<Rightarrow> string) \<Rightarrow> nat \<Rightarrow> bytes \<Rightarrow> bytes \<Rightarrow> recv_event list \<Rightarrow> read_result \<times> conn" where
  "read_loop strerror size_n buf stream [] =
     (if length buf < size_n then ReadBlocked else ReadAll buf, \<lparr>pending = stream, events = []\<rparr>)"
| "read_loop strerror size_n buf stream (ev # evs) =
     (if length buf < size_n then
        (case ev of
           RecvError n \<Rightarrow>
             if n = EINTR then read_loop strerror size_n buf stream evs
             else (ReadThrew (RuntimeError (''recv failed: '' @ strerror n)), \<lparr>pending = stream, events = evs\<rparr>)
         | Ready k \<Rightarrow>
             (let n = min (Suc k) (min (size_n - length buf) (length stream)) in
              if n = 0 then (PeerClosed, \<lparr>pending = stream, events = evs\<rparr>)
              else read_loop strerror size_n (buf @ take n stream) (drop n stream) evs))
      else (ReadAll buf, \<lparr>pending = stream, events = ev # evs\<rparr>))"

definition read_exact :: "(errno \<Rightarrow> string) \<Rightarrow> conn \<Rightarrow> nat \<Rightarrow> read_result \<times> conn" where
  "read_exact strerror c size_n = read_loop strerror size_n [] (pending c) (events c)"

section \<open>Payload files\<close>

definition fourcc_to_string :: "u32 \<Rightarrow> string" where
  "fourcc_to_string fourcc =
     [char_of (unat (fourcc AND 0xff)), char_of (unat (drop_bit 8 fourcc AND 0xff)),
      char_of (unat (drop_bit 16 fourcc AND 0xff)), char_of (unat (drop_bit 24 fourcc AND 0xff))]"

definition payload_path :: "frame_header \<Rightarrow> string \<Rightarrow> nat \<Rightarrow> string" where
  "payload_path header dir index =
     dir @ ''/recv_frame_'' @ to_string index @ ''_id_'' @ to_string (unat (hdr_frame_id header)) @ ''.'' @
     fourcc_to_string (hdr_pixel_format header)"

definition save_payload ::
    "(string \<Rightarrow> file_result) \<Rightarrow> frame_header \<Rightarrow> bytes \<Rightarrow> string \<Rightarrow> nat \<Rightarrow> (string \<times> bytes) result" where
  "save_payload fs header payload dir index =
     (let path = payload_path header dir index in
      case fs path of
        CreateDirsFailed m \<Rightarrow> Inl (RuntimeError m)
      | OpenFailed \<Rightarrow> Inl (RuntimeError (''Failed to open output file: '' @ path))
      | WriteFailed \<Rightarrow> Inl (RuntimeError (''Failed to write output file: '' @ path))
      | FileOk \<Rightarrow> Inr (path, payload))"

section \<open>The frame loop of one session\<close>

text \<open>
  The counters of \<open>main\<close>, the files written so far, and \<open>frames\<close>, a ghost log of the frames counted
  in \<open>received_frames\<close>.
\<close>

record receiver =
  received_frames :: nat
  received_bytes :: nat
  saved_files :: nat
  crc_errors :: nat
  header_errors :: nat
  rejected_frames :: nat
  accepted_sessions :: nat
  completed_sessions :: nat
  peer_disconnects :: nat
  latency_clock_errors :: nat
  e2e_latency :: latency_stats
  last_error :: string
  fatal_protocol_error :: bool
  files :: "(string \<times> bytes) list"
  frames :: "(frame_header \<times> bytes) list"

record receiver_env =
  env_strerror :: "errno \<Rightarrow> string"
  clock :: "nat \<Rightarrow> u64"
  file_system :: "string \<Rightarrow> file_result"

definition want_frames :: "receiver_config \<Rightarrow> receiver \<Rightarrow> bool" where
  "want_frames cfg s = (max_frames cfg \<le> 0 \<or> int (received_frames s) < max_frames cfg)"

definition reject_frame :: "string \<Rightarrow> receiver \<Rightarrow> receiver" where
  "reject_frame msg s =
     s\<lparr>rejected_frames := rejected_frames s + 1, last_error := msg, fatal_protocol_error := True\<rparr>"

definition record_latency :: "receiver_env \<Rightarrow> frame_header \<Rightarrow> receiver \<Rightarrow> receiver" where
  "record_latency env h s =
     (let now = clock env (received_frames s) in
      if now \<ge> hdr_capture_timestamp_ns h
      then s\<lparr>e2e_latency :=
             add_sample_us (Finite (real (unat (now - hdr_capture_timestamp_ns h)) / 1000)) (e2e_latency s)\<rparr>
      else s\<lparr>latency_clock_errors := latency_clock_errors s + 1\<rparr>)"

definition accept_frame ::
    "receiver_config \<Rightarrow> receiver_env \<Rightarrow> frame_header \<Rightarrow> bytes \<Rightarrow> receiver \<Rightarrow> exn option \<times> receiver" where
  "accept_frame cfg env h payload s =
     (let s = record_latency env h s;
          s = s\<lparr>received_frames := received_frames s + 1, received_bytes := received_bytes s + length payload,
                frames := frames s @ [(h, payload)]\<rparr>
      in if save_payloads cfg then
           (case save_payload (file_system env) h payload (output_dir cfg) (received_frames s) of
              Inl e \<Rightarrow> (Some e, s)
            | Inr f \<Rightarrow> (None, s\<lparr>saved_files := saved_files s + 1, files := files s @ [f]\<rparr>))
         else (None, s))"

text \<open>
  How one turn of the frame loop ends: the next turn, \<open>break\<close> with the value of \<open>session_ok\<close>, an
  exception, or a \<open>recv\<close> that has not returned.
\<close>

datatype turn = NextFrame | BreakSession bool | TurnThrew exn | TurnBlocked

definition frame_turn ::
    "receiver_config \<Rightarrow> receiver_env \<Rightarrow> conn \<Rightarrow> receiver \<Rightarrow> turn \<times> conn \<times> receiver" where
  "frame_turn cfg env c s =
    (case read_exact (env_strerror env) c kWireHeaderSize of
       (ReadBlocked, c) \<Rightarrow> (TurnBlocked, c, s)
     | (ReadThrew e, c) \<Rightarrow> (TurnThrew e, c, s)
     | (PeerClosed, c) \<Rightarrow> (BreakSession True, c, s\<lparr>peer_disconnects := peer_disconnects s + 1\<rparr>)
     | (ReadAll wire_header, c) \<Rightarrow>
       (case deserialize_header (Some wire_header) of
          Inl reason \<Rightarrow>
            (BreakSession False, c,
             reject_frame (''failed to decode frame header: '' @ reason) (s\<lparr>header_errors := header_errors s + 1\<rparr>))
        | Inr h \<Rightarrow>
          (case validate_header h (max_payload_bytes cfg) of
             Some reason \<Rightarrow>
               (BreakSession False, c,
                reject_frame (''invalid frame header: '' @ reason) (s\<lparr>header_errors := header_errors s + 1\<rparr>))
           | None \<Rightarrow>
             (case read_exact (env_strerror env) c (unat (hdr_payload_size h)) of
                (ReadBlocked, c) \<Rightarrow> (TurnBlocked, c, s)
              | (ReadThrew e, c) \<Rightarrow> (TurnThrew e, c, s)
              | (PeerClosed, c) \<Rightarrow>
                  (BreakSession False, c,
                   s\<lparr>peer_disconnects := peer_disconnects s + 1,
                     last_error := ''peer closed while reading payload for frame_id='' @
                                   to_string (unat (hdr_frame_id h))\<rparr>)
              | (ReadAll payload, c) \<Rightarrow>
                  if compute_crc32 payload \<noteq> hdr_payload_crc32 h then
                    (BreakSession False, c,
                     reject_frame (''payload crc mismatch for frame_id='' @ to_string (unat (hdr_frame_id h)))
                       (s\<lparr>crc_errors := crc_errors s + 1\<rparr>))
                  else
                    (case accept_frame cfg env h payload s of
                       (None, s) \<Rightarrow> (NextFrame, c, s)
                     | (Some e, s) \<Rightarrow> (TurnThrew e, c, s))))))"

subsection \<open>Every turn uses up socket events\<close>

lemma read_loop_events: "length (events (snd (read_loop strerror n buf st evs))) \<le> length evs"
proof (induction evs arbitrary: buf st)
  case (Cons ev evs)
  then show ?case
    by (auto simp: Let_def le_SucI split: recv_event.split)
qed simp

lemma read_loop_events_less:
  "length buf < n \<Longrightarrow> evs \<noteq> [] \<Longrightarrow> length (events (snd (read_loop strerror n buf st evs))) < length evs"
  using read_loop_events by (cases evs) (auto simp: Let_def less_Suc_eq_le split: recv_event.split)

lemma read_exact_events: "length (events (snd (read_exact strerror c n))) \<le> length (events c)"
  by (simp add: read_exact_def read_loop_events)

lemma frame_turn_events:
  assumes "frame_turn cfg env c s = (NextFrame, c', s')"
  shows "length (events c') < length (events c)"
proof -
  obtain r c1 where r: "read_exact (env_strerror env) c kWireHeaderSize = (r, c1)" by fastforce
  with assms obtain w where w: "r = ReadAll w" by (cases r) (auto simp: frame_turn_def)
  have "events c \<noteq> []" using r w by (auto simp: read_exact_def kWireHeaderSize_def)
  with r have lt: "length (events c1) < length (events c)"
    using read_loop_events_less [of "[]" kWireHeaderSize "events c" "env_strerror env" "pending c"]
    by (simp add: read_exact_def kWireHeaderSize_def)
  have "length (events c') \<le> length (events c1)"
    using assms r w read_exact_events [of "env_strerror env" c1]
    by (auto simp: frame_turn_def split: sum.splits option.splits read_result.splits prod.splits if_splits)
      (metis snd_conv)
  with lt show ?thesis by simp
qed

datatype session_end = SessionDone bool | SessionThrew exn | SessionBlocked

function (sequential) session_loop ::
    "receiver_config \<Rightarrow> receiver_env \<Rightarrow> conn \<Rightarrow> receiver \<Rightarrow> session_end \<times> receiver" where
  "session_loop cfg env c s =
    (if want_frames cfg s then
       (case frame_turn cfg env c s of
          (NextFrame, c', s') \<Rightarrow> session_loop cfg env c' s'
        | (BreakSession ok, c', s') \<Rightarrow> (SessionDone ok, s')
        | (TurnThrew e, c', s') \<Rightarrow> (SessionThrew e, s')
        | (TurnBlocked, c', s') \<Rightarrow> (SessionBlocked, s'))
     else (SessionDone True, s))"
  by pat_completeness auto
termination
  by (relation "measure (\<lambda>(cfg, env, c, s). length (events c))") (auto intro: frame_turn_events [OF sym])

declare session_loop.simps [simp del]

section \<open>The accept loop and \<open>main\<close>\<close>

datatype accept_event = AcceptError errno | Client conn

datatype loop_end = LoopDone | LoopThrew exn | LoopBlocked

fun accept_loop ::
    "receiver_config \<Rightarrow> receiver_env \<Rightarrow> accept_event list \<Rightarrow> receiver \<Rightarrow> loop_end \<times> receiver" where
  "accept_loop cfg env [] s =
     (if int (accepted_sessions s) < max_sessions cfg \<and> want_frames cfg s then LoopBlocked else LoopDone, s)"
| "accept_loop cfg env (a # as) s =
    (if int (accepted_sessions s) < max_sessions cfg \<and> want_frames cfg s then
       (case a of
          AcceptError n \<Rightarrow>
            if n = EINTR then accept_loop cfg env as s
            else (LoopThrew (RuntimeError (''accept failed: '' @ env_strerror env n)), s)
        | Client c \<Rightarrow>
            (let s = s\<lparr>accepted_sessions := accepted_sessions s + 1\<rparr> in
             case session_loop cfg env c s of
               (SessionBlocked, s) \<Rightarrow> (LoopBlocked, s)
             | (SessionThrew e, s) \<Rightarrow> (LoopThrew e, s)
             | (SessionDone session_ok, s) \<Rightarrow>
                 (let s = (if session_ok then s\<lparr>completed_sessions := completed_sessions s + 1\<rparr> else s) in
                  if fatal_protocol_error s then (LoopDone, s) else accept_loop cfg env as s)))
     else (LoopDone, s))"

definition init_receiver :: receiver where
  "init_receiver = \<lparr>received_frames = 0, received_bytes = 0, saved_files = 0, crc_errors = 0, header_errors = 0,
     rejected_frames = 0, accepted_sessions = 0, completed_sessions = 0, peer_disconnects = 0,
     latency_clock_errors = 0, e2e_latency = LatencyStats, last_error = '''', fatal_protocol_error = False,
     files = [], frames = []\<rparr>"

definition receiver_exit_code :: "receiver \<Rightarrow> int" where
  "receiver_exit_code s = (if header_errors s > 0 then 3 else if crc_errors s > 0 then 2 else 0)"

text \<open>
  The listening socket; the result of \<open>setsockopt\<close> is not looked at. The argument \<open>setup_listener\<close> of
  \<open>receiver_main\<close> is \<open>receiver_listener\<close> for what the three calls return.
\<close>

record listener_env =
  le_socket :: "errno + int"
  le_bind :: "errno option"
  le_listen :: "errno option"

definition receiver_listener :: "(errno \<Rightarrow> string) \<Rightarrow> listener_env \<Rightarrow> receiver_config \<Rightarrow> exn option" where
  "receiver_listener strerror le cfg =
     (case le_socket le of
        Inl n \<Rightarrow> Some (RuntimeError (''socket failed: '' @ strerror n))
      | Inr fd \<Rightarrow>
          (case le_bind le of
             Some n \<Rightarrow> Some (RuntimeError (''bind failed: '' @ strerror n))
           | None \<Rightarrow>
               (case le_listen le of
                  Some n \<Rightarrow> Some (RuntimeError (''listen failed: '' @ strerror n))
                | None \<Rightarrow> None)))"

text \<open>
  \<open>main\<close>: \<open>setup_listener\<close> is the outcome of \<open>socket\<close>, \<open>bind\<close> and \<open>listen\<close>, \<open>write_stats\<close> that of
  \<open>write_receiver_stats_json\<close>; an exception anywhere gives exit code 1. \<open>None\<close> is a program that is
  still waiting.
\<close>

definition receiver_main ::
    "string list \<Rightarrow> receiver_env \<Rightarrow> (receiver_config \<Rightarrow> exn option) \<Rightarrow> (receiver_config \<Rightarrow> receiver \<Rightarrow> exn option) \<Rightarrow>
     accept_event list \<Rightarrow> int option \<times> receiver" where
  "receiver_main args env setup_listener write_stats as =
    (case parse_receiver_args args default_receiver_config of
       Inl e \<Rightarrow> (Some 1, init_receiver)
     | Inr None \<Rightarrow> (Some 0, init_receiver)
     | Inr (Some c) \<Rightarrow>
       (case check_receiver_config c of
          Inl e \<Rightarrow> (Some 1, init_receiver)
        | Inr cfg \<Rightarrow>
          (case setup_listener cfg of
             Some e \<Rightarrow> (Some 1, init_receiver)
           | None \<Rightarrow>
             (case accept_loop cfg env as init_receiver of
                (LoopBlocked, s) \<Rightarrow> (None, s)
              | (LoopThrew e, s) \<Rightarrow> (Some 1, s)
              | (LoopDone, s) \<Rightarrow>
                  (case write_stats cfg s of
                     Some e \<Rightarrow> (Some 1, s)
                   | None \<Rightarrow> (Some (receiver_exit_code s), s))))))"

section \<open>Complete streams\<close>

text \<open>
  A connection that does not fail and hands out bytes often enough: no error but interrupts, and more
  ready events than bytes (one more, so that the end of the stream is seen).
\<close>

definition stream_ok :: "conn \<Rightarrow> bool" where
  "stream_ok c \<longleftrightarrow>
     (\<forall>n. RecvError n \<in> set (events c) \<longrightarrow> n = EINTR) \<and>
     length (pending c) < length (filter (\<lambda>e. case e of Ready k \<Rightarrow> True | RecvError n \<Rightarrow> False) (events c))"

lemma stream_ok_Cons:
  "stream_ok \<lparr>pending = st, events = RecvError n # evs\<rparr> \<longleftrightarrow> n = EINTR \<and> stream_ok \<lparr>pending = st, events = evs\<rparr>"
  "stream_ok \<lparr>pending = st, events = Ready k # evs\<rparr> \<Longrightarrow> length st' < length st \<Longrightarrow>
     stream_ok \<lparr>pending = st', events = evs\<rparr>"
  by (auto simp: stream_ok_def)

lemma stream_ok_eta: "stream_ok \<lparr>pending = pending c, events = events c\<rparr> = stream_ok c"
  by (simp add: stream_ok_def)

lemma read_loop_complete:
  assumes "stream_ok \<lparr>pending = st, events = evs\<rparr>" and "length buf + m = n" and "m \<le> length st"
  shows "\<exists>c'. read_loop strerror n buf st evs = (ReadAll (buf @ take m st), c') \<and>
    pending c' = drop m st \<and> stream_ok c'"
  using assms
proof (induction evs arbitrary: buf st m)
  case Nil
  then show ?case by (auto simp: stream_ok_def)
next
  case (Cons ev evs)
  show ?case
  proof (cases "m = 0")
    case True
    with Cons.prems show ?thesis by auto
  next
    case pos: False
    show ?thesis
    proof (cases ev)
      case (RecvError e)
      with Cons pos show ?thesis by (auto simp: stream_ok_Cons)
    next
      case (Ready k)
      define d where "d = min (Suc k) m"
      have d: "0 < d" "d \<le> m" "min (Suc k) (min (n - length buf) (length st)) = d"
        using Cons.prems(2,3) pos by (auto simp: d_def)
      have ok: "stream_ok \<lparr>pending = drop d st, events = evs\<rparr>"
        using Cons.prems(1,3) Ready d by (intro stream_ok_Cons(2) [of st k evs]) auto
      have "length (buf @ take d st) + (m - d) = n" "m - d \<le> length (drop d st)"
        using Cons.prems(2,3) d by auto
      from Cons.IH [OF ok this] obtain c' where "read_loop strerror n (buf @ take d st) (drop d st) evs =
          (ReadAll (buf @ take d st @ take (m - d) (drop d st)), c')"
        "pending c' = drop (m - d) (drop d st)" "stream_ok c'" by auto
      moreover have "take d st @ take (m - d) (drop d st) = take m st" "drop (m - d) (drop d st) = drop m st"
        using d(2) by (simp_all add: slices_join_end)
      ultimately show ?thesis using Ready d pos Cons.prems(2) by (simp add: Let_def)
    qed
  qed
qed

lemma read_loop_short:
  assumes "stream_ok \<lparr>pending = st, events = evs\<rparr>" and "length buf + length st < n"
  shows "\<exists>c'. read_loop strerror n buf st evs = (PeerClosed, c')"
  using assms
proof (induction evs arbitrary: buf st)
  case Nil
  then show ?case by (auto simp: stream_ok_def)
next
  case (Cons ev evs)
  show ?case
  proof (cases ev)
    case (RecvError e)
    with Cons show ?thesis by (auto simp: stream_ok_Cons)
  next
    case (Ready k)
    let ?n = "min (Suc k) (min (n - length buf) (length st))"
    show ?thesis
    proof (cases "st = []")
      case True
      with Ready Cons.prems show ?thesis by (simp add: Let_def)
    next
      case False
      have ok: "stream_ok \<lparr>pending = drop ?n st, events = evs\<rparr>"
        using Cons.prems False Ready by (intro stream_ok_Cons(2) [of st k evs]) auto
      have "\<exists>c'. read_loop strerror n (buf @ take ?n st) (drop ?n st) evs = (PeerClosed, c')"
        using Cons.prems by (intro Cons.IH [OF ok]) auto
      with Ready Cons.prems False show ?thesis by (auto simp: Let_def)
    qed
  qed
qed

lemma read_exact_complete:
  assumes "stream_ok c" and "pending c = xs @ rest"
  shows "\<exists>c'. read_exact strerror c (length xs) = (ReadAll xs, c') \<and> pending c' = rest \<and> stream_ok c'"
  using read_loop_complete [of "pending c" "events c" "[]" "length xs" "length xs" strerror] assms
  by (cases c) (simp add: read_exact_def)

lemma read_exact_short:
  assumes "stream_ok c" and "length (pending c) < n"
  shows "\<exists>c'. read_exact strerror c n = (PeerClosed, c')"
  using read_loop_short [of "pending c" "events c" "[]" n strerror] assms
  by (simp add: read_exact_def stream_ok_eta)

text \<open>A frame on the wire, and the frames the receiver accepts.\<close>

definition frame_bytes :: "frame_header \<times> bytes \<Rightarrow> bytes" where
  "frame_bytes f = serialize_header (fst f) @ snd f"

definition good_frame :: "u32 \<Rightarrow> frame_header \<times> bytes \<Rightarrow> bool" where
  "good_frame m f \<longleftrightarrow>
     validate_header (fst f) m = None \<and> length (snd f) = unat (hdr_payload_size (fst f)) \<and>
     compute_crc32 (snd f) = hdr_payload_crc32 (fst f)"

lemma frame_turn_header:
  assumes "stream_ok c" and "pending c = serialize_header h @ rest"
  obtains c1 where "stream_ok c1" and "pending c1 = rest"
    and "read_exact (env_strerror env) c kWireHeaderSize = (ReadAll (serialize_header h), c1)"
    and "deserialize_header (Some (serialize_header h)) = Inr h"
  using read_exact_complete [OF assms, of "env_strerror env"]
  by (auto simp: deserialize_header_def serialize_header_layout decode_header_layout)

lemma frame_turn_good:
  assumes ok: "stream_ok c" and st: "pending c = frame_bytes (h, p) @ rest"
    and good: "good_frame (max_payload_bytes cfg) (h, p)"
  shows "\<exists>c'. stream_ok c' \<and> pending c' = rest \<and>
    frame_turn cfg env c s = (case accept_frame cfg env h p s of
        (None, s') \<Rightarrow> (NextFrame, c', s') | (Some e, s') \<Rightarrow> (TurnThrew e, c', s'))"
proof -
  have "pending c = serialize_header h @ p @ rest" using st by (simp add: frame_bytes_def)
  from ok this obtain c1 where c1: "stream_ok c1" "pending c1 = p @ rest"
    "read_exact (env_strerror env) c kWireHeaderSize = (ReadAll (serialize_header h), c1)"
    "deserialize_header (Some (serialize_header h)) = Inr h"
    by (rule frame_turn_header)
  from read_exact_complete [OF c1(1,2), of "env_strerror env"] obtain c2 where
    "read_exact (env_strerror env) c1 (length p) = (ReadAll p, c2)" "pending c2 = rest" "stream_ok c2" by blast
  with c1 good show ?thesis
    by (intro exI [of _ c2]) (simp add: frame_turn_def good_frame_def split: option.split prod.split)
qed

text \<open>A frame whose payload does not have the announced CRC.\<close>

lemma frame_turn_bad_crc:
  assumes ok: "stream_ok c" and st: "pending c = frame_bytes (h, p) @ rest"
    and v: "validate_header h (max_payload_bytes cfg) = None" and len: "length p = unat (hdr_payload_size h)"
    and crc: "compute_crc32 p \<noteq> hdr_payload_crc32 h"
  shows "\<exists>c'. frame_turn cfg env c s = (BreakSession False, c',
     reject_frame (''payload crc mismatch for frame_id='' @ to_string (unat (hdr_frame_id h)))
       (s\<lparr>crc_errors := crc_errors s + 1\<rparr>))"
proof -
  have "pending c = serialize_header h @ p @ rest" using st by (simp add: frame_bytes_def)
  from ok this obtain c1 where c1: "stream_ok c1" "pending c1 = p @ rest"
    "read_exact (env_strerror env) c kWireHeaderSize = (ReadAll (serialize_header h), c1)"
    "deserialize_header (Some (serialize_header h)) = Inr h"
    by (rule frame_turn_header)
  from read_exact_complete [OF c1(1,2), of "env_strerror env"] obtain c2 where
    "read_exact (env_strerror env) c1 (length p) = (ReadAll p, c2)" by blast
  with c1 v len crc show ?thesis by (simp add: frame_turn_def)
qed

text \<open>A stream that ends inside a header or inside a payload.\<close>

lemma frame_turn_end:
  assumes "stream_ok c" and "length (pending c) < kWireHeaderSize"
  shows "\<exists>c'. frame_turn cfg env c s = (BreakSession True, c', s\<lparr>peer_disconnects := peer_disconnects s + 1\<rparr>)"
  using read_exact_short [OF assms, of "env_strerror env"] by (auto simp: frame_turn_def)

lemma frame_turn_truncated:
  assumes ok: "stream_ok c" and st: "pending c = serialize_header h @ p"
    and v: "validate_header h (max_payload_bytes cfg) = None" and len: "length p < unat (hdr_payload_size h)"
  shows "\<exists>c' m. frame_turn cfg env c s =
    (BreakSession False, c', s\<lparr>peer_disconnects := peer_disconnects s + 1, last_error := m\<rparr>)"
proof -
  from ok st obtain c1 where c1: "stream_ok c1" "pending c1 = p"
    "read_exact (env_strerror env) c kWireHeaderSize = (ReadAll (serialize_header h), c1)"
    "deserialize_header (Some (serialize_header h)) = Inr h"
    by (rule frame_turn_header)
  with read_exact_short [of c1 "unat (hdr_payload_size h)" "env_strerror env"] len v show ?thesis
    by (auto simp: frame_turn_def)
qed

section \<open>A sequence of frames\<close>

definition take_frame :: "receiver_config \<Rightarrow> receiver_env \<Rightarrow> receiver \<Rightarrow> frame_header \<times> bytes \<Rightarrow> receiver" where
  "take_frame cfg env s f = snd (accept_frame cfg env (fst f) (snd f) s)"

definition room_for :: "receiver_config \<Rightarrow> receiver \<Rightarrow> nat \<Rightarrow> bool" where
  "room_for cfg s n \<longleftrightarrow> max_frames cfg \<le> 0 \<or> int (received_frames s + n) \<le> max_frames cfg"

lemma take_frame_fields [simp]:
  "received_frames (take_frame cfg env s f) = received_frames s + 1"
  "received_bytes (take_frame cfg env s f) = received_bytes s + length (snd f)"
  "frames (take_frame cfg env s f) = frames s @ [f]"
  "crc_errors (take_frame cfg env s f) = crc_errors s"
  "header_errors (take_frame cfg env s f) = header_errors s"
  "rejected_frames (take_frame cfg env s f) = rejected_frames s"
  "accepted_sessions (take_frame cfg env s f) = accepted_sessions s"
  "completed_sessions (take_frame cfg env s f) = completed_sessions s"
  "peer_disconnects (take_frame cfg env s f) = peer_disconnects s"
  "fatal_protocol_error (take_frame cfg env s f) = fatal_protocol_error s"
  by (auto simp: take_frame_def accept_frame_def record_latency_def Let_def split: sum.split)

lemma take_frames_fields:
  "received_frames (foldl (take_frame cfg env) s fl) = received_frames s + length fl"
  "received_bytes (foldl (take_frame cfg env) s fl) = received_bytes s + (\<Sum>f\<leftarrow>fl. length (snd f))"
  "frames (foldl (take_frame cfg env) s fl) = frames s @ fl"
  "crc_errors (foldl (take_frame cfg env) s fl) = crc_errors s"
  "header_errors (foldl (take_frame cfg env) s fl) = header_errors s"
  "rejected_frames (foldl (take_frame cfg env) s fl) = rejected_frames s"
  "accepted_sessions (foldl (take_frame cfg env) s fl) = accepted_sessions s"
  "completed_sessions (foldl (take_frame cfg env) s fl) = completed_sessions s"
  "peer_disconnects (foldl (take_frame cfg env) s fl) = peer_disconnects s"
  "fatal_protocol_error (foldl (take_frame cfg env) s fl) = fatal_protocol_error s"
  by (induction fl arbitrary: s) simp_all

lemma accept_frame_saved:
  "(\<And>path. file_system env path = FileOk) \<Longrightarrow> accept_frame cfg env h p s = (None, take_frame cfg env s (h, p))"
  by (auto simp: take_frame_def accept_frame_def save_payload_def Let_def)

text \<open>The loop consumes complete frames one by one, however the stream is cut into \<open>recv\<close> results.\<close>

lemma session_loop_frames:
  assumes "stream_ok c" and "pending c = concat (map frame_bytes fl) @ rest"
    and "\<forall>f \<in> set fl. good_frame (max_payload_bytes cfg) f" and "\<And>path. file_system env path = FileOk"
    and "room_for cfg s (length fl)"
  shows "\<exists>c'. stream_ok c' \<and> pending c' = rest \<and>
    session_loop cfg env c s = session_loop cfg env c' (foldl (take_frame cfg env) s fl)"
  using assms
proof (induction fl arbitrary: c s)
  case Nil
  then show ?case by auto
next
  case (Cons f fl)
  obtain h p where f: "f = (h, p)" by fastforce
  have want: "want_frames cfg s" using Cons.prems(5) by (auto simp: room_for_def want_frames_def)
  have st: "pending c = frame_bytes (h, p) @ concat (map frame_bytes fl) @ rest" using Cons.prems(2) f by simp
  have good: "good_frame (max_payload_bytes cfg) (h, p)" using Cons.prems(3) f by simp
  from frame_turn_good [OF Cons.prems(1) st good, of env s] accept_frame_saved [of env cfg h p s] Cons.prems(4)
  obtain c' where c': "stream_ok c'" "pending c' = concat (map frame_bytes fl) @ rest"
    "frame_turn cfg env c s = (NextFrame, c', take_frame cfg env s (h, p))" by auto
  then have "session_loop cfg env c s = session_loop cfg env c' (take_frame cfg env s f)"
    using want f by (subst session_loop.simps) simp
  moreover have "room_for cfg (take_frame cfg env s f) (length fl)"
    using Cons.prems(5) by (auto simp: room_for_def)
  ultimately show ?case
    using Cons.IH [OF c'(1,2), of "take_frame cfg env s f"] Cons.prems(3,4) by auto
qed

section \<open>The receiver invariant\<close>

text \<open>
  Holds in every environment: every counted frame passed all checks, the counters describe the log,
  at most one frame is rejected (the first one ends the program) and the limits are respected.
\<close>

definition receiver_inv :: "receiver_config \<Rightarrow> receiver \<Rightarrow> bool" where
  "receiver_inv cfg s \<longleftrightarrow>
     received_frames s = length (frames s) \<and> (\<forall>f \<in> set (frames s). good_frame (max_payload_bytes cfg) f) \<and>
     received_bytes s = (\<Sum>f\<leftarrow>frames s. length (snd f)) \<and>
     rejected_frames s = header_errors s + crc_errors s \<and> rejected_frames s = (if fatal_protocol_error s then 1 else 0) \<and>
     saved_files s = length (files s) \<and> saved_files s \<le> received_frames s \<and>
     length (samples_us (e2e_latency s)) + latency_clock_errors s = received_frames s \<and>
     (0 < max_frames cfg \<longrightarrow> int (received_frames s) \<le> max_frames cfg)"

definition session_inv :: "receiver_config \<Rightarrow> receiver \<Rightarrow> bool" where
  "session_inv cfg s \<longleftrightarrow>
     completed_sessions s \<le> accepted_sessions s \<and> peer_disconnects s \<le> accepted_sessions s \<and>
     (0 < max_sessions cfg \<longrightarrow> int (accepted_sessions s) \<le> max_sessions cfg)"

lemma read_loop_length:
  "read_loop strerror n buf st evs = (ReadAll bs, c') \<Longrightarrow> length buf \<le> n \<Longrightarrow> length bs = n"
proof (induction evs arbitrary: buf st)
  case (Cons ev evs)
  then show ?case by (fastforce simp: Let_def split: if_splits recv_event.splits)
qed (auto split: if_splits)

lemma read_exact_length: "read_exact strerror c n = (ReadAll bs, c') \<Longrightarrow> length bs = n"
  using read_loop_length [of strerror n "[]"] by (simp add: read_exact_def)

text \<open>The possible outcomes of a turn.\<close>

lemma frame_turn_cases:
  assumes "frame_turn cfg env c s = (t, c', s')"
  obtains (accepted) h p where "good_frame (max_payload_bytes cfg) (h, p)"
      "s' = snd (accept_frame cfg env h p s)" "\<forall>ok. t \<noteq> BreakSession ok"
    | (header) msg where "t = BreakSession False" "s' = reject_frame msg (s\<lparr>header_errors := header_errors s + 1\<rparr>)"
    | (crc) msg where "t = BreakSession False" "s' = reject_frame msg (s\<lparr>crc_errors := crc_errors s + 1\<rparr>)"
    | (closed) ok msg where "t = BreakSession ok" "s' = s\<lparr>peer_disconnects := peer_disconnects s + 1, last_error := msg\<rparr>"
    | (unchanged) "s' = s" "\<forall>ok. t \<noteq> BreakSession ok" "t \<noteq> NextFrame"
proof -
  obtain r c1 where r: "read_exact (env_strerror env) c kWireHeaderSize = (r, c1)" by fastforce
  show thesis
  proof (cases r)
    case (ReadAll w)
    show thesis
    proof (cases "deserialize_header (Some w)")
      case (Inl reason)
      with assms r ReadAll show thesis by (auto simp: frame_turn_def intro: header)
    next
      case h: (Inr h)
      show thesis
      proof (cases "validate_header h (max_payload_bytes cfg)")
        case (Some reason)
        with assms r ReadAll h show thesis by (auto simp: frame_turn_def intro: header)
      next
        case valid: None
        obtain r2 c2 where r2: "read_exact (env_strerror env) c1 (unat (hdr_payload_size h)) = (r2, c2)" by fastforce
        note known = assms r ReadAll h valid r2
        show thesis
        proof (cases r2)
          case p: (ReadAll p)
          show thesis
          proof (cases "compute_crc32 p = hdr_payload_crc32 h")
            case True
            then have "good_frame (max_payload_bytes cfg) (h, p)"
              using valid r2 p read_exact_length by (auto simp: good_frame_def)
            moreover have "s' = snd (accept_frame cfg env h p s)" "\<forall>ok. t \<noteq> BreakSession ok"
              using known p True by (auto simp: frame_turn_def split: prod.splits option.splits)
            ultimately show thesis by (rule accepted)
          next
            case False
            with known p show thesis by (auto simp: frame_turn_def intro: crc)
          qed
        qed (use known in \<open>auto simp: frame_turn_def intro: closed unchanged\<close>)
      qed
    qed
  next
    case PeerClosed
    with assms r have "t = BreakSession True" "s' = s\<lparr>peer_disconnects := peer_disconnects s + 1, last_error := last_error s\<rparr>"
      by (auto simp: frame_turn_def)
    then show thesis by (rule closed)
  qed (use assms r in \<open>auto simp: frame_turn_def intro: unchanged\<close>)
qed

lemma accept_frame_inv:
  assumes "receiver_inv cfg s" and "good_frame (max_payload_bytes cfg) (h, p)" and "want_frames cfg s"
  shows "receiver_inv cfg (snd (accept_frame cfg env h p s))"
    and "fatal_protocol_error (snd (accept_frame cfg env h p s)) = fatal_protocol_error s"
proof -
  have lat: "length (samples_us (e2e_latency (record_latency env h s))) + latency_clock_errors (record_latency env h s) =
      Suc (length (samples_us (e2e_latency s)) + latency_clock_errors s)"
    by (simp add: record_latency_def add_sample_us_def Let_def divide_less_0_iff del: of_nat_unat)
  have same: "received_frames (record_latency env h s) = received_frames s" "frames (record_latency env h s) = frames s"
    "received_bytes (record_latency env h s) = received_bytes s" "files (record_latency env h s) = files s"
    "rejected_frames (record_latency env h s) = rejected_frames s" "header_errors (record_latency env h s) = header_errors s"
    "crc_errors (record_latency env h s) = crc_errors s" "saved_files (record_latency env h s) = saved_files s"
    "fatal_protocol_error (record_latency env h s) = fatal_protocol_error s"
    by (simp_all add: record_latency_def Let_def)
  show "receiver_inv cfg (snd (accept_frame cfg env h p s))"
    using assms lat same by (auto simp: receiver_inv_def accept_frame_def want_frames_def Let_def split: sum.split)
  show "fatal_protocol_error (snd (accept_frame cfg env h p s)) = fatal_protocol_error s"
    using same by (auto simp: accept_frame_def Let_def split: sum.split)
qed

lemma frame_turn_inv:
  assumes "frame_turn cfg env c s = (t, c', s')" and "receiver_inv cfg s" and "want_frames cfg s"
    and "\<not> fatal_protocol_error s"
  shows "receiver_inv cfg s'" and "(\<forall>ok. t \<noteq> BreakSession ok) \<Longrightarrow> \<not> fatal_protocol_error s'"
proof -
  have "receiver_inv cfg s' \<and> ((\<forall>ok. t \<noteq> BreakSession ok) \<longrightarrow> \<not> fatal_protocol_error s')"
    using assms(1)
  proof (cases rule: frame_turn_cases)
    case (accepted h p)
    with accept_frame_inv [OF assms(2) accepted(1) assms(3)] assms(4) show ?thesis by simp
  qed (use assms(2-) in \<open>auto simp: receiver_inv_def reject_frame_def\<close>)
  then show "receiver_inv cfg s'" and "(\<forall>ok. t \<noteq> BreakSession ok) \<Longrightarrow> \<not> fatal_protocol_error s'" by auto
qed

lemma frame_turn_sessions:
  assumes "frame_turn cfg env c s = (t, c', s')"
  shows "accepted_sessions s' = accepted_sessions s" and "completed_sessions s' = completed_sessions s"
    and "peer_disconnects s' \<le> peer_disconnects s + (if \<exists>ok. t = BreakSession ok then 1 else 0)"
proof -
  have acc: "accepted_sessions (snd (accept_frame cfg env h p s)) = accepted_sessions s"
    "completed_sessions (snd (accept_frame cfg env h p s)) = completed_sessions s"
    "peer_disconnects (snd (accept_frame cfg env h p s)) = peer_disconnects s" for h p
    using take_frame_fields [of cfg env s "(h, p)"] by (simp_all add: take_frame_def)
  show "accepted_sessions s' = accepted_sessions s" and "completed_sessions s' = completed_sessions s"
    and "peer_disconnects s' \<le> peer_disconnects s + (if \<exists>ok. t = BreakSession ok then 1 else 0)"
    using assms by (cases rule: frame_turn_cases; simp add: acc reject_frame_def)+
qed

lemma session_loop_inv:
  assumes "session_loop cfg env c s = (e, s')" and "receiver_inv cfg s" and "\<not> fatal_protocol_error s"
  shows "receiver_inv cfg s' \<and> accepted_sessions s' = accepted_sessions s \<and>
    completed_sessions s' = completed_sessions s \<and> peer_disconnects s' \<le> peer_disconnects s + 1"
  using assms
proof (induction cfg env c s rule: session_loop.induct)
  case (1 cfg env c s)
  show ?case
  proof (cases "want_frames cfg s")
    case False
    with 1 show ?thesis by (simp add: session_loop.simps [of cfg env c s])
  next
    case want: True
    obtain t c1 s1 where turn: "frame_turn cfg env c s = (t, c1, s1)" by (metis prod_cases3)
    note step = frame_turn_inv [OF turn 1(3) want 1(4)] frame_turn_sessions [OF turn]
    show ?thesis
    proof (cases t)
      case NextFrame
      with 1(1) [OF want turn [symmetric]] 1(2) turn want step show ?thesis
        by (simp add: session_loop.simps [of cfg env c s])
    qed (use 1(2) turn want step in \<open>auto simp: session_loop.simps [of cfg env c s]\<close>)
  qed
qed

lemma accept_loop_inv:
  assumes "accept_loop cfg env as s = (e, s')" and "receiver_inv cfg s" and "session_inv cfg s"
    and "\<not> fatal_protocol_error s"
  shows "receiver_inv cfg s' \<and> session_inv cfg s'"
  using assms
proof (induction as arbitrary: s)
  case Nil
  then show ?case by auto
next
  case (Cons a as)
  show ?case
  proof (cases "int (accepted_sessions s) < max_sessions cfg \<and> want_frames cfg s")
    case False
    with Cons.prems show ?thesis by auto
  next
    case more: True
    show ?thesis
    proof (cases a)
      case (AcceptError n)
      with Cons more show ?thesis by (auto split: if_splits)
    next
      case (Client c)
      let ?s = "s\<lparr>accepted_sessions := accepted_sessions s + 1\<rparr>"
      obtain r s1 where r: "session_loop cfg env c ?s = (r, s1)" by fastforce
      have "receiver_inv cfg ?s" "\<not> fatal_protocol_error ?s"
        using Cons.prems(2,4) by (auto simp: receiver_inv_def)
      from session_loop_inv [OF r this] have s1: "receiver_inv cfg s1" "session_inv cfg s1"
        "accepted_sessions s1 = accepted_sessions s + 1" "completed_sessions s1 = completed_sessions s"
        using Cons.prems(3) more by (auto simp: session_inv_def)
      let ?t = "\<lambda>ok. if ok then s1\<lparr>completed_sessions := completed_sessions s1 + 1\<rparr> else s1"
      have t: "receiver_inv cfg (?t ok)" "session_inv cfg (?t ok)" for ok
        using s1 Cons.prems(3) by (auto simp: receiver_inv_def session_inv_def)
      show ?thesis
      proof (cases r)
        case (SessionDone ok)
        with Cons.prems(1) Client r more t [of ok] Cons.IH [of "?t ok"] show ?thesis
          by (cases "fatal_protocol_error (?t ok)") (auto simp: Let_def simp del: receiver.simps)
      qed (use Cons.prems(1) Client r more s1 in \<open>auto simp: Let_def\<close>)
    qed
  qed
qed

lemma init_receiver_inv: "receiver_inv cfg init_receiver" "session_inv cfg init_receiver"
  by (simp_all add: init_receiver_def receiver_inv_def session_inv_def LatencyStats_def)

text \<open>A stream of complete frames that ends, possibly inside another frame.\<close>

lemma session_loop_tail:
  assumes "stream_ok c" and "tail = [] \<or> good_frame (max_payload_bytes cfg) f \<and> strict_prefix tail (frame_bytes f)"
    and "pending c = concat (map frame_bytes fl) @ tail"
    and "\<forall>f \<in> set fl. good_frame (max_payload_bytes cfg) f" and "\<And>path. file_system env path = FileOk"
    and "max_frames cfg = 0"
  shows "\<exists>s'. session_loop cfg env c s = (SessionDone (length tail < kWireHeaderSize), s') \<and>
    frames s' = frames s @ fl \<and> header_errors s' = header_errors s \<and> crc_errors s' = crc_errors s \<and>
    peer_disconnects s' = peer_disconnects s + 1 \<and> fatal_protocol_error s' = fatal_protocol_error s"
proof -
  obtain h p where f: "f = (h, p)" by fastforce
  let ?s = "foldl (take_frame cfg env) s fl"
  have room: "room_for cfg s (length fl)" using assms(6) by (simp add: room_for_def)
  from session_loop_frames [OF assms(1) assms(3) assms(4,5) room]
  obtain c' where c': "stream_ok c'" "pending c' = tail"
    "session_loop cfg env c s = session_loop cfg env c' ?s" by blast
  have "\<exists>c2 m. frame_turn cfg env c' ?s = (BreakSession (length tail < kWireHeaderSize), c2,
      ?s\<lparr>peer_disconnects := peer_disconnects ?s + 1, last_error := m\<rparr>)"
  proof (cases "length tail < kWireHeaderSize")
    case True
    with frame_turn_end [of c' cfg env ?s] c' obtain c2 where
      "frame_turn cfg env c' ?s = (BreakSession True, c2, ?s\<lparr>peer_disconnects := peer_disconnects ?s + 1\<rparr>)" by auto
    moreover have "?s\<lparr>peer_disconnects := peer_disconnects ?s + 1\<rparr> =
        ?s\<lparr>peer_disconnects := peer_disconnects ?s + 1, last_error := last_error ?s\<rparr>" by simp
    ultimately show ?thesis using True by metis
  next
    case False
    then have good: "good_frame (max_payload_bytes cfg) f" "strict_prefix tail (frame_bytes f)"
      using assms(2) by (auto simp: kWireHeaderSize_def)
    obtain t where t: "frame_bytes f = tail @ t" "t \<noteq> []" using good(2) by (auto simp: strict_prefix_def prefix_def)
    define q where "q = drop kWireHeaderSize tail"
    have e: "serialize_header h @ p = tail @ t" using t(1) f by (simp add: frame_bytes_def)
    have q: "tail = serialize_header h @ q" "p = q @ t"
      using arg_cong [OF e, of "take kWireHeaderSize"] arg_cong [OF e, of "drop kWireHeaderSize"] False
      by (simp_all add: q_def)
    have "length q < unat (hdr_payload_size h)" "validate_header h (max_payload_bytes cfg) = None"
      using good(1) f q t(2) by (cases t; auto simp: good_frame_def)+
    with frame_turn_truncated [of c' h q cfg env ?s] c' q False show ?thesis by simp
  qed
  moreover have "want_frames cfg ?s" using assms(6) by (simp add: want_frames_def)
  ultimately have "\<exists>m. session_loop cfg env c s = (SessionDone (length tail < kWireHeaderSize),
      ?s\<lparr>peer_disconnects := peer_disconnects ?s + 1, last_error := m\<rparr>)"
    using c'(3) by (auto simp: session_loop.simps [of cfg env c'])
  then show ?thesis by (auto simp: take_frames_fields)
qed

text \<open>The first damaged payload, or the first header that is refused, ends the session.\<close>

lemma session_loop_corrupt:
  assumes "stream_ok c" and "good_frame (max_payload_bytes cfg) (h, pre @ xs @ post)"
    and "length ys = length xs" and "length xs \<le> 4" and "ys \<noteq> xs"
    and "pending c = concat (map frame_bytes fl) @ frame_bytes (h, pre @ ys @ post) @ rest"
    and "\<forall>f \<in> set fl. good_frame (max_payload_bytes cfg) f" and "\<And>path. file_system env path = FileOk"
    and "max_frames cfg = 0" and "receiver_inv cfg s" and "\<not> fatal_protocol_error s"
  shows "\<exists>s'. session_loop cfg env c s = (SessionDone False, s') \<and> frames s' = frames s @ fl \<and>
    crc_errors s' = 1 \<and> fatal_protocol_error s' \<and> receiver_exit_code s' = 2"
proof -
  let ?s = "foldl (take_frame cfg env) s fl"
  let ?p = "pre @ ys @ post"
  have room: "room_for cfg s (length fl)" using assms(9) by (simp add: room_for_def)
  from session_loop_frames [OF assms(1) _ assms(7,8) room] assms(6)
  obtain c' where c': "stream_ok c'" "pending c' = frame_bytes (h, ?p) @ rest"
    "session_loop cfg env c s = session_loop cfg env c' ?s" by blast
  have crc: "compute_crc32 ?p \<noteq> hdr_payload_crc32 h"
    using crc32_burst [of ys xs pre post] assms(2-5) by (auto simp: good_frame_def)
  have len: "length ?p = unat (hdr_payload_size h)" and v: "validate_header h (max_payload_bytes cfg) = None"
    using assms(2,3) by (simp_all add: good_frame_def)
  from frame_turn_bad_crc [OF c'(1,2) v len crc, of env ?s] obtain c2 msg where
    "frame_turn cfg env c' ?s = (BreakSession False, c2, reject_frame msg (?s\<lparr>crc_errors := crc_errors ?s + 1\<rparr>))" by blast
  moreover have "want_frames cfg ?s" using assms(9) by (simp add: want_frames_def)
  ultimately have "session_loop cfg env c s = (SessionDone False, reject_frame msg (?s\<lparr>crc_errors := crc_errors ?s + 1\<rparr>))"
    using c'(3) by (simp add: session_loop.simps [of cfg env c'])
  moreover have "header_errors s = 0 \<and> crc_errors s = 0" using assms(10,11) by (simp add: receiver_inv_def)
  ultimately show ?thesis by (simp add: take_frames_fields reject_frame_def receiver_exit_code_def)
qed

lemma frame_turn_bad_header:
  assumes ok: "stream_ok c" and st: "pending c = serialize_header h @ rest"
    and v: "validate_header h (max_payload_bytes cfg) = Some reason"
  shows "\<exists>c'. frame_turn cfg env c s = (BreakSession False, c',
     reject_frame (''invalid frame header: '' @ reason) (s\<lparr>header_errors := header_errors s + 1\<rparr>))"
proof -
  from ok st obtain c1 where "read_exact (env_strerror env) c kWireHeaderSize = (ReadAll (serialize_header h), c1)"
    "deserialize_header (Some (serialize_header h)) = Inr h"
    by (rule frame_turn_header)
  with v show ?thesis by (simp add: frame_turn_def)
qed

lemma session_loop_bad_header:
  assumes "stream_ok c" and "validate_header h (max_payload_bytes cfg) \<noteq> None"
    and "pending c = concat (map frame_bytes fl) @ serialize_header h @ rest"
    and "\<forall>f \<in> set fl. good_frame (max_payload_bytes cfg) f" and "\<And>path. file_system env path = FileOk"
    and "max_frames cfg = 0" and "receiver_inv cfg s" and "\<not> fatal_protocol_error s"
  shows "\<exists>s'. session_loop cfg env c s = (SessionDone False, s') \<and> frames s' = frames s @ fl \<and>
    header_errors s' = 1 \<and> fatal_protocol_error s' \<and> receiver_exit_code s' = 3"
proof -
  let ?s = "foldl (take_frame cfg env) s fl"
  have room: "room_for cfg s (length fl)" using assms(6) by (simp add: room_for_def)
  from session_loop_frames [OF assms(1,3,4,5) room]
  obtain c' where c': "stream_ok c'" "pending c' = serialize_header h @ rest"
    "session_loop cfg env c s = session_loop cfg env c' ?s" by blast
  obtain reason where v: "validate_header h (max_payload_bytes cfg) = Some reason" using assms(2) by auto
  from frame_turn_bad_header [OF c'(1,2) v, of env ?s] obtain c2 msg where
    "frame_turn cfg env c' ?s = (BreakSession False, c2, reject_frame msg (?s\<lparr>header_errors := header_errors ?s + 1\<rparr>))" by blast
  moreover have "want_frames cfg ?s" using assms(6) by (simp add: want_frames_def)
  ultimately have "session_loop cfg env c s = (SessionDone False, reject_frame msg (?s\<lparr>header_errors := header_errors ?s + 1\<rparr>))"
    using c'(3) by (simp add: session_loop.simps [of cfg env c'])
  moreover have "header_errors s = 0 \<and> crc_errors s = 0" using assms(7,8) by (simp add: receiver_inv_def)
  ultimately show ?thesis by (simp add: take_frames_fields reject_frame_def receiver_exit_code_def)
qed

section \<open>Properties\<close>

text \<open>
  C10: a session delivers exactly the frames the peer sent. If the stream is the concatenation of the
  encodings of frames that pass the checks (and no frame limit is set), then however the network cuts
  it into pieces and however often \<open>recv\<close> is interrupted, the session terminates normally, its log grows
  by exactly these frames in order, no error is counted and the end of the stream is one disconnect.
\<close>

theorem session_delivers_all:
  assumes "stream_ok c" and "pending c = concat (map frame_bytes fl)"
    and "\<forall>f \<in> set fl. good_frame (max_payload_bytes cfg) f" and "\<And>path. file_system env path = FileOk"
    and "max_frames cfg = 0"
  shows "\<exists>s'. session_loop cfg env c s = (SessionDone True, s') \<and> frames s' = frames s @ fl \<and>
    received_frames s' = received_frames s + length fl \<and>
    received_bytes s' = received_bytes s + (\<Sum>f\<leftarrow>fl. length (snd f)) \<and>
    header_errors s' = header_errors s \<and> crc_errors s' = crc_errors s \<and>
    peer_disconnects s' = peer_disconnects s + 1 \<and> fatal_protocol_error s' = fatal_protocol_error s"
proof -
  let ?s = "foldl (take_frame cfg env) s fl"
  have "room_for cfg s (length fl)" using assms(5) by (simp add: room_for_def)
  from session_loop_frames [OF assms(1) _ assms(3,4) this, of "[]"] assms(2)
  obtain c' where c': "stream_ok c'" "pending c' = []"
    "session_loop cfg env c s = session_loop cfg env c' ?s" by auto
  then obtain c2 where "frame_turn cfg env c' ?s = (BreakSession True, c2, ?s\<lparr>peer_disconnects := peer_disconnects ?s + 1\<rparr>)"
    using frame_turn_end [of c' cfg env ?s] by (auto simp: kWireHeaderSize_def)
  moreover have "want_frames cfg ?s" using assms(5) by (simp add: want_frames_def)
  ultimately have "session_loop cfg env c s = (SessionDone True, ?s\<lparr>peer_disconnects := peer_disconnects ?s + 1\<rparr>)"
    using c'(3) by (simp add: session_loop.simps [of cfg env c'])
  then show ?thesis by (simp add: take_frames_fields)
qed

definition sample_payload :: bytes where "sample_payload = [16, 128, 235, 128]"

definition sample_header :: frame_header where
  "sample_header = make_header 7 1000 2 1 V4L2_PIX_FMT_YUYV 4 (compute_crc32 sample_payload)"

definition sample_receiver_env :: receiver_env where
  "sample_receiver_env = \<lparr>env_strerror = (\<lambda>n. ''error''), clock = (\<lambda>n. 2000), file_system = (\<lambda>path. FileOk)\<rparr>"

lemma sample_frame_good: "good_frame kDefaultMaxPayloadBytes (sample_header, sample_payload)"
  by (simp add: good_frame_def validate_header_iff header_acceptable_def sample_header_def make_header_def
      sample_payload_def kDefaultMaxPayloadBytes_def kWireHeaderSize_def V4L2_PIX_FMT_YUYV_def)

theorem session_delivers_all_witness:
  "\<exists>s'. session_loop default_receiver_config sample_receiver_env
      \<lparr>pending = concat (map frame_bytes [(sample_header, sample_payload)]),
       events = RecvError EINTR # replicate 60 (Ready 2)\<rparr> init_receiver = (SessionDone True, s') \<and>
    frames s' = frames init_receiver @ [(sample_header, sample_payload)]"
proof -
  have len: "length (frame_bytes (sample_header, sample_payload)) = 48"
    by (simp add: frame_bytes_def kWireHeaderSize_def sample_payload_def)
  show ?thesis
    using session_delivers_all [of "\<lparr>pending = concat (map frame_bytes [(sample_header, sample_payload)]),
       events = RecvError EINTR # replicate 60 (Ready 2)\<rparr>" "[(sample_header, sample_payload)]"
       default_receiver_config sample_receiver_env init_receiver] len sample_frame_good
    by (force simp: stream_ok_def default_receiver_config_def sample_receiver_env_def)
qed

text \<open>
  C11: a payload that was corrupted in up to four consecutive bytes is never counted as received. The
  frames before it are delivered, the corrupted one is rejected with a CRC error, nothing after it is
  read, and the program ends with exit code 2.
\<close>

theorem session_rejects_corruption:
  assumes "stream_ok c" and "good_frame (max_payload_bytes cfg) (h, pre @ xs @ post)"
    and "length ys = length xs" and "length xs \<le> 4" and "ys \<noteq> xs"
    and "pending c = concat (map frame_bytes fl) @ frame_bytes (h, pre @ ys @ post) @ rest"
    and "\<forall>f \<in> set fl. good_frame (max_payload_bytes cfg) f" and "\<And>path. file_system env path = FileOk"
    and "max_frames cfg = 0" and "receiver_inv cfg s" and "\<not> fatal_protocol_error s"
  shows "\<exists>s'. session_loop cfg env c s = (SessionDone False, s') \<and> frames s' = frames s @ fl \<and>
    crc_errors s' = 1 \<and> fatal_protocol_error s' \<and> receiver_exit_code s' = 2"
  using assms by (rule session_loop_corrupt)

theorem session_rejects_corruption_witness:
  "\<exists>s'. session_loop default_receiver_config sample_receiver_env
      \<lparr>pending = frame_bytes (sample_header, [16, 129, 235, 128]) @ [0xFF], events = replicate 60 (Ready 10)\<rparr>
      init_receiver = (SessionDone False, s') \<and> frames s' = [] \<and> crc_errors s' = 1 \<and> receiver_exit_code s' = 2"
proof -
  have len: "length (frame_bytes (sample_header, [16, 129, 235, 128])) = 48"
    by (simp add: frame_bytes_def kWireHeaderSize_def)
  have cfg: "max_payload_bytes default_receiver_config = kDefaultMaxPayloadBytes" "max_frames default_receiver_config = 0"
    by (simp_all add: default_receiver_config_def)
  have good: "good_frame (max_payload_bytes default_receiver_config) (sample_header, [16] @ [128] @ [235, 128])"
    using sample_frame_good cfg by (simp add: sample_payload_def)
  have "stream_ok \<lparr>pending = frame_bytes (sample_header, [16, 129, 235, 128]) @ [0xFF], events = replicate 60 (Ready 10)\<rparr>"
    using len by (simp add: stream_ok_def)
  from session_rejects_corruption [OF this good, of "[129]" "[]" "[0xFF]" sample_receiver_env init_receiver]
  show ?thesis by (auto simp: cfg init_receiver_inv sample_receiver_env_def) (auto simp: init_receiver_def)
qed

text \<open>
  C12: a stream that breaks off loses nothing that was complete and counts nothing that was not. If the
  peer closes after some complete frames and a strict prefix of another one, exactly the complete
  frames are received; the session is reported as completed when it broke inside a header and as
  incomplete when it broke inside a payload, and neither is a protocol error.
\<close>

theorem session_truncated:
  assumes "stream_ok c" and "good_frame (max_payload_bytes cfg) f" and "strict_prefix tail (frame_bytes f)"
    and "pending c = concat (map frame_bytes fl) @ tail"
    and "\<forall>f \<in> set fl. good_frame (max_payload_bytes cfg) f" and "\<And>path. file_system env path = FileOk"
    and "max_frames cfg = 0"
  shows "\<exists>s'. session_loop cfg env c s = (SessionDone (length tail < kWireHeaderSize), s') \<and>
    frames s' = frames s @ fl \<and> header_errors s' = header_errors s \<and> crc_errors s' = crc_errors s \<and>
    peer_disconnects s' = peer_disconnects s + 1 \<and> fatal_protocol_error s' = fatal_protocol_error s"
  using assms(2,3) by (intro session_loop_tail [OF assms(1) _ assms(4-7), where f = f]) simp

theorem session_truncated_witness:
  "\<exists>s'. session_loop default_receiver_config sample_receiver_env
      \<lparr>pending = frame_bytes (sample_header, sample_payload) @ serialize_header sample_header,
       events = replicate 100 (Ready 10)\<rparr> init_receiver = (SessionDone False, s') \<and>
    frames s' = [(sample_header, sample_payload)]"
proof -
  have len: "length (frame_bytes (sample_header, sample_payload)) = 48"
    by (simp add: frame_bytes_def kWireHeaderSize_def sample_payload_def)
  have cfg: "max_payload_bytes default_receiver_config = kDefaultMaxPayloadBytes" "max_frames default_receiver_config = 0"
    by (simp_all add: default_receiver_config_def)
  have pre: "strict_prefix (serialize_header sample_header) (frame_bytes (sample_header, sample_payload))"
    by (simp add: frame_bytes_def sample_payload_def strict_prefix_def)
  have "stream_ok \<lparr>pending = frame_bytes (sample_header, sample_payload) @ serialize_header sample_header,
       events = replicate 100 (Ready 10)\<rparr>"
    using len by (simp add: stream_ok_def kWireHeaderSize_def)
  from session_truncated [OF this _ pre, of default_receiver_config "[(sample_header, sample_payload)]"
      sample_receiver_env init_receiver] sample_frame_good
  show ?thesis by (auto simp: cfg sample_receiver_env_def kWireHeaderSize_def) (auto simp: init_receiver_def)
qed

text \<open>
  C13: in every environment (errors, interrupts, any bytes, any file system, any number of clients), when
  the program ends its exit code and counters are consistent: every counted frame passed header
  validation and the CRC check with a payload of the announced length, byte and file counters describe
  the log, at most one frame is rejected, sessions and frames stay within their limits, exit code 3 means
  exactly one header error, 2 exactly one CRC error, and 0 none.
\<close>

theorem receiver_main_consistent:
  assumes "receiver_main args env setup_listener write_stats as = (Some code, s)"
  shows "code \<in> {0, 1, 2, 3} \<and> rejected_frames s \<le> 1 \<and>
    (\<forall>cfg. parse_receiver_args args default_receiver_config = Inr (Some cfg) \<longrightarrow>
       receiver_inv cfg s \<and> session_inv cfg s) \<and>
    (code = 3 \<longrightarrow> header_errors s = 1 \<and> crc_errors s = 0) \<and>
    (code = 2 \<longrightarrow> crc_errors s = 1 \<and> header_errors s = 0) \<and>
    (code = 0 \<longrightarrow> header_errors s = 0 \<and> crc_errors s = 0)"
proof -
  have loop: "accept_loop cfg env as init_receiver = (e, s) \<Longrightarrow> receiver_inv cfg s \<and> session_inv cfg s" for cfg e
    by (rule accept_loop_inv [OF _ init_receiver_inv]) (simp_all add: init_receiver_def)
  from assms consider (early) "s = init_receiver" "code = 1 \<or> code = 0"
    | (run) cfg e where "accept_loop cfg env as init_receiver = (e, s)" "code = 1 \<or> code = receiver_exit_code s"
        "parse_receiver_args args default_receiver_config = Inr (Some cfg)"
    by (auto simp: receiver_main_def check_receiver_config_def
        split: sum.splits option.splits prod.splits loop_end.splits)
  then show ?thesis
  proof cases
    case early
    then show ?thesis using init_receiver_inv by (auto simp: init_receiver_def)
  next
    case (run cfg e)
    then show ?thesis using loop [OF run(1)]
      by (auto simp: receiver_inv_def receiver_exit_code_def split: if_splits)
  qed
qed

theorem receiver_main_consistent_witness:
  "rejected_frames (snd (receiver_main [''--port'', ''70000''] sample_receiver_env (\<lambda>c. None) (\<lambda>c s. None) [])) \<le> 1"
proof -
  have "fst (receiver_main [''--port'', ''70000''] sample_receiver_env (\<lambda>c. None) (\<lambda>c s. None) []) = Some 1"
    by (simp add: receiver_main_def parse_int_arg_def stol_def scan_int_def scan_sign_def isspace_def isdigit_def
        digits_value_def check_receiver_config_def default_receiver_config_def)
  then obtain s where "receiver_main [''--port'', ''70000''] sample_receiver_env (\<lambda>c. None) (\<lambda>c s. None) [] = (Some 1, s)"
    by (metis prod.collapse)
  from receiver_main_consistent [OF this] this show ?thesis by simp
qed

end
