(* ===== verification/Stats_Reports.thy ===== *)
theory Stats_Reports
  imports Stats_Json Pipeline Tcp_Receiver
begin

text \<open>
  The statistics reports of the two programs: \<open>PipelineStats::snapshot\<close> of \<open>include/pipeline_stats.hpp\<close>,
  \<open>write_pipeline_stats_json\<close> and \<open>write_receiver_stats_json\<close> of \<open>src/stats_json.cpp\<close>. The snapshot is taken
  after the threads were joined, so it reads one state; the counters it copies are the record they come
  from. The atomic \<open>received\<close> is never written by the pipeline and keeps its initial value 0.
\<close>

section \<open>The capture program\<close>

record pipeline_snapshot =
  snap_counters :: pipeline_stats
  elapsed_seconds :: real
  producer_fps :: real
  consumer_fps :: real
  snap_consumer_latency :: latency_summary
  snap_send_latency :: latency_summary

definition stats_snapshot :: "real \<Rightarrow> pipeline_stats \<Rightarrow> pipeline_snapshot" where
  "stats_snapshot elapsed st = \<lparr>
     snap_counters = st,
     elapsed_seconds = elapsed,
     producer_fps = (if elapsed > 0 then real (captured st) / elapsed else 0),
     consumer_fps = (if elapsed > 0 then real (consumed st) / elapsed else 0),
     snap_consumer_latency = latency_snapshot (capture_to_consumer_latency st),
     snap_send_latency = latency_snapshot (capture_to_send_latency st)\<rparr>"

definition counter_fields :: "pipeline_stats \<Rightarrow> (string \<times> string) list" where
  "counter_fields st =
     [(''produced_frames'', to_string (captured st)),
      (''consumed_frames'', to_string (consumed st)),
      (''invalid_frames'', to_string (invalid st)),
      (''saved_frames'', to_string (saved st)),
      (''consumed_bytes'', to_string (consumed_bytes st)),
      (''ring_dropped_frames'', to_string (capture_dropped st)),
      (''remaining_ring_size'', to_string (capture_queue_remaining st)),
      (''tcp_queued_frames'', to_string (tcp_queued st)),
      (''tcp_queue_dropped'', to_string (tcp_dropped st)),
      (''tcp_queue_remaining'', to_string (tcp_queue_remaining st)),
      (''tcp_sent_frames'', to_string (tcp_sent st)),
      (''tcp_sent_bytes'', to_string (tcp_sent_bytes st)),
      (''tcp_send_errors'', to_string (tcp_send_errors st)),
      (''tcp_send_timeouts'', to_string (tcp_send_timeouts st)),
      (''tcp_send_cancellations'', to_string (tcp_send_cancellations st)),
      (''tcp_connect_attempts'', to_string (tcp_connect_attempts st)),
      (''tcp_connect_retries'', to_string (tcp_connect_retries st)),
      (''camera_capture_timeouts'', to_string (camera_capture_timeouts st)),
      (''camera_temporary_unavailable'', to_string (camera_temporary_unavailable st)),
      (''camera_device_errors'', to_string (camera_device_errors st)),
      (''camera_buffer_error_frames'', to_string (camera_buffer_error_frames st)),
      (''camera_incomplete_frames'', to_string (camera_incomplete_frames st)),
      (''camera_consecutive_invalid_peak'', to_string (camera_consecutive_invalid_peak st)),
      (''camera_invalid_frame_recoveries'', to_string (camera_invalid_frame_recoveries st)),
      (''camera_invalid_recovery_suppressed_cooldown'', to_string (camera_invalid_recovery_suppressed_cooldown st)),
      (''camera_invalid_recovery_suppressed_budget'', to_string (camera_invalid_recovery_suppressed_budget st)),
      (''camera_recovery_attempts'', to_string (camera_recovery_attempts st)),
      (''camera_recovery_successes'', to_string (camera_recovery_successes st)),
      (''camera_recovery_failures'', to_string (camera_recovery_failures st)),
      (''received_frames'', to_string 0),
      (''reconnect_count'', to_string (reconnect_count st))]"

definition pipeline_report_fields :: "pipeline_snapshot \<Rightarrow> (string \<times> string) list" where
  "pipeline_report_fields snap =
     counter_fields (snap_counters snap) @
     [(''elapsed_seconds'', fixed3 (elapsed_seconds snap)),
      (''producer_fps'', fixed3 (producer_fps snap)),
      (''consumer_fps'', fixed3 (consumer_fps snap))] @
     latency_fields ''capture_to_consumer'' (snap_consumer_latency snap) @
     latency_fields ''capture_to_send'' (snap_send_latency snap)"

definition write_pipeline_stats_json ::
    "write_env \<Rightarrow> string \<Rightarrow> pipeline_snapshot \<Rightarrow> files \<Rightarrow> files list \<times> exn option" where
  "write_pipeline_stats_json env path snap =
     write_atomic_text_file env path
       (report_text (pipeline_report_fields snap) (stats_last_error (snap_counters snap)))"

section \<open>The receiver\<close>

definition receiver_report_fields :: "receiver \<Rightarrow> (string \<times> string) list" where
  "receiver_report_fields s =
     [(''received_frames'', to_string (received_frames s)),
      (''received_bytes'', to_string (received_bytes s)),
      (''crc_errors'', to_string (crc_errors s)),
      (''header_errors'', to_string (header_errors s)),
      (''rejected_frames'', to_string (rejected_frames s)),
      (''saved_files'', to_string (saved_files s)),
      (''accepted_sessions'', to_string (accepted_sessions s)),
      (''completed_sessions'', to_string (completed_sessions s)),
      (''peer_disconnects'', to_string (peer_disconnects s)),
      (''latency_clock_errors'', to_string (latency_clock_errors s))] @
     latency_fields ''e2e_latency'' (latency_snapshot (e2e_latency s))"

definition write_receiver_stats_json :: "write_env \<Rightarrow> string \<Rightarrow> receiver \<Rightarrow> files \<Rightarrow> files list \<times> exn option" where
  "write_receiver_stats_json env path s =
     write_atomic_text_file env path (report_text (receiver_report_fields s) (last_error s))"

text \<open>The end of the receiver's \<open>main\<close>: the argument \<open>write_stats\<close> of \<open>receiver_main\<close>.\<close>

definition receiver_write_stats :: "write_env \<Rightarrow> files \<Rightarrow> receiver_config \<Rightarrow> receiver \<Rightarrow> exn option" where
  "receiver_write_stats env fs cfg s = snd (write_receiver_stats_json env (stats_output cfg) s fs)"

section \<open>Lemmas\<close>

definition good_fields :: "(string \<times> string) list \<Rightarrow> bool" where
  "good_fields ms \<longleftrightarrow> (\<forall>(k, v) \<in> set ms. plain_key k \<and> number_text v)"

lemma good_fields_simps [simp]:
  "good_fields []" "good_fields ((k, v) # ms) \<longleftrightarrow> plain_key k \<and> number_text v \<and> good_fields ms"
  "good_fields (ms @ ms') \<longleftrightarrow> good_fields ms \<and> good_fields ms'"
  by (auto simp: good_fields_def)

lemma plain_key_append [simp]: "plain_key (a @ b) \<longleftrightarrow> plain_key a \<and> plain_key b"
  by (auto simp: plain_key_def)

lemma good_latency_fields: "plain_key name \<Longrightarrow> good_fields (latency_fields name summary)"
  by (simp add: latency_fields_def) (simp add: plain_key_def)

lemma good_pipeline_fields: "good_fields (pipeline_report_fields snap)"
proof -
  have "plain_key ''capture_to_consumer''" "plain_key ''capture_to_send''" by (simp_all add: plain_key_def)
  then show ?thesis
    by (simp add: pipeline_report_fields_def counter_fields_def good_latency_fields) (simp add: plain_key_def)
qed

lemma good_receiver_fields: "good_fields (receiver_report_fields s)"
proof -
  have "plain_key ''e2e_latency''" by (simp add: plain_key_def)
  then show ?thesis by (simp add: receiver_report_fields_def good_latency_fields) (simp add: plain_key_def)
qed

lemma read_report:
  "good_fields ms \<Longrightarrow> read_object (report_text ms e) = Some (map (\<lambda>(k, v). (k, JNumber v)) ms @ [(''last_error'', JString e)])"
  by (rule read_object_report) (simp add: good_fields_def)

definition report_content :: "(string \<times> string) list \<Rightarrow> string \<Rightarrow> (string \<times> json) list" where
  "report_content ms e = map (\<lambda>(k, v). (k, JNumber v)) ms @ [(''last_error'', JString e)]"

lemma keys_report_content: "map fst (report_content ms e) = map fst ms @ [''last_error'']"
  by (auto simp: report_content_def)

lemma distinct_pipeline_keys: "distinct (map fst (report_content (pipeline_report_fields snap) e))"
  unfolding keys_report_content
  by (simp add: pipeline_report_fields_def counter_fields_def latency_fields_def)

lemma distinct_receiver_keys: "distinct (map fst (report_content (receiver_report_fields s) e))"
  unfolding keys_report_content
  by (simp add: receiver_report_fields_def latency_fields_def)

lemma report_lookup:
  assumes "distinct (map fst (report_content ms e))"
  shows "\<forall>(k, v) \<in> set ms. map_of (report_content ms e) k = Some (JNumber v)"
    and "map_of (report_content ms e) ''last_error'' = Some (JString e)"
proof -
  show "\<forall>(k, v) \<in> set ms. map_of (report_content ms e) k = Some (JNumber v)"
    using assms by (fastforce simp: report_content_def intro!: map_of_is_SomeI)
  show "map_of (report_content ms e) ''last_error'' = Some (JString e)"
    using assms by (intro map_of_is_SomeI) (auto simp: report_content_def)
qed

lemma written_report:
  assumes "write_atomic_text_file env path (report_text ms e) fs = (states, None)" and "\<And>t. we_flushed env t = t"
    and "good_fields ms"
  shows "\<exists>text. last states path = Some text \<and> read_object text = Some (report_content ms e)"
  using write_atomic_ok [OF assms(1,2)] read_report [OF assms(3), of e] by (auto simp: report_content_def)

section \<open>Properties\<close>



end
