(* ===== verification/Camera_Device.thy ===== *)
theory Camera_Device
  imports Frame_Io "HOL-Library.Multiset"
begin

unbundle bit_operations_syntax

text \<open>
  \<open>CameraDevice\<close> of \<open>src/camera_device.cpp\<close>: opening a V4L2 device, format negotiation, memory mapped
  buffers, streaming, and the capture operations with their buffer guard.

  Every system call is recorded in the trace \<open>calls\<close> of the device, with its result where resources depend
  on it, and the record \<open>kernel\<close> says what the kernel answers to a call, given the trace so far: any
  deterministic device is an instance. The \<open>do ... while (EINTR)\<close> loop around \<open>poll\<close> reads a list of answers;
  \<open>Waiting\<close> is a call that has not returned when the list ends. Addresses are natural numbers, 0 is the
  null pointer. Console output is left out.
\<close>

section \<open>The kernel\<close>

record dequeued =
  dq_index :: u32
  dq_bytesused :: u32
  dq_sequence :: u32
  dq_flags :: u32
  dq_timestamp :: "int \<times> int"

record pix_format =
  pix_width :: u32
  pix_height :: u32
  pix_pixelformat :: u32
  pix_sizeimage :: u32

datatype sys_call =
    SysOpen string int
  | SysClose int
  | SysQuerycap int
  | SysSetFmt int u32 u32 u32
  | SysGetFmt int
  | SysReqbufs int u32
  | SysQuerybuf int nat
  | SysMmap int nat nat "nat option"
  | SysMunmap nat nat
  | SysQbuf int nat
  | SysStreamon int
  | SysStreamoff int
  | SysPoll int int
  | SysDqbuf int "u32 option"

type_synonym trace = "sys_call list"

record kernel =
  k_strerror :: "errno \<Rightarrow> string"
  k_open :: "trace \<Rightarrow> int \<times> errno"
  k_querycap :: "trace \<Rightarrow> errno option"
  k_s_fmt :: "trace \<Rightarrow> errno option"
  k_g_fmt :: "trace \<Rightarrow> errno + pix_format"
  k_reqbufs :: "trace \<Rightarrow> errno + u32"
  k_querybuf :: "trace \<Rightarrow> errno + nat \<times> nat"
  k_mmap :: "trace \<Rightarrow> nat \<Rightarrow> nat option \<times> errno"
  k_qbuf :: "trace \<Rightarrow> errno option"
  k_streamon :: "trace \<Rightarrow> errno option"
  k_poll :: "trace \<Rightarrow> poll_answer list"
  k_dqbuf :: "trace \<Rightarrow> errno + dequeued"
  k_memory :: "trace \<Rightarrow> nat \<Rightarrow> u8"
  k_steady_now :: "trace \<Rightarrow> int"
  k_system_now :: "trace \<Rightarrow> u64"
  k_create_directories :: "string \<Rightarrow> exn option"
  k_files :: "string \<Rightarrow> file_result"

text \<open>The number behind a symbolic error, as \<open>errno\<close> holds it on Linux.\<close>

definition errno_code :: "errno \<Rightarrow> int" where
  "errno_code e = (case e of EINTR \<Rightarrow> 4 | EAGAIN \<Rightarrow> 11 | EWOULDBLOCK \<Rightarrow> 11 | ENODEV \<Rightarrow> 19 | ENXIO \<Rightarrow> 6 | EBADF \<Rightarrow> 9
     | EINVAL \<Rightarrow> 22 | Errno n \<Rightarrow> n)"

section \<open>State and operations that may throw\<close>

record mapped_buffer =
  mb_start :: nat
  mb_length :: nat

record camera =
  device_path :: string
  cam_fd :: int
  buffers :: "mapped_buffer list"
  streaming :: bool
  current_width :: u32
  current_height :: u32
  current_pixelformat :: u32
  current_sizeimage :: u32
  calls :: trace

datatype 'a outcome = Ok 'a | Throws exn | Waiting

type_synonym 'a camera_op = "camera \<Rightarrow> 'a outcome \<times> camera"

definition return_c :: "'a \<Rightarrow> 'a camera_op" where
  "return_c x c = (Ok x, c)"

definition throw_c :: "exn \<Rightarrow> 'a camera_op" where
  "throw_c e c = (Throws e, c)"

definition bind_c :: "'a camera_op \<Rightarrow> ('a \<Rightarrow> 'b camera_op) \<Rightarrow> 'b camera_op" where
  "bind_c m f c = (case m c of
      (Ok x, c) \<Rightarrow> f x c
    | (Throws e, c) \<Rightarrow> (Throws e, c)
    | (Waiting, c) \<Rightarrow> (Waiting, c))"

definition check_c :: "bool \<Rightarrow> string \<Rightarrow> 'a camera_op \<Rightarrow> 'a camera_op" where
  "check_c bad msg rest c = (if bad then (Throws (RuntimeError msg), c) else rest c)"

definition sys :: "sys_call \<Rightarrow> camera \<Rightarrow> camera" where
  "sys call c = c\<lparr>calls := calls c @ [call]\<rparr>"

definition CameraDevice :: "string \<Rightarrow> camera" where
  "CameraDevice path = \<lparr>device_path = path, cam_fd = -1, buffers = [], streaming = False, current_width = 0,
     current_height = 0, current_pixelformat = 0, current_sizeimage = 0, calls = []\<rparr>"

section \<open>Releasing resources\<close>

definition close_device :: "camera \<Rightarrow> camera" where
  "close_device c = (if cam_fd c \<ge> 0 then (sys (SysClose (cam_fd c)) c)\<lparr>cam_fd := -1\<rparr> else c)"

definition unmap_buffer :: "camera \<Rightarrow> mapped_buffer \<Rightarrow> camera" where
  "unmap_buffer c b = (if mb_start b \<noteq> 0 \<and> mb_length b > 0 then sys (SysMunmap (mb_start b) (mb_length b)) c else c)"

definition release_mmap_buffers :: "camera \<Rightarrow> camera" where
  "release_mmap_buffers c = (foldl unmap_buffer c (buffers c))\<lparr>buffers := []\<rparr>"

definition stop_streaming :: "camera \<Rightarrow> camera" where
  "stop_streaming c =
     (if cam_fd c < 0 \<or> \<not> streaming c then c
      else (sys (SysStreamoff (cam_fd c)) c)\<lparr>streaming := False\<rparr>)"

definition destroy_camera :: "camera \<Rightarrow> camera" where
  "destroy_camera c = close_device (release_mmap_buffers (stop_streaming c))"

text \<open>
  Move assignment: this device releases what it holds and takes over the members of \<open>other\<close>, which is left
  empty. The trace of the result is that of this device, at whose end it holds nothing, followed by that
  of \<open>other\<close>.
\<close>

definition move_assign :: "camera \<Rightarrow> camera \<Rightarrow> camera \<times> camera" where
  "move_assign this other =
     (let this = destroy_camera this in
      (this\<lparr>device_path := device_path other, cam_fd := cam_fd other, buffers := buffers other,
            streaming := streaming other, current_width := current_width other,
            current_height := current_height other, current_pixelformat := current_pixelformat other,
            current_sizeimage := current_sizeimage other, calls := calls this @ calls other\<rparr>,
       other\<lparr>device_path := [], cam_fd := -1, buffers := [], streaming := False, current_width := 0,
            current_height := 0, current_pixelformat := 0, current_sizeimage := 0\<rparr>))"

text \<open>Move construction takes over the members without releasing anything.\<close>

definition move_construct :: "camera \<Rightarrow> camera \<times> camera" where
  "move_construct other =
     (other,
      other\<lparr>device_path := [], cam_fd := -1, buffers := [], streaming := False, current_width := 0,
            current_height := 0, current_pixelformat := 0, current_sizeimage := 0\<rparr>)"

section \<open>Opening and configuring\<close>

definition open_device :: "kernel \<Rightarrow> unit camera_op" where
  "open_device k c =
     (case k_open k (calls c) of (fd, err) \<Rightarrow>
        let c = (sys (SysOpen (device_path c) fd) c)\<lparr>cam_fd := fd\<rparr> in
        if fd < 0 then (Throws (RuntimeError (''Failed to open device '' @ device_path c @ '': '' @ k_strerror k err)), c)
        else (Ok (), c))"

definition camera_fourcc_to_string :: "u32 \<Rightarrow> string" where
  "camera_fourcc_to_string p =
     [char_of (unat (p AND 0xFF)), char_of (unat (drop_bit 8 p AND 0xFF)),
      char_of (unat (drop_bit 16 p AND 0xFF)), char_of (unat (drop_bit 24 p AND 0xFF))]"

text \<open>\<open>char\<close> is signed on the platforms of the program: the conversion to \<open>__u32\<close> extends the sign.\<close>

definition char_to_u32 :: "char \<Rightarrow> u32" where
  "char_to_u32 ch = (scast (of_char ch :: u8) :: u32)"

definition string_to_fourcc :: "string \<Rightarrow> u32 result" where
  "string_to_fourcc fourcc =
     (if length fourcc \<noteq> 4 then
        Inl (RuntimeError ''Pixel format must be a 4-character FourCC, for example YUYV or MJPG'')
      else let normalized = map toupper fourcc in
        Inr (char_to_u32 (normalized ! 0) OR push_bit 8 (char_to_u32 (normalized ! 1)) OR
             push_bit 16 (char_to_u32 (normalized ! 2)) OR push_bit 24 (char_to_u32 (normalized ! 3))))"

definition errno_text :: "kernel \<Rightarrow> string \<Rightarrow> errno \<Rightarrow> exn" where
  "errno_text k what_failed err = RuntimeError (what_failed @ '': '' @ k_strerror k err)"

definition query_capability :: "kernel \<Rightarrow> unit camera_op" where
  "query_capability k c =
     check_c (cam_fd c < 0) ''Device is not opened'' (\<lambda>c.
       case k_querycap k (calls c) of
         Some err \<Rightarrow> throw_c (errno_text k ''VIDIOC_QUERYCAP failed'' err) (sys (SysQuerycap (cam_fd c)) c)
       | None \<Rightarrow> return_c () (sys (SysQuerycap (cam_fd c)) c)) c"

definition set_format :: "kernel \<Rightarrow> u32 \<Rightarrow> u32 \<Rightarrow> string \<Rightarrow> unit camera_op" where
  "set_format k w h fmt c =
     check_c (cam_fd c < 0) ''Device is not opened'' (\<lambda>c.
       case string_to_fourcc fmt of
         Inl e \<Rightarrow> throw_c e c
       | Inr requested \<Rightarrow>
           (let answer = k_s_fmt k (calls c);
                c = sys (SysSetFmt (cam_fd c) w h requested) c
            in case answer of
                 Some err \<Rightarrow> throw_c (errno_text k ''VIDIOC_S_FMT failed'' err) c
               | None \<Rightarrow>
                   (let current = k_g_fmt k (calls c);
                        c = sys (SysGetFmt (cam_fd c)) c
                    in case current of
                         Inl err \<Rightarrow> throw_c (errno_text k ''VIDIOC_G_FMT failed'' err) c
                       | Inr pix \<Rightarrow>
                           return_c () (c\<lparr>current_width := pix_width pix, current_height := pix_height pix,
                              current_pixelformat := pix_pixelformat pix, current_sizeimage := pix_sizeimage pix\<rparr>)))) c"

definition requeue_buffer :: "kernel \<Rightarrow> nat \<Rightarrow> unit camera_op" where
  "requeue_buffer k index c =
     check_c (index \<ge> length (buffers c)) (''Cannot queue invalid buffer index: '' @ to_string index) (\<lambda>c.
       case k_qbuf k (calls c) of
         Some err \<Rightarrow>
           throw_c (errno_text k (''VIDIOC_QBUF failed at index '' @ to_string index) err) (sys (SysQbuf (cam_fd c) index) c)
       | None \<Rightarrow> return_c () (sys (SysQbuf (cam_fd c) index) c)) c"

definition try_requeue_buffer_noexcept :: "kernel \<Rightarrow> nat \<Rightarrow> camera \<Rightarrow> bool \<times> camera" where
  "try_requeue_buffer_noexcept k index c =
     (case requeue_buffer k index c of (Ok u, c) \<Rightarrow> (True, c) | (_, c) \<Rightarrow> (False, c))"

text \<open>The loops of \<open>init_mmap_buffers\<close>: \<open>n\<close> turns are left, \<open>i\<close> is the index.\<close>

fun map_buffers :: "kernel \<Rightarrow> nat \<Rightarrow> nat \<Rightarrow> unit camera_op" where
  "map_buffers k 0 i c = (Ok (), c)"
| "map_buffers k (Suc n) i c =
     (let answer = k_querybuf k (calls c);
          c = sys (SysQuerybuf (cam_fd c) i) c
      in case answer of
           Inl err \<Rightarrow> (Throws (errno_text k (''VIDIOC_QUERYBUF failed at index '' @ to_string i) err), c)
         | Inr (len, offset) \<Rightarrow>
             (case k_mmap k (calls c) len of (addr, err) \<Rightarrow>
                let c = sys (SysMmap (cam_fd c) len offset addr) c in
                case addr of
                  None \<Rightarrow> (Throws (errno_text k (''mmap failed at index '' @ to_string i) err), c)
                | Some a \<Rightarrow>
                    map_buffers k n (i + 1)
                      (c\<lparr>buffers := (buffers c)[i := \<lparr>mb_start = a, mb_length = len\<rparr>]\<rparr>)))"

fun queue_buffers :: "kernel \<Rightarrow> nat \<Rightarrow> nat \<Rightarrow> unit camera_op" where
  "queue_buffers k 0 i c = (Ok (), c)"
| "queue_buffers k (Suc n) i c = bind_c (requeue_buffer k i) (\<lambda>_. queue_buffers k n (i + 1)) c"

definition init_mmap_buffers :: "kernel \<Rightarrow> u32 \<Rightarrow> unit camera_op" where
  "init_mmap_buffers k requested c =
     check_c (cam_fd c < 0) ''Device is not opened''
     (check_c (requested = 0 \<or> requested > 32) ''Requested buffer count must be in range [1, 32]'' (\<lambda>c.
       let c = release_mmap_buffers c;
           answer = k_reqbufs k (calls c);
           c = sys (SysReqbufs (cam_fd c) requested) c
       in case answer of
            Inl err \<Rightarrow> throw_c (errno_text k ''VIDIOC_REQBUFS failed'' err) c
          | Inr driver_count \<Rightarrow>
              check_c (driver_count < 2) ''Insufficient buffer memory: driver returned fewer than 2 buffers'' (\<lambda>c.
                bind_c (map_buffers k (unat driver_count) 0) (\<lambda>_. queue_buffers k (unat driver_count) 0)
                  (c\<lparr>buffers := replicate (unat driver_count) \<lparr>mb_start = 0, mb_length = 0\<rparr>\<rparr>)) c)) c"

definition start_streaming :: "kernel \<Rightarrow> unit camera_op" where
  "start_streaming k c =
     check_c (cam_fd c < 0) ''Device is not opened''
     (check_c (buffers c = []) ''Cannot start streaming before MMAP buffers are initialized'' (\<lambda>c.
       if streaming c then return_c () c
       else case k_streamon k (calls c) of
         Some err \<Rightarrow> throw_c (errno_text k ''VIDIOC_STREAMON failed'' err) (sys (SysStreamon (cam_fd c)) c)
       | None \<Rightarrow> return_c () ((sys (SysStreamon (cam_fd c)) c)\<lparr>streaming := True\<rparr>))) c"

section \<open>Capturing\<close>

record captured_info =
  ci_index :: nat
  ci_bytesused :: u32
  ci_sequence :: u32
  ci_flags :: u32
  ci_timestamp :: "int \<times> int"

text \<open>The \<open>poll\<close> loop: repeated while it is interrupted.\<close>

fun poll_loop :: "int \<Rightarrow> int \<Rightarrow> poll_answer list \<Rightarrow> camera \<Rightarrow> poll_answer outcome \<times> camera" where
  "poll_loop fd wait_ms [] c = (Waiting, sys (SysPoll fd wait_ms) c)"
| "poll_loop fd wait_ms (a # answers) c =
     (let c = sys (SysPoll fd wait_ms) c in
      if pa_ret a < 0 \<and> pa_errno a = EINTR then poll_loop fd wait_ms answers c else (Ok a, c))"

definition poll_camera :: "kernel \<Rightarrow> int \<Rightarrow> poll_answer camera_op" where
  "poll_camera k wait_ms c = poll_loop (cam_fd c) wait_ms (k_poll k (calls c)) c"

definition unavailable_kind :: "errno \<Rightarrow> camera_capture_error_kind" where
  "unavailable_kind e = (if e = ENODEV \<or> e = ENXIO \<or> e = EBADF then DeviceUnavailable else StreamFailure)"

definition revents_text :: "string \<Rightarrow> u16 \<Rightarrow> string" where
  "revents_text msg revents = msg @ to_string (unat revents)"

definition dq_call :: "kernel \<Rightarrow> (errno + dequeued) camera_op" where
  "dq_call k c =
     (let answer = k_dqbuf k (calls c) in
      (Ok answer, sys (SysDqbuf (cam_fd c) (case answer of Inl e \<Rightarrow> None | Inr b \<Rightarrow> Some (dq_index b))) c))"

text \<open>The checks after \<open>poll\<close> and after \<open>VIDIOC_DQBUF\<close> in \<open>dequeue_frame\<close>.\<close>

definition poll_verdict :: "kernel \<Rightarrow> poll_answer \<Rightarrow> exn option" where
  "poll_verdict k a =
     (if pa_ret a < 0 then
        Some (CameraCaptureError (unavailable_kind (pa_errno a)) (errno_code (pa_errno a))
          (''poll failed: '' @ k_strerror k (pa_errno a)))
      else if pa_ret a = 0 then Some (CameraCaptureError Timeout 0 ''poll timed out: no frame received'')
      else if pa_revents a AND (POLLNVAL OR POLLHUP) \<noteq> 0 then
        Some (CameraCaptureError DeviceUnavailable 0
          (revents_text ''poll reported device unavailable, revents='' (pa_revents a)))
      else if pa_revents a AND POLLERR \<noteq> 0 \<and> \<not> pa_revents a AND POLLIN \<noteq> 0 then
        Some (CameraCaptureError StreamFailure 0
          (revents_text ''poll reported stream error without readable data, revents='' (pa_revents a)))
      else if \<not> pa_revents a AND POLLIN \<noteq> 0 then
        Some (CameraCaptureError StreamFailure 0
          (revents_text ''poll returned but POLLIN is not set, revents='' (pa_revents a)))
      else None)"

definition accept_dequeued :: "kernel \<Rightarrow> errno + dequeued \<Rightarrow> captured_info camera_op" where
  "accept_dequeued k answer c = (case answer of
      Inl err \<Rightarrow>
        if err = EAGAIN then
          throw_c (CameraCaptureError TemporaryUnavailable (errno_code err)
            ''VIDIOC_DQBUF returned EAGAIN: no buffer ready'') c
        else throw_c (CameraCaptureError (unavailable_kind err) (errno_code err)
            (''VIDIOC_DQBUF failed: '' @ k_strerror k err)) c
    | Inr b \<Rightarrow>
        (let index = unat (dq_index b) in
         if index \<ge> length (buffers c) then
           throw_c (CameraCaptureError InvalidBufferMetadata 0
             (''VIDIOC_DQBUF returned invalid buffer index: '' @ to_string index)) c
         else if unat (dq_bytesused b) > mb_length (buffers c ! index) then
           throw_c (CameraCaptureError InvalidBufferMetadata 0 ''bytesused is larger than mapped buffer length'')
             (snd (try_requeue_buffer_noexcept k index c))
         else return_c \<lparr>ci_index = index, ci_bytesused = dq_bytesused b, ci_sequence = dq_sequence b,
                ci_flags = dq_flags b, ci_timestamp = dq_timestamp b\<rparr> c))"

definition dequeue_frame :: "kernel \<Rightarrow> int \<Rightarrow> captured_info camera_op" where
  "dequeue_frame k wait_ms =
     bind_c (poll_camera k wait_ms) (\<lambda>a. case poll_verdict k a of
         Some e \<Rightarrow> throw_c e
       | None \<Rightarrow> bind_c (dq_call k) (accept_dequeued k))"

text \<open>The guard of a dequeued buffer; its destructor gives the buffer back unless that was done already.\<close>

record buffer_guard =
  guard_index :: nat
  guard_active :: bool

definition DequeuedBufferGuard :: "nat \<Rightarrow> buffer_guard" where
  "DequeuedBufferGuard index = \<lparr>guard_index = index, guard_active = True\<rparr>"

definition destroy_guard :: "kernel \<Rightarrow> buffer_guard \<Rightarrow> camera \<Rightarrow> camera" where
  "destroy_guard k g c = (if guard_active g then snd (try_requeue_buffer_noexcept k (guard_index g) c) else c)"

definition requeue_or_throw :: "kernel \<Rightarrow> buffer_guard \<Rightarrow> camera \<Rightarrow> unit outcome \<times> buffer_guard \<times> camera" where
  "requeue_or_throw k g c =
     (if \<not> guard_active g then (Ok (), g, c)
      else case requeue_buffer k (guard_index g) c of (r, c) \<Rightarrow> (r, g\<lparr>guard_active := False\<rparr>, c))"

text \<open>The bytes \<open>data[0] ... data[n - 1]\<close> behind a pointer into a mapped buffer.\<close>

definition read_mapped :: "kernel \<Rightarrow> camera \<Rightarrow> nat \<Rightarrow> nat \<Rightarrow> bytes" where
  "read_mapped k c start n = map (\<lambda>i. k_memory k (calls c) (start + i)) [0..<n]"

definition copy_frame :: "kernel \<Rightarrow> camera \<Rightarrow> captured_info \<Rightarrow> frame" where
  "copy_frame k c info =
     \<lparr>frm_data = read_mapped k c (mb_start (buffers c ! ci_index info)) (unat (ci_bytesused info)),
      frm_width = current_width c, frm_height = current_height c, frm_pixel_format = current_pixelformat c,
      frm_bytesused = ci_bytesused info, frm_sequence = ci_sequence info,
      frm_buffer_index = of_nat (ci_index info), frm_v4l2_flags = ci_flags info,
      frm_v4l2_timestamp = ci_timestamp info, frm_capture_timestamp_ns = k_system_now k (calls c),
      frm_host_receive_time = k_steady_now k (calls c)\<rparr>"

definition format_unknown :: "camera \<Rightarrow> bool" where
  "format_unknown c = (current_width c = 0 \<or> current_height c = 0 \<or> current_pixelformat c = 0)"

definition capture_frame_copy :: "kernel \<Rightarrow> int \<Rightarrow> frame camera_op" where
  "capture_frame_copy k wait_ms c =
     check_c (cam_fd c < 0) ''Device is not opened''
     (check_c (\<not> streaming c) ''Cannot capture frame before streaming is started''
     (check_c (format_unknown c) ''Current format is unknown, set format before capturing frame copy''
       (bind_c (dequeue_frame k wait_ms) (\<lambda>info c.
          let f = copy_frame k c info in
          case requeue_or_throw k (DequeuedBufferGuard (ci_index info)) c of (r, g, c) \<Rightarrow>
            (case r of Ok u \<Rightarrow> Ok f | Throws e \<Rightarrow> Throws e | Waiting \<Rightarrow> Waiting, destroy_guard k g c))))) c"

text \<open>\<open>capture_one_frame\<close> has no guard: nothing between the last check and the requeue throws.\<close>

definition finish_one_frame :: "kernel \<Rightarrow> errno + dequeued \<Rightarrow> unit camera_op" where
  "finish_one_frame k answer c = (case answer of
      Inl err \<Rightarrow>
        if err = EAGAIN then throw_c (RuntimeError ''VIDIOC_DQBUF returned EAGAIN: no buffer ready'') c
        else throw_c (errno_text k ''VIDIOC_DQBUF failed'' err) c
    | Inr b \<Rightarrow>
        check_c (unat (dq_index b) \<ge> length (buffers c))
          (''VIDIOC_DQBUF returned invalid buffer index: '' @ to_string (unat (dq_index b)))
          (requeue_buffer k (unat (dq_index b))) c)"

definition capture_one_frame :: "kernel \<Rightarrow> int \<Rightarrow> unit camera_op" where
  "capture_one_frame k wait_ms c =
     check_c (cam_fd c < 0) ''Device is not opened''
     (check_c (\<not> streaming c) ''Cannot capture frame before streaming is started''
       (bind_c (poll_camera k wait_ms) (\<lambda>a.
          check_c (pa_ret a < 0) (''poll failed: '' @ k_strerror k (pa_errno a))
          (check_c (pa_ret a = 0) ''poll timed out: no frame received''
          (check_c (\<not> pa_revents a AND POLLIN \<noteq> 0)
             (revents_text ''poll returned but POLLIN is not set, revents='' (pa_revents a))
          (bind_c (dq_call k) (finish_one_frame k))))))) c"

section \<open>Saving\<close>

definition clamp_to_u8 :: "int \<Rightarrow> u8" where
  "clamp_to_u8 v = (if v < 0 then 0 else if v > 255 then 255 else word_of_int v)"

definition camera_convert :: "int \<Rightarrow> int \<Rightarrow> int \<Rightarrow> u8 \<times> u8 \<times> u8" where
  "camera_convert y u_val v_val =
     (let c = y - 16; d = u_val - 128; e = v_val - 128;
          r = (298 * c + 409 * e + 128) div 256;
          g = (298 * c - 100 * d - 208 * e + 128) div 256;
          b = (298 * c + 516 * d + 128) div 256
      in (clamp_to_u8 r, clamp_to_u8 g, clamp_to_u8 b))"

function camera_yuyv_loop :: "bytes \<Rightarrow> nat \<Rightarrow> nat \<Rightarrow> nat \<Rightarrow> nat \<Rightarrow> bytes \<Rightarrow> bytes" where
  "camera_yuyv_loop yuyv pixel_count i inp out rgb =
     (if i + 1 < pixel_count then
        let y0 = uint (yuyv ! (inp + 0)); u = uint (yuyv ! (inp + 1));
            y1 = uint (yuyv ! (inp + 2)); v = uint (yuyv ! (inp + 3));
            rgb = store3 rgb out (camera_convert y0 u v);
            rgb = store3 rgb (out + 3) (camera_convert y1 u v)
        in camera_yuyv_loop yuyv pixel_count (i + 2) (inp + 4) (out + 6) rgb
      else rgb)"
  by pat_completeness auto
termination by (relation "measure (\<lambda>(yuyv, n, i, inp, out, rgb). n - i)") auto

declare camera_yuyv_loop.simps [simp del]

definition yuyv_to_rgb :: "bytes \<Rightarrow> u32 \<Rightarrow> u32 \<Rightarrow> bytes" where
  "yuyv_to_rgb yuyv w h =
     (let pixel_count = unat w * unat h
      in camera_yuyv_loop yuyv pixel_count 0 0 0 (replicate (pixel_count * 3) 0))"

definition fourcc_YUYV :: u32 where
  "fourcc_YUYV = (case string_to_fourcc ''YUYV'' of Inr f \<Rightarrow> f | Inl e \<Rightarrow> 0)"

text \<open>
  \<open>yuyv_to_rgb\<close> gets only a pointer and reads four bytes per pair of pixels of the current format, however
  many bytes the buffer has; \<open>rgb_reads\<close> is that number.
\<close>

definition rgb_reads :: "camera \<Rightarrow> nat" where
  "rgb_reads c = unat (current_width c) * unat (current_height c) div 2 * 4"

definition save_current_frame_to_files ::
    "kernel \<Rightarrow> captured_info \<Rightarrow> string \<Rightarrow> camera \<Rightarrow> (string \<times> bytes) list \<times> exn option" where
  "save_current_frame_to_files k info dir c =
     (if ci_index info \<ge> length (buffers c) then ([], Some (RuntimeError ''Invalid frame buffer index when saving''))
      else if format_unknown c then
        ([], Some (RuntimeError ''Current format is unknown, set format before saving''))
      else case k_create_directories k dir of Some e \<Rightarrow> ([], Some e) | None \<Rightarrow>
        (let base = dir @ ''/frame_'' @ zero_pad6 (unat (ci_sequence info));
            start = mb_start (buffers c ! ci_index info);
            raw_path = base @ ''.'' @ camera_fourcc_to_string (current_pixelformat c)
        in case write_file (k_files k) ''raw'' raw_path (read_mapped k c start (unat (ci_bytesused info))) of
             Inl e \<Rightarrow> ([], Some e)
           | Inr raw \<Rightarrow>
               if current_pixelformat c = fourcc_YUYV then
                 (case write_file (k_files k) ''ppm'' (base @ ''.ppm'')
                    (string_bytes (''P6'' @ [CHR 0x0A] @ to_string (unat (current_width c)) @ '' '' @
                       to_string (unat (current_height c)) @ [CHR 0x0A] @ ''255'' @ [CHR 0x0A]) @
                     yuyv_to_rgb (read_mapped k c start (rgb_reads c)) (current_width c) (current_height c)) of
                    Inl e \<Rightarrow> ([raw], Some e)
                  | Inr ppm \<Rightarrow> ([raw, ppm], None))
               else ([raw], None)))"

text \<open>The files written come first; an exception of the saving leaves the guard active.\<close>

definition capture_one_frame_to_files ::
    "kernel \<Rightarrow> int \<Rightarrow> string \<Rightarrow> camera \<Rightarrow> (string \<times> bytes) list \<times> unit outcome \<times> camera" where
  "capture_one_frame_to_files k wait_ms dir c =
     (if cam_fd c < 0 then ([], Throws (RuntimeError ''Device is not opened''), c)
      else if \<not> streaming c then
        ([], Throws (RuntimeError ''Cannot capture frame before streaming is started''), c)
      else case dequeue_frame k wait_ms c of
          (Throws e, c) \<Rightarrow> ([], Throws e, c)
        | (Waiting, c) \<Rightarrow> ([], Waiting, c)
        | (Ok info, c) \<Rightarrow>
            (let guard = DequeuedBufferGuard (ci_index info) in
             case save_current_frame_to_files k info dir c of
               (written, Some e) \<Rightarrow> (written, Throws e, destroy_guard k guard c)
             | (written, None) \<Rightarrow>
                 (case requeue_or_throw k guard c of (r, g, c) \<Rightarrow> (written, r, destroy_guard k g c))))"

section \<open>Measuring\<close>

record capture_counters =
  cap_captured :: nat
  cap_poll_timeouts :: nat
  cap_dqbuf_errors :: nat
  cap_total_bytes :: nat
  cap_min_bytes :: u32
  cap_max_bytes :: u32
  cap_previous_time :: "int option"
  cap_intervals :: "int list"

definition CaptureCounters :: capture_counters where
  "CaptureCounters = \<lparr>cap_captured = 0, cap_poll_timeouts = 0, cap_dqbuf_errors = 0, cap_total_bytes = 0,
     cap_min_bytes = 0, cap_max_bytes = 0, cap_previous_time = None, cap_intervals = []\<rparr>"

definition count_captured :: "int \<Rightarrow> u32 \<Rightarrow> capture_counters \<Rightarrow> capture_counters" where
  "count_captured now bytesused st =
     st\<lparr>cap_intervals := (case cap_previous_time st of None \<Rightarrow> cap_intervals st | Some p \<Rightarrow> cap_intervals st @ [now - p]),
        cap_previous_time := Some now,
        cap_total_bytes := cap_total_bytes st + unat bytesused,
        cap_min_bytes := (if cap_captured st = 0 then bytesused else min (cap_min_bytes st) bytesused),
        cap_max_bytes := (if cap_captured st = 0 then bytesused else max (cap_max_bytes st) bytesused),
        cap_captured := cap_captured st + 1\<rparr>"

text \<open>One iteration of the loop of \<open>capture_frames\<close>.\<close>

definition finish_turn :: "kernel \<Rightarrow> capture_counters \<Rightarrow> errno + dequeued \<Rightarrow> capture_counters camera_op" where
  "finish_turn k st answer c = (case answer of
      Inl err \<Rightarrow>
        if err = EAGAIN then return_c (st\<lparr>cap_dqbuf_errors := cap_dqbuf_errors st + 1\<rparr>) c
        else throw_c (errno_text k ''VIDIOC_DQBUF failed'' err) c
    | Inr b \<Rightarrow>
        (let index = unat (dq_index b) in
         if index \<ge> length (buffers c) then
           throw_c (RuntimeError (''VIDIOC_DQBUF returned invalid buffer index: '' @ to_string index)) c
         else if unat (dq_bytesused b) > mb_length (buffers c ! index) then
           bind_c (requeue_buffer k index)
             (\<lambda>_. throw_c (RuntimeError ''bytesused is larger than mapped buffer length'')) c
         else bind_c (requeue_buffer k index)
             (\<lambda>_. return_c (count_captured (k_steady_now k (calls c)) (dq_bytesused b) st)) c))"

definition capture_turn :: "kernel \<Rightarrow> int \<Rightarrow> capture_counters \<Rightarrow> capture_counters camera_op" where
  "capture_turn k wait_ms st =
     bind_c (poll_camera k wait_ms) (\<lambda>a.
       if pa_ret a < 0 then throw_c (errno_text k ''poll failed'' (pa_errno a))
       else if pa_ret a = 0 then return_c (st\<lparr>cap_poll_timeouts := cap_poll_timeouts st + 1\<rparr>)
       else if pa_revents a AND POLLNVAL \<noteq> 0 then
         throw_c (RuntimeError ''poll returned POLLNVAL: invalid file descriptor'')
       else if \<not> pa_revents a AND POLLIN \<noteq> 0 then
         return_c (st\<lparr>cap_dqbuf_errors := cap_dqbuf_errors st + 1\<rparr>)
       else bind_c (dq_call k) (finish_turn k st))"

text \<open>The loop may go on for ever (time-outs are not limited): \<open>fuel\<close> bounds the iterations.\<close>

fun capture_loop :: "kernel \<Rightarrow> nat \<Rightarrow> int \<Rightarrow> int \<Rightarrow> capture_counters \<Rightarrow> capture_counters camera_op" where
  "capture_loop k fuel frame_count wait_ms st c =
     (if int (cap_captured st) < frame_count then
        (case fuel of
           0 \<Rightarrow> (Waiting, c)
         | Suc fuel \<Rightarrow> bind_c (capture_turn k wait_ms st) (capture_loop k fuel frame_count wait_ms) c)
      else (Ok st, c))"

declare capture_loop.simps [simp del]

definition camera_capture_frames :: "kernel \<Rightarrow> nat \<Rightarrow> int \<Rightarrow> int \<Rightarrow> capture_counters camera_op" where
  "camera_capture_frames k fuel frame_count wait_ms c =
     check_c (cam_fd c < 0) ''Device is not opened''
     (check_c (\<not> streaming c) ''Cannot capture frames before streaming is started''
     (check_c (frame_count \<le> 0) ''Frame count must be positive''
       (capture_loop k fuel frame_count wait_ms CaptureCounters))) c"

end
