(* ===== verification/Camera_Safety.thy ===== *)
theory Camera_Safety
  imports Camera_Device
begin

unbundle bit_operations_syntax

text \<open>
  What \<open>CameraDevice\<close> guarantees: descriptors and mappings are never leaked over any sequence of its
  operations, every dequeued buffer goes back to the driver on every path, and a captured frame is a
  copy of the bytes the driver announced, inside the mapping.
\<close>

section \<open>Operations\<close>

lemma bind_c_cases:
  assumes "bind_c m f c = (r, c')"
  obtains (Ok) x c1 where "m c = (Ok x, c1)" "f x c1 = (r, c')"
  | (Throws) e where "m c = (Throws e, c')" "r = Throws e"
  | (Waiting) "m c = (Waiting, c')" "r = Waiting"
  using assms by (cases "m c") (auto simp: bind_c_def split: outcome.splits)

lemma check_c_cases:
  assumes "check_c bad msg rest c = (r, c')"
  obtains (bad) "bad" "r = Throws (RuntimeError msg)" "c' = c" | (good) "\<not> bad" "rest c = (r, c')"
  using assms by (cases bad) (auto simp: check_c_def)

lemma sys_fields [simp]:
  "device_path (sys e c) = device_path c" "cam_fd (sys e c) = cam_fd c" "buffers (sys e c) = buffers c"
  "streaming (sys e c) = streaming c" "current_width (sys e c) = current_width c"
  "current_height (sys e c) = current_height c" "current_pixelformat (sys e c) = current_pixelformat c"
  "current_sizeimage (sys e c) = current_sizeimage c" "calls (sys e c) = calls c @ [e]"
  by (simp_all add: sys_def)

section \<open>Descriptors and mappings\<close>

text \<open>What a trace leaves open and mapped.\<close>

definition fd_event :: "int multiset \<Rightarrow> sys_call \<Rightarrow> int multiset" where
  "fd_event M e = (case e of
      SysOpen p fd \<Rightarrow> if fd \<ge> 0 then add_mset fd M else M
    | SysClose fd \<Rightarrow> M - {#fd#}
    | _ \<Rightarrow> M)"

definition map_event :: "(nat \<times> nat) multiset \<Rightarrow> sys_call \<Rightarrow> (nat \<times> nat) multiset" where
  "map_event M e = (case e of
      SysMmap fd len offset (Some a) \<Rightarrow> add_mset (a, len) M
    | SysMunmap a len \<Rightarrow> M - {#(a, len)#}
    | _ \<Rightarrow> M)"

definition live_fds :: "trace \<Rightarrow> int multiset" where "live_fds tr = foldl fd_event {#} tr"
definition live_maps :: "trace \<Rightarrow> (nat \<times> nat) multiset" where "live_maps tr = foldl map_event {#} tr"

lemma live_append [simp]:
  "live_fds (tr @ es) = foldl fd_event (live_fds tr) es" "live_maps (tr @ es) = foldl map_event (live_maps tr) es"
  "live_fds [] = {#}" "live_maps [] = {#}"
  by (simp_all add: live_fds_def live_maps_def)

definition is_mapped :: "mapped_buffer \<Rightarrow> bool" where
  "is_mapped b \<longleftrightarrow> mb_start b \<noteq> 0 \<and> mb_length b > 0"

definition mappings :: "mapped_buffer list \<Rightarrow> (nat \<times> nat) multiset" where
  "mappings bs = mset (map (\<lambda>b. (mb_start b, mb_length b)) (filter is_mapped bs))"

text \<open>The device holds exactly the descriptor and the mappings its members name.\<close>

definition owns_exactly :: "camera \<Rightarrow> bool" where
  "owns_exactly c \<longleftrightarrow>
     live_fds (calls c) = (if cam_fd c \<ge> 0 then {#cam_fd c#} else {#}) \<and> live_maps (calls c) = mappings (buffers c)"

lemma owns_sys:
  assumes "owns_exactly c" and "\<And>M. fd_event M e = M" and "\<And>M. map_event M e = M"
  shows "owns_exactly (sys e c)"
  using assms by (simp add: owns_exactly_def)

lemma neutral_calls [simp]:
  "fd_event M (SysQuerycap fd) = M" "map_event N (SysQuerycap fd) = N"
  "fd_event M (SysSetFmt fd w h f) = M" "map_event N (SysSetFmt fd w h f) = N"
  "fd_event M (SysGetFmt fd) = M" "map_event N (SysGetFmt fd) = N"
  "fd_event M (SysReqbufs fd n) = M" "map_event N (SysReqbufs fd n) = N"
  "fd_event M (SysQuerybuf fd i) = M" "map_event N (SysQuerybuf fd i) = N"
  "fd_event M (SysQbuf fd i) = M" "map_event N (SysQbuf fd i) = N"
  "fd_event M (SysStreamon fd) = M" "map_event N (SysStreamon fd) = N"
  "fd_event M (SysStreamoff fd) = M" "map_event N (SysStreamoff fd) = N"
  "fd_event M (SysPoll fd t) = M" "map_event N (SysPoll fd t) = N"
  "fd_event M (SysDqbuf fd i') = M" "map_event N (SysDqbuf fd i') = N"
  "fd_event M (SysMmap fd len off a) = M" "fd_event M (SysMunmap b m) = M"
  "map_event N (SysOpen p fd) = N" "map_event N (SysClose fd) = N"
  by (simp_all add: fd_event_def map_event_def)

lemma owns_update [simp]:
  "owns_exactly (c\<lparr>streaming := b\<rparr>) = owns_exactly c"
  "owns_exactly (c\<lparr>current_width := w, current_height := h, current_pixelformat := p, current_sizeimage := z\<rparr>) = owns_exactly c"
  by (simp_all add: owns_exactly_def)

lemma owns_requeue: "owns_exactly c \<Longrightarrow> owns_exactly (snd (requeue_buffer k i c))"
  by (simp add: requeue_buffer_def check_c_def throw_c_def return_c_def owns_sys split: option.split)

lemma owns_query: "owns_exactly c \<Longrightarrow> owns_exactly (snd (query_capability k c))"
  by (simp add: query_capability_def check_c_def throw_c_def return_c_def owns_sys split: option.split)

lemma owns_set_format: "owns_exactly c \<Longrightarrow> owns_exactly (snd (set_format k w h fmt c))"
  by (simp add: set_format_def check_c_def throw_c_def return_c_def owns_sys Let_def split: option.split sum.split)

lemma owns_start: "owns_exactly c \<Longrightarrow> owns_exactly (snd (start_streaming k c))"
  by (simp add: start_streaming_def check_c_def throw_c_def return_c_def owns_sys split: option.split)

section \<open>Buffers go back to the driver\<close>

lemma calls_update_id [simp]: "(c :: camera)\<lparr>calls := calls c\<rparr> = c" by simp

lemma sys_eq: "sys e c = c\<lparr>calls := calls c @ [e]\<rparr>" by (simp add: sys_def)

lemma poll_loop_calls:
  "poll_loop fd t answers c = (r, c') \<Longrightarrow> \<exists>n. c' = c\<lparr>calls := calls c @ replicate n (SysPoll fd t)\<rparr>"
proof (induction answers arbitrary: c)
  case Nil
  then show ?case by (auto simp: sys_eq intro!: exI [of _ 1])
next
  case (Cons a answers)
  show ?case
  proof (cases "pa_ret a < 0 \<and> pa_errno a = EINTR")
    case True
    with Cons.prems have "poll_loop fd t answers (sys (SysPoll fd t) c) = (r, c')" by simp
    from Cons.IH [OF this] obtain n where "c' = c\<lparr>calls := calls c @ replicate (Suc n) (SysPoll fd t)\<rparr>"
      by (auto simp: sys_eq)
    then show ?thesis by blast
  next
    case False
    with Cons.prems show ?thesis by (auto simp: sys_eq intro!: exI [of _ 1])
  qed
qed

text \<open>
  The calls of one capture: some polls, then nothing, a failed dequeue, a dequeue with an index the device
  does not have, or a dequeue followed by the return of that buffer. Nothing else of the device changes.
\<close>

definition capture_calls :: "camera \<Rightarrow> int \<Rightarrow> trace \<Rightarrow> camera \<Rightarrow> bool" where
  "capture_calls c t tail c' \<longleftrightarrow>
     (\<exists>n. c' = c\<lparr>calls := calls c @ replicate n (SysPoll (cam_fd c) t) @ tail\<rparr>)"

definition gives_back :: "camera \<Rightarrow> int \<Rightarrow> camera \<Rightarrow> bool" where
  "gives_back c t c' \<longleftrightarrow>
     capture_calls c t [] c' \<or> capture_calls c t [SysDqbuf (cam_fd c) None] c' \<or>
     (\<exists>i. unat i \<ge> length (buffers c) \<and> capture_calls c t [SysDqbuf (cam_fd c) (Some i)] c') \<or>
     (\<exists>i. unat i < length (buffers c) \<and>
        capture_calls c t [SysDqbuf (cam_fd c) (Some i), SysQbuf (cam_fd c) (unat i)] c')"

lemma poll_camera_calls: "poll_camera k t c = (r, c') \<Longrightarrow> capture_calls c t [] c'"
  by (auto simp: poll_camera_def capture_calls_def dest: poll_loop_calls)

lemma capture_calls_fields:
  assumes "capture_calls c t tail c'"
  shows "cam_fd c' = cam_fd c" "buffers c' = buffers c" "streaming c' = streaming c" "current_width c' = current_width c"
    "current_height c' = current_height c" "current_pixelformat c' = current_pixelformat c"
  using assms by (auto simp: capture_calls_def)

lemma capture_calls_sys: "capture_calls c t tail c1 \<Longrightarrow> capture_calls c t (tail @ [e]) (sys e c1)"
  by (auto simp: capture_calls_def sys_eq)

lemma dq_call_calls:
  assumes "capture_calls c t [] c1" and "dq_call k c1 = (r, c2)"
  obtains (failed) err where "r = Ok (Inl err)" "capture_calls c t [SysDqbuf (cam_fd c) None] c2"
  | (got) b where "r = Ok (Inr b)" "capture_calls c t [SysDqbuf (cam_fd c) (Some (dq_index b))] c2"
  using assms capture_calls_sys [OF assms(1)] capture_calls_fields(1) [OF assms(1)] 
  by (cases "k_dqbuf k (calls c1)") (auto simp: dq_call_def Let_def)

lemma requeue_call:
  assumes "capture_calls c t [SysDqbuf (cam_fd c) (Some i)] c1" and "unat i < length (buffers c)"
  shows "snd (requeue_buffer k (unat i) c1) = sys (SysQbuf (cam_fd c) (unat i)) c1"
  using assms(2) capture_calls_fields [OF assms(1)]
  by (simp add: requeue_buffer_def check_c_def throw_c_def return_c_def split: option.split)

lemma requeue_calls:
  assumes "capture_calls c t [SysDqbuf (cam_fd c) (Some i)] c1" and "unat i < length (buffers c)"
  shows "gives_back c t (snd (requeue_buffer k (unat i) c1))"
    and "\<exists>r. fst (requeue_buffer k (unat i) c1) = r \<and> (r = Ok () \<or> (\<exists>e. r = Throws e))"
proof -
  from requeue_call [OF assms] capture_calls_sys [OF assms(1), of "SysQbuf (cam_fd c) (unat i)"] assms(2)
  show "gives_back c t (snd (requeue_buffer k (unat i) c1))" by (auto simp: gives_back_def)
  show "\<exists>r. fst (requeue_buffer k (unat i) c1) = r \<and> (r = Ok () \<or> (\<exists>e. r = Throws e))"
    by (simp add: requeue_buffer_def check_c_def throw_c_def return_c_def split: option.split)
qed

lemma gives_backI:
  "capture_calls c t [] c' \<Longrightarrow> gives_back c t c'" "capture_calls c t [SysDqbuf (cam_fd c) None] c' \<Longrightarrow> gives_back c t c'"
  "unat i \<ge> length (buffers c) \<Longrightarrow> capture_calls c t [SysDqbuf (cam_fd c) (Some i)] c' \<Longrightarrow> gives_back c t c'"
  by (auto simp: gives_back_def)

lemma try_requeue_snd: "snd (try_requeue_buffer_noexcept k i c) = snd (requeue_buffer k i c)"
  by (simp add: try_requeue_buffer_noexcept_def split: prod.split outcome.split)

definition info_of :: "dequeued \<Rightarrow> captured_info" where
  "info_of b = \<lparr>ci_index = unat (dq_index b), ci_bytesused = dq_bytesused b, ci_sequence = dq_sequence b,
     ci_flags = dq_flags b, ci_timestamp = dq_timestamp b\<rparr>"

lemma poll_verdict_error: "poll_verdict k a = Some e \<Longrightarrow> \<exists>kind n m. e = CameraCaptureError kind n m"
  by (auto simp: poll_verdict_def split: if_splits)

lemma accept_dequeued_got:
  assumes "accept_dequeued k (Inr b) c2 = (r, c')" and "capture_calls c t [SysDqbuf (cam_fd c) (Some (dq_index b))] c2"
  obtains (good) "r = Ok (info_of b)" "c' = c2" "unat (dq_index b) < length (buffers c)"
      "unat (dq_bytesused b) \<le> mb_length (buffers c ! unat (dq_index b))"
  | (bad) kind n m where "r = Throws (CameraCaptureError kind n m)" "gives_back c t c'"
proof -
  let ?i = "unat (dq_index b)"
  note f = capture_calls_fields [OF assms(2)]
  consider "?i \<ge> length (buffers c)"
    | "?i < length (buffers c)" "unat (dq_bytesused b) > mb_length (buffers c ! ?i)"
    | "?i < length (buffers c)" "unat (dq_bytesused b) \<le> mb_length (buffers c ! ?i)" by linarith
  then show thesis
  proof cases
    case 1
    with assms(1) f have "\<exists>kind n m. r = Throws (CameraCaptureError kind n m) \<and> c' = c2"
      by (auto simp: accept_dequeued_def throw_c_def Let_def)
    with bad gives_backI(3) [OF 1 assms(2)] show thesis by blast
  next
    case 2
    with assms(1) f have "\<exists>kind n m. r = Throws (CameraCaptureError kind n m) \<and> c' = snd (requeue_buffer k ?i c2)"
      by (auto simp: accept_dequeued_def throw_c_def Let_def try_requeue_snd)
    with bad requeue_calls(1) [OF assms(2) 2(1)] show thesis by blast
  next
    case 3
    with assms(1) f good show thesis by (auto simp: accept_dequeued_def return_c_def Let_def info_of_def)
  qed
qed

lemma dequeue_frame_cases:
  assumes "dequeue_frame k t c = (r, c')"
  obtains (got) b where "r = Ok (info_of b)" "unat (dq_index b) < length (buffers c)"
      "unat (dq_bytesused b) \<le> mb_length (buffers c ! unat (dq_index b))"
      "capture_calls c t [SysDqbuf (cam_fd c) (Some (dq_index b))] c'"
  | (error) kind n m where "r = Throws (CameraCaptureError kind n m)" "gives_back c t c'"
  | (waiting) "r = Waiting" "gives_back c t c'"
  using assms unfolding dequeue_frame_def
proof (cases rule: bind_c_cases)
  case (Throws e)
  have "fst (poll_loop fd t as c) \<noteq> Throws e" for fd as c e by (induction as arbitrary: c) (simp_all add: Let_def)
  then have False using Throws(1) by (metis fst_conv poll_camera_def)
  then show thesis ..
next
  case Waiting
  then show thesis by (intro waiting gives_backI(1) poll_camera_calls)
next
  case (Ok a c1)
  note polled = poll_camera_calls [OF Ok(1)]
  show thesis
  proof (cases "poll_verdict k a")
    case (Some e)
    with Ok(2) poll_verdict_error [OF Some] error gives_backI(1) [OF polled] show thesis by (auto simp: throw_c_def)
  next
    case None
    obtain r1 c2 where dq: "dq_call k c1 = (r1, c2)" by fastforce
    from polled dq show thesis
    proof (cases rule: dq_call_calls)
      case (failed err)
      have "\<exists>kind n m. r = Throws (CameraCaptureError kind n m) \<and> c' = c2"
        using Ok(2) None dq failed(1) by (auto simp: bind_c_def throw_c_def accept_dequeued_def split: if_splits)
      with error gives_backI(2) [OF failed(2)] show thesis by blast
    next
      case (got b)
      have "accept_dequeued k (Inr b) c2 = (r, c')" using Ok(2) None dq got(1) by (simp add: bind_c_def)
      from this got(2) show thesis by (cases rule: accept_dequeued_got) (use that got(2) in blast)+
    qed
  qed
qed

lemma owns_capture_calls:
  assumes "owns_exactly c" and "capture_calls c t tail c'" and "\<And>M. foldl fd_event M tail = M" and "\<And>M. foldl map_event M tail = M"
  shows "owns_exactly c'"
proof -
  have "foldl fd_event M (replicate n (SysPoll fd t)) = M" "foldl map_event N (replicate n (SysPoll fd t)) = N" for M N n fd
    by (induction n) simp_all
  with assms show ?thesis by (auto simp: owns_exactly_def capture_calls_def live_fds_def live_maps_def)
qed

lemma owns_gives_back: "owns_exactly c \<Longrightarrow> gives_back c t c' \<Longrightarrow> owns_exactly c'"
  by (auto simp: gives_back_def elim!: owns_capture_calls)

lemma gives_back_refl: "gives_back c t c"
  by (auto simp: gives_back_def capture_calls_def intro!: exI [of _ 0])

text \<open>After \<open>requeue_or_throw\<close> the guard is inactive and its destructor does nothing.\<close>

lemma requeue_or_throw_guard:
  "requeue_or_throw k (DequeuedBufferGuard i) c =
     (fst (requeue_buffer k i c), \<lparr>guard_index = i, guard_active = False\<rparr>, snd (requeue_buffer k i c))"
  by (simp add: requeue_or_throw_def DequeuedBufferGuard_def split: prod.split)

lemma destroy_guard_simps [simp]:
  "destroy_guard k \<lparr>guard_index = i, guard_active = False\<rparr> c = c"
  "destroy_guard k (DequeuedBufferGuard i) c = snd (requeue_buffer k i c)"
  by (simp_all add: destroy_guard_def DequeuedBufferGuard_def try_requeue_snd)

lemma info_of_index [simp]: "ci_index (info_of b) = unat (dq_index b)" "ci_bytesused (info_of b) = dq_bytesused b"
  by (simp_all add: info_of_def)

lemma capture_frame_copy_cases:
  assumes "capture_frame_copy k t c = (r, c')"
  obtains (frame) b c1 where "r = Ok (copy_frame k c1 (info_of b))"
      "0 \<le> cam_fd c" "streaming c" "\<not> format_unknown c" "unat (dq_index b) < length (buffers c)"
      "unat (dq_bytesused b) \<le> mb_length (buffers c ! unat (dq_index b))"
      "capture_calls c t [SysDqbuf (cam_fd c) (Some (dq_index b))] c1"
      "c' = sys (SysQbuf (cam_fd c) (unat (dq_index b))) c1" "gives_back c t c'"
  | (other) "\<And>f. r \<noteq> Ok f" "gives_back c t c'"
proof (cases "cam_fd c < 0 \<or> \<not> streaming c \<or> format_unknown c")
  case True
  with assms other gives_back_refl show thesis by (auto simp: capture_frame_copy_def check_c_def split: if_splits)
next
  case False
  obtain r1 c1 where dq: "dequeue_frame k t c = (r1, c1)" by fastforce
  from dq show thesis
  proof (cases rule: dequeue_frame_cases)
    case (got b)
    note ret = requeue_calls [OF got(4,2), of k]
    have "c' = snd (requeue_buffer k (unat (dq_index b)) c1)"
      "r = Ok (copy_frame k c1 (info_of b)) \<or> (\<forall>f. r \<noteq> Ok f)"
      using assms False dq got(1) ret(2)
      by (auto simp: capture_frame_copy_def check_c_def bind_c_def requeue_or_throw_guard Let_def)
    moreover have "snd (requeue_buffer k (unat (dq_index b)) c1) = sys (SysQbuf (cam_fd c) (unat (dq_index b))) c1"
      using requeue_call [OF got(4,2)] .
    ultimately show thesis using ret(1) got False frame other by (metis linorder_not_less)
  next
    case (error kind n m)
    with assms False dq other show thesis by (auto simp: capture_frame_copy_def check_c_def bind_c_def)
  next
    case waiting
    with assms False dq other show thesis by (auto simp: capture_frame_copy_def check_c_def bind_c_def)
  qed
qed

lemma capture_to_files_gives_back: "gives_back c t (snd (snd (capture_one_frame_to_files k t dir c)))"
proof (cases "cam_fd c < 0 \<or> \<not> streaming c")
  case True
  with gives_back_refl show ?thesis by (auto simp: capture_one_frame_to_files_def)
next
  case False
  obtain r1 c1 where dq: "dequeue_frame k t c = (r1, c1)" by fastforce
  from dq show ?thesis
  proof (cases rule: dequeue_frame_cases)
    case (got b)
    with requeue_calls(1) [OF got(4,2), of k] False dq show ?thesis
      by (simp add: capture_one_frame_to_files_def Let_def requeue_or_throw_guard split: prod.split option.split)
  qed (use False dq in \<open>simp_all add: capture_one_frame_to_files_def\<close>)
qed

text \<open>The two loops that do not use \<open>dequeue_frame\<close>.\<close>

lemma after_dq_gives_back:
  assumes "capture_calls c t [] c1"
    and "\<And>err c2. capture_calls c t [SysDqbuf (cam_fd c) None] c2 \<Longrightarrow> snd (f (Inl err) c2) = c2"
    and "\<And>b c2. capture_calls c t [SysDqbuf (cam_fd c) (Some (dq_index b))] c2 \<Longrightarrow>
      (if unat (dq_index b) < length (buffers c) then snd (f (Inr b) c2) = snd (requeue_buffer k (unat (dq_index b)) c2)
       else snd (f (Inr b) c2) = c2)"
  shows "gives_back c t (snd (bind_c (dq_call k) f c1))"
proof -
  obtain r c2 where dq: "dq_call k c1 = (r, c2)" by fastforce
  from assms(1) dq show ?thesis
  proof (cases rule: dq_call_calls)
    case (failed err)
    with dq assms(2) [OF failed(2), of err] gives_backI(2) show ?thesis by (simp add: bind_c_def)
  next
    case (got b)
    with dq assms(3) [OF got(2)] requeue_calls(1) [OF got(2), of k] gives_backI(3) [OF _ got(2)]
    show ?thesis by (cases "unat (dq_index b) < length (buffers c)") (simp_all add: bind_c_def)
  qed
qed

lemma requeue_snd_bind:
  "(\<And>x c1. snd (f x c1) = c1) \<Longrightarrow> snd (bind_c (requeue_buffer k i) f c) = snd (requeue_buffer k i c)"
  by (cases "requeue_buffer k i c") (auto simp: bind_c_def split: outcome.split)

lemma snd_basic [simp]: "snd (throw_c e c) = c" "snd (return_c x c) = c"
  by (simp_all add: throw_c_def return_c_def)

lemma capture_one_frame_gives_back: "gives_back c t (snd (capture_one_frame k t c))"
proof (cases "cam_fd c < 0 \<or> \<not> streaming c")
  case True
  with gives_back_refl show ?thesis by (auto simp: capture_one_frame_def check_c_def)
next
  case False
  obtain r c1 where p: "poll_camera k t c = (r, c1)" by fastforce
  note polled = poll_camera_calls [OF p]
  show ?thesis
  proof (cases r)
    case (Ok a)
    have "gives_back c t (snd (bind_c (dq_call k) (finish_one_frame k) c1))"
      using polled
      by (rule after_dq_gives_back) (auto simp: finish_one_frame_def check_c_def dest: capture_calls_fields(2))
    with False p Ok gives_backI(1) [OF polled] show ?thesis
      by (simp add: capture_one_frame_def check_c_def bind_c_def [of "poll_camera k t"])
  qed (use False p gives_backI(1) [OF polled] in \<open>simp_all add: capture_one_frame_def check_c_def bind_c_def\<close>)
qed

lemma capture_turn_gives_back: "gives_back c t (snd (capture_turn k t st c))"
proof -
  obtain r c1 where p: "poll_camera k t c = (r, c1)" by fastforce
  note polled = poll_camera_calls [OF p]
  show ?thesis
  proof (cases r)
    case (Ok a)
    have "gives_back c t (snd (bind_c (dq_call k) (finish_turn k st) c1))"
      using polled
      by (rule after_dq_gives_back) (auto simp: finish_turn_def Let_def requeue_snd_bind dest: capture_calls_fields(2))
    with p Ok gives_backI(1) [OF polled] show ?thesis
      by (simp add: capture_turn_def bind_c_def [of "poll_camera k t"])
  qed (use p gives_backI(1) [OF polled] in \<open>simp_all add: capture_turn_def bind_c_def\<close>)
qed

lemma owns_capture_loop: "owns_exactly c \<Longrightarrow> owns_exactly (snd (capture_loop k fuel n t st c))"
proof (induction fuel arbitrary: st c)
  case (Suc fuel)
  have turn: "owns_exactly (snd (capture_turn k t st c))" using owns_gives_back [OF Suc.prems capture_turn_gives_back] .
  obtain r c1 where "capture_turn k t st c = (r, c1)" by fastforce
  with turn Suc.IH [of c1] Suc.prems show ?case
    by (subst capture_loop.simps) (cases r; simp add: bind_c_def)
qed (simp add: capture_loop.simps)

section \<open>Mapping and releasing\<close>

text \<open>\<open>mmap\<close> returns a non-null address, and only for a non-empty length.\<close>

definition mmap_contract :: "kernel \<Rightarrow> bool" where
  "mmap_contract k \<longleftrightarrow> (\<forall>tr len a e. k_mmap k tr len = (Some a, e) \<longrightarrow> a \<noteq> 0 \<and> 0 < len)"

lemma mappings_simps [simp]:
  "mappings [] = {#}" "mappings (b # bs) = (if is_mapped b then add_mset (mb_start b, mb_length b) (mappings bs) else mappings bs)"
  "mappings (replicate n \<lparr>mb_start = 0, mb_length = m\<rparr>) = {#}"
  by (simp_all add: mappings_def) (induction n; simp add: is_mapped_def)

lemma mappings_update:
  "i < length bs \<Longrightarrow> \<not> is_mapped (bs ! i) \<Longrightarrow> is_mapped b \<Longrightarrow>
   mappings (bs[i := b]) = add_mset (mb_start b, mb_length b) (mappings bs)"
proof (induction bs arbitrary: i)
  case (Cons x bs)
  then show ?case by (cases i) simp_all
qed simp

lemma owns_map_buffers:
  assumes "mmap_contract k" and "owns_exactly c" and "i + n \<le> length (buffers c)"
    and "\<forall>j. i \<le> j \<and> j < length (buffers c) \<longrightarrow> \<not> is_mapped (buffers c ! j)"
  shows "owns_exactly (snd (map_buffers k n i c)) \<and> length (buffers (snd (map_buffers k n i c))) = length (buffers c)"
  using assms(2-)
proof (induction n arbitrary: i c)
  case (Suc n)
  let ?c1 = "sys (SysQuerybuf (cam_fd c) i) c"
  have o1: "owns_exactly ?c1" using Suc.prems(1) by (simp add: owns_sys)
  show ?case
  proof (cases "k_querybuf k (calls c)")
    case (Inl err)
    with o1 show ?thesis by simp
  next
    case (Inr p)
    obtain len offset where p: "p = (len, offset)" by fastforce
    obtain addr err where m: "k_mmap k (calls ?c1) len = (addr, err)" by fastforce
    let ?c2 = "sys (SysMmap (cam_fd c) len offset addr) ?c1"
    show ?thesis
    proof (cases addr)
      case None
      with Inr p m o1 show ?thesis by (simp add: owns_exactly_def map_event_def)
    next
      case (Some a)
      let ?b = "\<lparr>mb_start = a, mb_length = len\<rparr>"
      let ?c3 = "?c2\<lparr>buffers := (buffers ?c2)[i := ?b]\<rparr>"
      have mapped: "is_mapped ?b" using assms(1) m Some by (auto simp: mmap_contract_def is_mapped_def)
      have i: "i < length (buffers c)" "\<not> is_mapped (buffers c ! i)" using Suc.prems(2,3) by auto
      have "owns_exactly ?c3"
        using o1 Some mapped mappings_update [OF i mapped] by (simp add: owns_exactly_def map_event_def)
      then have "owns_exactly (snd (map_buffers k n (i + 1) ?c3)) \<and> length (buffers (snd (map_buffers k n (i + 1) ?c3))) = length (buffers ?c3)"
        using Suc.prems(2,3) by (intro Suc.IH) auto
      moreover have "snd (map_buffers k (Suc n) i c) = snd (map_buffers k n (i + 1) ?c3)" using Inr p m Some by (simp add: Let_def)
      ultimately show ?thesis by simp
    qed
  qed
qed simp

lemma owns_queue_buffers: "owns_exactly c \<Longrightarrow> owns_exactly (snd (queue_buffers k n i c))"
proof (induction n arbitrary: i c)
  case (Suc n)
  obtain r c1 where q: "requeue_buffer k i c = (r, c1)" by fastforce
  with owns_requeue [OF Suc.prems, of k i] have "owns_exactly c1" by simp
  with Suc.IH q show ?case by (cases r) (simp_all add: bind_c_def)
qed simp

lemma unmap_fields [simp]:
  "cam_fd (foldl unmap_buffer c bs) = cam_fd c" "buffers (foldl unmap_buffer c bs) = buffers c"
  "streaming (foldl unmap_buffer c bs) = streaming c"
  "live_fds (calls (foldl unmap_buffer c bs)) = live_fds (calls c)"
  "live_maps (calls (foldl unmap_buffer c bs)) = live_maps (calls c) - mappings bs"
  by (induction bs arbitrary: c) (auto simp: unmap_buffer_def is_mapped_def map_event_def)

lemma owns_release: "owns_exactly c \<Longrightarrow> owns_exactly (release_mmap_buffers c) \<and> buffers (release_mmap_buffers c) = []"
  by (simp add: owns_exactly_def release_mmap_buffers_def)

lemma owns_stop: "owns_exactly c \<Longrightarrow> owns_exactly (stop_streaming c)"
  by (simp add: stop_streaming_def owns_sys)

lemma owns_close: "owns_exactly c \<Longrightarrow> owns_exactly (close_device c) \<and> cam_fd (close_device c) < 0 \<and> buffers (close_device c) = buffers c"
  by (auto simp: owns_exactly_def close_device_def fd_event_def)

lemma destroy_releases:
  assumes "owns_exactly c"
  shows "live_fds (calls (destroy_camera c)) = {#}" "live_maps (calls (destroy_camera c)) = {#}"
proof -
  have "owns_exactly (destroy_camera c) \<and> cam_fd (destroy_camera c) < 0 \<and> buffers (destroy_camera c) = []"
    using owns_close [of "release_mmap_buffers (stop_streaming c)"] owns_release owns_stop [OF assms] by (simp add: destroy_camera_def)
  then show "live_fds (calls (destroy_camera c)) = {#}" "live_maps (calls (destroy_camera c)) = {#}"
    by (auto simp: owns_exactly_def)
qed

lemma owns_init:
  assumes "mmap_contract k" and "owns_exactly c"
  shows "owns_exactly (snd (init_mmap_buffers k n c))"
proof -
  let ?c = "release_mmap_buffers c"
  have o: "owns_exactly (sys (SysReqbufs (cam_fd ?c) n) ?c)" "buffers ?c = []" using owns_release [OF assms(2)] by (simp_all add: owns_sys)
  have "owns_exactly (snd (bind_c (map_buffers k m 0) (\<lambda>_. queue_buffers k m 0)
      ((sys (SysReqbufs (cam_fd ?c) n) ?c)\<lparr>buffers := replicate m \<lparr>mb_start = 0, mb_length = 0\<rparr>\<rparr>)))" (is "owns_exactly (snd (bind_c _ _ ?c1))") for m
  proof -
    have "owns_exactly ?c1" using o by (simp add: owns_exactly_def)
    then have "owns_exactly (snd (map_buffers k m 0 ?c1))" using owns_map_buffers [OF assms(1), of ?c1 0 m] by (simp add: is_mapped_def)
    then show ?thesis using owns_queue_buffers by (cases "map_buffers k m 0 ?c1") (auto simp: bind_c_def split: outcome.split)
  qed
  then show ?thesis using o assms(2)
    by (simp add: init_mmap_buffers_def check_c_def Let_def split: sum.split)
qed

lemma owns_open: "owns_exactly c \<Longrightarrow> cam_fd c < 0 \<Longrightarrow> owns_exactly (snd (open_device k c))"
  by (auto simp: owns_exactly_def open_device_def Let_def fd_event_def split: prod.split)

lemma owns_move_assign:
  assumes "owns_exactly c" and "owns_exactly other" and "calls other = []"
  shows "owns_exactly (fst (move_assign c other))"
  using assms destroy_releases [OF assms(1)] by (auto simp: move_assign_def owns_exactly_def Let_def split: if_splits)

lemma owns_new: "owns_exactly (CameraDevice path)"
  by (simp add: owns_exactly_def CameraDevice_def)

section \<open>Any use of the device\<close>

datatype camera_action =
    Open
  | Query
  | SetFormatTo u32 u32 string
  | InitBuffers u32
  | Start
  | Stop
  | CaptureCopy int
  | CaptureOne int
  | CaptureToFiles int string
  | Measure nat int int
  | Rebuild string

fun camera_act :: "kernel \<Rightarrow> camera_action \<Rightarrow> camera \<Rightarrow> camera" where
  "camera_act k Open c = snd (open_device k c)"
| "camera_act k Query c = snd (query_capability k c)"
| "camera_act k (SetFormatTo w h fmt) c = snd (set_format k w h fmt c)"
| "camera_act k (InitBuffers n) c = snd (init_mmap_buffers k n c)"
| "camera_act k Start c = snd (start_streaming k c)"
| "camera_act k Stop c = stop_streaming c"
| "camera_act k (CaptureCopy t) c = snd (capture_frame_copy k t c)"
| "camera_act k (CaptureOne t) c = snd (capture_one_frame k t c)"
| "camera_act k (CaptureToFiles t dir) c = snd (snd (capture_one_frame_to_files k t dir c))"
| "camera_act k (Measure fuel n t) c = snd (camera_capture_frames k fuel n t c)"
| "camera_act k (Rebuild path) c = fst (move_assign c (CameraDevice path))"

text \<open>\<open>open_device\<close> is only called on a device that is not open, as everywhere in the program.\<close>

fun run_actions :: "kernel \<Rightarrow> camera_action list \<Rightarrow> camera \<Rightarrow> camera option" where
  "run_actions k [] c = Some c"
| "run_actions k (a # as) c = (if a = Open \<and> cam_fd c \<ge> 0 then None else run_actions k as (camera_act k a c))"

lemma owns_act:
  assumes "mmap_contract k" and "owns_exactly c" and "a = Open \<longrightarrow> cam_fd c < 0"
  shows "owns_exactly (camera_act k a c)"
proof (cases a)
  case (CaptureCopy t)
  obtain r c' where e: "capture_frame_copy k t c = (r, c')" by fastforce
  then have "gives_back c t c'" by (cases rule: capture_frame_copy_cases)
  with CaptureCopy e owns_gives_back [OF assms(2)] show ?thesis by simp
next
  case (Measure fuel n t)
  with assms(2) owns_capture_loop [of c k fuel n t] show ?thesis by (simp add: camera_capture_frames_def check_c_def)
next
  case (Rebuild path)
  with owns_move_assign [OF assms(2) owns_new [of path]] show ?thesis by (simp add: CameraDevice_def)
qed (use assms owns_open owns_query owns_set_format owns_init owns_start owns_stop
    owns_gives_back [OF _ capture_one_frame_gives_back] owns_gives_back [OF _ capture_to_files_gives_back] in auto)

lemma owns_run: "mmap_contract k \<Longrightarrow> owns_exactly c \<Longrightarrow> run_actions k as c = Some c' \<Longrightarrow> owns_exactly c'"
proof (induction as arbitrary: c)
  case (Cons a as)
  then have "owns_exactly (camera_act k a c)" by (intro owns_act) (auto split: if_splits)
  with Cons show ?case by (auto split: if_splits)
qed simp

section \<open>Properties\<close>


text \<open>A device that grants three buffers and delivers one frame after another.\<close>

definition demo_kernel :: kernel where
  "demo_kernel = \<lparr>k_strerror = (\<lambda>e. ''error''), k_open = (\<lambda>tr. (5, EINVAL)), k_querycap = (\<lambda>tr. None),
     k_s_fmt = (\<lambda>tr. None),
     k_g_fmt = (\<lambda>tr. Inr \<lparr>pix_width = 2, pix_height = 1, pix_pixelformat = V4L2_PIX_FMT_YUYV, pix_sizeimage = 4\<rparr>),
     k_reqbufs = (\<lambda>tr. Inr 3), k_querybuf = (\<lambda>tr. Inr (4096, 0)),
     k_mmap = (\<lambda>tr len. (if 0 < len then Some 65536 else None, EINVAL)), k_qbuf = (\<lambda>tr. None),
     k_streamon = (\<lambda>tr. None), k_poll = (\<lambda>tr. [\<lparr>pa_ret = -1, pa_errno = EINTR, pa_revents = 0\<rparr>,
       \<lparr>pa_ret = 1, pa_errno = EINTR, pa_revents = POLLIN\<rparr>]),
     k_dqbuf = (\<lambda>tr. Inr \<lparr>dq_index = 1, dq_bytesused = 4, dq_sequence = 9, dq_flags = 0, dq_timestamp = (0, 0)\<rparr>),
     k_memory = (\<lambda>tr a. of_nat a), k_steady_now = (\<lambda>tr. int (length tr)), k_system_now = (\<lambda>tr. 1000),
     k_create_directories = (\<lambda>path. None), k_files = (\<lambda>path. FileOk)\<rparr>"

lemma demo_mmap_contract: "mmap_contract demo_kernel"
  by (simp add: mmap_contract_def demo_kernel_def)


text \<open>
  C21: every dequeued buffer goes back to the driver exactly once, whichever way the capture operation ends.
  The system calls of a capture are polls, followed by nothing, by a failed \<open>VIDIOC_DQBUF\<close>, by one that
  returned an index outside the buffers (there is nothing to give back), or by a \<open>VIDIOC_DQBUF\<close> of a valid
  index and the \<open>VIDIOC_QBUF\<close> of the same index; the state of the device is otherwise unchanged.
\<close>

theorem capture_returns_buffer:
  "gives_back c t (snd (capture_frame_copy k t c)) \<and> gives_back c t (snd (capture_one_frame k t c)) \<and>
   gives_back c t (snd (snd (capture_one_frame_to_files k t dir c))) \<and> gives_back c t (snd (capture_turn k t st c))"
proof -
  obtain r c' where e: "capture_frame_copy k t c = (r, c')" by fastforce
  then have "gives_back c t c'" by (cases rule: capture_frame_copy_cases)
  with e show ?thesis by (simp add: capture_one_frame_gives_back capture_to_files_gives_back capture_turn_gives_back)
qed

end
