(* ===== verification/Camera_Results.thy ===== *)
theory Camera_Results
  imports Camera_Safety
begin

unbundle bit_operations_syntax

text \<open>
  The results of the camera operations: pixel format codes, the colour conversion of saved frames, the
  contents of a captured frame and the counters of a measurement.
\<close>

section \<open>Pixel format codes\<close>

lemma mask_8: "(0xFF :: u32) = mask 8"
  by (simp add: mask_eq_decr_exp)

lemma packed_bytes:
  fixes a b c d :: u8
  defines "w \<equiv> ucast a OR push_bit 8 (ucast b) OR push_bit 16 (ucast c) OR push_bit 24 (ucast d) :: u32"
  shows "w AND 0xFF = ucast a" "drop_bit 8 w AND 0xFF = ucast b" "drop_bit 16 w AND 0xFF = ucast c"
    "drop_bit 24 w AND 0xFF = ucast d"
proof -
  have a: "w AND mask 8 = ucast a" unfolding w_def
    by (rule bit_word_eqI) (auto simp: bit_simps dest: bit_imp_le_length)
  have b: "drop_bit 8 w AND mask 8 = ucast b" unfolding w_def
    by (rule bit_word_eqI) (auto simp: bit_simps dest: bit_imp_le_length)
  have c: "drop_bit 16 w AND mask 8 = ucast c" unfolding w_def
    by (rule bit_word_eqI) (auto simp: bit_simps dest: bit_imp_le_length)
  have d: "drop_bit 24 w AND mask 8 = ucast d" unfolding w_def
    by (rule bit_word_eqI) (auto simp: bit_simps dest: bit_imp_le_length)
  show "w AND 0xFF = ucast a" "drop_bit 8 w AND 0xFF = ucast b" "drop_bit 16 w AND 0xFF = ucast c"
    "drop_bit 24 w AND 0xFF = ucast d"
    using a b c d unfolding mask_8 by auto
qed

lemma unat_of_char: "unat (of_char ch :: u8) = of_char ch"
proof -
  have "unat (of_nat (of_char ch) :: u8) = of_char ch" by (simp add: unat_of_nat take_bit_eq_mod del: of_nat_of_char)
  then show ?thesis by (simp add: of_nat_of_char)
qed

lemma char_to_u32_ascii:
  assumes "(of_char ch :: nat) < 128"
  shows "char_to_u32 ch = ucast (of_char ch :: u8)"
proof -
  let ?b = "of_char ch :: u8"
  have "bit ?b 7 \<longleftrightarrow> bit (unat ?b) 7" by (simp add: bit_unsigned_iff)
  also have "\<dots> \<longleftrightarrow> odd ((of_char ch :: nat) div 128)" by (simp add: unat_of_char bit_iff_odd)
  finally have hi: "\<not> bit ?b 7" using assms by simp
  have "bit ?b n \<Longrightarrow> n \<noteq> 7 \<and> n < 8" for n using hi bit_imp_le_length [of ?b n] by auto
  then have lt: "bit ?b n \<Longrightarrow> n < 7" for n by fastforce
  show ?thesis unfolding char_to_u32_def
    by (intro bit_word_eqI) (use hi in \<open>auto simp: bit_simps min_def dest: lt\<close>)
qed

lemma unat_ucast_u8: "unat (ucast (b :: u8) :: u32) = unat b"
proof -
  have "unat b < 2 ^ LENGTH(8)" by (rule unsigned_less)
  then show ?thesis by (simp add: unsigned_ucast_eq take_bit_nat_eq_self)
qed

lemma toupper_ascii: "(of_char ch :: nat) < 128 \<Longrightarrow> (of_char (toupper ch) :: nat) < 128"
  by (auto simp: toupper_def Let_def)

lemma fourcc_ascii:
  assumes "string_to_fourcc s = Inr w" and "\<forall>ch \<in> set s. (of_char ch :: nat) < 128"
  shows "camera_fourcc_to_string w = map toupper s"
proof -
  from assms(1) have "length s = 4" by (auto simp: string_to_fourcc_def split: if_splits)
  then obtain a b c d where s: "s = [a, b, c, d]" by (auto simp: length_Suc_conv numeral_eq_Suc)
  have "w = ucast (of_char (toupper a) :: u8) OR push_bit 8 (ucast (of_char (toupper b) :: u8)) OR
      push_bit 16 (ucast (of_char (toupper c) :: u8)) OR push_bit 24 (ucast (of_char (toupper d) :: u8))"
    using assms s by (auto simp: string_to_fourcc_def Let_def char_to_u32_ascii toupper_ascii)
  then show ?thesis
    by (simp only: s camera_fourcc_to_string_def packed_bytes unat_ucast_u8 unat_of_char char_of_char list.map)
qed

section \<open>The colour conversion of the device\<close>

lemma camera_yuyv_loop_eq: "camera_yuyv_loop ys n i inp out rgb = frame_yuyv_loop ys n i inp out rgb"
proof (induction ys n i inp out rgb rule: camera_yuyv_loop.induct)
  case (1 ys n i inp out rgb)
  have c: "camera_convert = frame_convert"
    by (simp add: fun_eq_iff camera_convert_def frame_convert_def clamp_to_u8_def frame_clamp_to_u8_def)
  from 1 show ?case by (simp add: camera_yuyv_loop.simps [of ys n] frame_yuyv_loop.simps [of ys n] c Let_def)
qed

lemma yuyv_to_rgb_eq: "yuyv_to_rgb ys w h = frame_yuyv_to_rgb ys w h"
  by (simp add: yuyv_to_rgb_def frame_yuyv_to_rgb_def camera_yuyv_loop_eq)

section \<open>Counters of a measurement\<close>

definition counters_ok :: "capture_counters \<Rightarrow> bool" where
  "counters_ok st \<longleftrightarrow>
     (if cap_captured st = 0 then cap_intervals st = [] \<and> cap_previous_time st = None \<and> cap_total_bytes st = 0
      else cap_previous_time st \<noteq> None \<and> length (cap_intervals st) + 1 = cap_captured st \<and>
        cap_captured st * unat (cap_min_bytes st) \<le> cap_total_bytes st \<and>
        cap_total_bytes st \<le> cap_captured st * unat (cap_max_bytes st))"

lemma unat_min_max: "unat (min a b) = min (unat a) (unat (b :: u32))" "unat (max a b) = max (unat a) (unat b)"
  by (auto simp: min_def max_def word_le_nat_alt)

lemma counters_count: "counters_ok st \<Longrightarrow> counters_ok (count_captured now b st)"
proof -
  assume ok: "counters_ok st"
  show ?thesis
  proof (cases "cap_captured st = 0")
    case True
    with ok show ?thesis by (simp add: counters_ok_def count_captured_def)
  next
    case False
    let ?n = "cap_captured st" and ?m = "unat (cap_min_bytes st)" and ?x = "unat (cap_max_bytes st)"
    have "?n * min ?m (unat b) \<le> ?n * ?m" "?n * ?x \<le> ?n * max ?x (unat b)" by simp_all
    moreover have "?n * ?m \<le> cap_total_bytes st" "cap_total_bytes st \<le> ?n * ?x" using ok False by (simp_all add: counters_ok_def)
    ultimately have "?n * min ?m (unat b) \<le> cap_total_bytes st" "cap_total_bytes st \<le> ?n * max ?x (unat b)" by linarith+
    then have "min ?m (unat b) + ?n * min ?m (unat b) \<le> cap_total_bytes st + unat b"
      "cap_total_bytes st + unat b \<le> max ?x (unat b) + ?n * max ?x (unat b)" by linarith+
    with ok False show ?thesis by (auto simp: counters_ok_def count_captured_def unat_min_max)
  qed
qed

lemma capture_turn_result:
  assumes "capture_turn k t st c = (Ok st', c')"
  obtains (frame) now b where "st' = count_captured now b st" | (timeout) n where "st' = st\<lparr>cap_poll_timeouts := n\<rparr>"
    | (nothing) n where "st' = st\<lparr>cap_dqbuf_errors := n\<rparr>"
  using assms
  by (auto simp: capture_turn_def finish_turn_def throw_c_def return_c_def Let_def bind_c_def dq_call_def
      split: if_splits sum.splits prod.splits outcome.splits)

lemma capture_turn_ok:
  assumes "capture_turn k t st c = (Ok st', c')" and "counters_ok st"
  shows "counters_ok st' \<and> cap_captured st' \<le> cap_captured st + 1"
  using assms(1)
proof (cases rule: capture_turn_result)
  case (frame now b)
  with counters_count [OF assms(2)] show ?thesis by (simp add: count_captured_def)
qed (use assms(2) in \<open>auto simp: counters_ok_def split: if_splits\<close>)

lemma capture_loop_ok:
  assumes "capture_loop k fuel n t st c = (Ok st', c')" and "counters_ok st" and "int (cap_captured st) \<le> n"
  shows "counters_ok st' \<and> int (cap_captured st') = n"
  using assms
proof (induction fuel arbitrary: st c)
  case 0
  then show ?case by (subst (asm) capture_loop.simps) (auto split: if_splits)
next
  case (Suc fuel)
  show ?case
  proof (cases "int (cap_captured st) < n")
    case True
    with Suc.prems(1) have "bind_c (capture_turn k t st) (capture_loop k fuel n t) c = (Ok st', c')"
      by (subst (asm) capture_loop.simps) simp
    then obtain st1 c1 where turn: "capture_turn k t st c = (Ok st1, c1)" "capture_loop k fuel n t st1 c1 = (Ok st', c')"
      by (cases rule: bind_c_cases) auto
    from capture_turn_ok [OF turn(1) Suc.prems(2)] True Suc.IH [OF turn(2)] show ?thesis by auto
  next
    case False
    with Suc.prems show ?thesis by (subst (asm) capture_loop.simps) auto
  qed
qed


text \<open>A device that delivers a frame of at most \<open>m\<close> bytes in one of \<open>n\<close> buffers whenever it is asked.\<close>

definition delivers :: "kernel \<Rightarrow> nat \<Rightarrow> nat \<Rightarrow> bool" where
  "delivers k n m \<longleftrightarrow> (\<forall>tr. k_qbuf k tr = None) \<and>
     (\<forall>tr. \<exists>a as. k_poll k tr = a # as \<and> pa_ret a > 0 \<and> pa_revents a = POLLIN) \<and>
     (\<forall>tr. \<exists>b. k_dqbuf k tr = Inr b \<and> unat (dq_index b) < n \<and> unat (dq_bytesused b) \<le> m)"

lemma delivers_turn:
  assumes "delivers k (length (buffers c)) m" and "\<forall>b \<in> set (buffers c). m \<le> mb_length b"
  shows "\<exists>now b c'. capture_turn k t st c = (Ok (count_captured now b st), c') \<and> buffers c' = buffers c"
proof -
  obtain a as where a: "k_poll k (calls c) = a # as" "pa_ret a > 0" "pa_revents a = POLLIN"
    using assms(1) unfolding delivers_def by blast
  let ?c = "sys (SysPoll (cam_fd c) t) c"
  obtain b where b: "k_dqbuf k (calls ?c) = Inr b" "unat (dq_index b) < length (buffers c)" "unat (dq_bytesused b) \<le> m"
    using assms(1) unfolding delivers_def by blast
  have "m \<le> mb_length (buffers c ! unat (dq_index b))" using assms(2) b(2) by simp
  with a b assms(1) show ?thesis
    by (auto simp: capture_turn_def poll_camera_def bind_c_def dq_call_def finish_turn_def Let_def POLLIN_def POLLNVAL_def
        requeue_buffer_def check_c_def return_c_def delivers_def)
qed

lemma delivers_loop:
  assumes "delivers k (length (buffers c)) m" and "\<forall>b \<in> set (buffers c). m \<le> mb_length b"
    and "n \<le> int (cap_captured st + fuel)"
  shows "\<exists>st' c'. capture_loop k fuel n t st c = (Ok st', c')"
  using assms
proof (induction fuel arbitrary: st c)
  case 0
  then show ?case by (simp add: capture_loop.simps)
next
  case (Suc fuel)
  obtain now b c1 where turn: "capture_turn k t st c = (Ok (count_captured now b st), c1)" "buffers c1 = buffers c"
    using delivers_turn [OF Suc.prems(1,2)] by blast
  have "n \<le> int (cap_captured (count_captured now b st) + fuel)" using Suc.prems(3) by (simp add: count_captured_def)
  with Suc.IH [of c1 "count_captured now b st"] Suc.prems(1,2) turn(2)
  have "\<exists>st' c'. capture_loop k fuel n t (count_captured now b st) c1 = (Ok st', c')" by simp
  with turn(1) show ?case by (subst capture_loop.simps) (simp add: bind_c_def)
qed

section \<open>Initialisation\<close>

text \<open>
  The device calls of \<open>initialize_pipeline_camera\<close> in \<open>src/main.cpp\<close>, made on a device. The step functions of
  the pipeline only see the exception it throws, if any.
\<close>

fun camera_do :: "kernel \<Rightarrow> camera_call \<Rightarrow> unit camera_op" where
  "camera_do k OpenDevice = open_device k"
| "camera_do k QueryCapability = query_capability k"
| "camera_do k (SetFormat w h p) = set_format k w h p"
| "camera_do k (InitMmapBuffers n) = init_mmap_buffers k n"
| "camera_do k StartStreaming = start_streaming k"

fun camera_do_all :: "kernel \<Rightarrow> camera_call list \<Rightarrow> unit camera_op" where
  "camera_do_all k [] = return_c ()"
| "camera_do_all k (call # rest) = bind_c (camera_do k call) (\<lambda>_. camera_do_all k rest)"

definition initialize_camera :: "kernel \<Rightarrow> app_config \<Rightarrow> unit camera_op" where
  "initialize_camera k cfg =
     (case (width cfg, height cfg, pixel_format cfg, mmap_buffers cfg) of
        (Some w, Some h, Some p, Some n) \<Rightarrow>
          camera_do_all k [OpenDevice, QueryCapability, SetFormat w h p, InitMmapBuffers n, StartStreaming]
      | _ \<Rightarrow> throw_c (RuntimeError
          ''Pipeline camera initialization requires width, height, format and mmap_buffers''))"

lemma requeue_no_wait: "fst (requeue_buffer k i c) \<noteq> Waiting"
  by (simp add: requeue_buffer_def check_c_def throw_c_def return_c_def split: option.split)

lemma queue_no_wait: "fst (queue_buffers k n i c) \<noteq> Waiting"
proof (induction n arbitrary: i c)
  case (Suc n)
  then show ?case using requeue_no_wait [of k i c]
    by (cases "requeue_buffer k i c") (auto simp: bind_c_def split: outcome.split)
qed simp

lemma map_no_wait: "fst (map_buffers k n i c) \<noteq> Waiting"
  by (induction n arbitrary: i c) (simp_all add: Let_def split: sum.split prod.split option.split)

lemma init_no_wait: "fst (init_mmap_buffers k n c) \<noteq> Waiting"
proof -
  have "fst (bind_c (map_buffers k m 0) (\<lambda>_. queue_buffers k m 0) c) \<noteq> Waiting" for m c
    using map_no_wait [of k m 0 c] queue_no_wait [of k m 0]
    by (cases "map_buffers k m 0 c") (auto simp: bind_c_def split: outcome.split)
  then show ?thesis by (simp add: init_mmap_buffers_def check_c_def throw_c_def Let_def split: sum.split)
qed

lemma camera_do_no_wait: "fst (camera_do k call c) \<noteq> Waiting"
  using init_no_wait
  by (cases call) (simp_all add: open_device_def query_capability_def set_format_def start_streaming_def check_c_def
      throw_c_def return_c_def Let_def split: prod.split option.split sum.split)

lemma camera_do_all_refines:
  "distinct cs \<Longrightarrow> \<exists>outcome. (case fst (camera_do_all k cs c) of
     Ok u \<Rightarrow> snd (camera_calls outcome cs) = None
   | Throws e \<Rightarrow> snd (camera_calls outcome cs) = Some e
   | Waiting \<Rightarrow> False)"
proof (induction cs arbitrary: c)
  case Nil
  then show ?case by (simp add: return_c_def)
next
  case (Cons call rest)
  obtain r c1 where d: "camera_do k call c = (r, c1)" by fastforce
  show ?case
  proof (cases r)
    case (Ok u)
    from Cons.IH [of c1] Cons.prems obtain outcome where o: "case fst (camera_do_all k rest c1) of
         Ok u \<Rightarrow> snd (camera_calls outcome rest) = None
       | Throws e \<Rightarrow> snd (camera_calls outcome rest) = Some e | Waiting \<Rightarrow> False" by auto
    have same: "camera_calls (outcome(call := None)) rest = camera_calls outcome rest"
      using Cons.prems by (induction rest) (auto split: option.split)
    have "snd (camera_calls (outcome(call := None)) (call # rest)) = snd (camera_calls outcome rest)"
      by (simp add: same split: prod.split)
    moreover have "camera_do_all k (call # rest) c = camera_do_all k rest c1" using d Ok by (simp add: bind_c_def)
    ultimately show ?thesis using o by (intro exI [of _ "outcome(call := None)"]) (simp only:)
  next
    case (Throws e)
    with d show ?thesis by (intro exI [of _ "\<lambda>_. Some e"]) (simp add: bind_c_def)
  next
    case Waiting
    with d camera_do_no_wait [of k call c] show ?thesis by simp
  qed
qed

lemma map_buffers_ok:
  assumes "mmap_contract k" and "map_buffers k n i c = (Ok (), c')" and "i + n \<le> length (buffers c)"
  shows "length (buffers c') = length (buffers c) \<and> (\<forall>j. i \<le> j \<and> j < i + n \<longrightarrow> is_mapped (buffers c' ! j)) \<and>
    (\<forall>j < i. buffers c' ! j = buffers c ! j) \<and> cam_fd c' = cam_fd c \<and> streaming c' = streaming c \<and>
    format_unknown c' = format_unknown c"
  using assms(2,3)
proof (induction n arbitrary: i c)
  case (Suc n)
  from Suc.prems(1) obtain len offset a e where q: "k_querybuf k (calls c) = Inr (len, offset)"
    "k_mmap k (calls c @ [SysQuerybuf (cam_fd c) i]) len = (Some a, e)"
    and rest: "map_buffers k n (i + 1) ((sys (SysMmap (cam_fd c) len offset (Some a)) (sys (SysQuerybuf (cam_fd c) i) c))
       \<lparr>buffers := (buffers c)[i := \<lparr>mb_start = a, mb_length = len\<rparr>]\<rparr>) = (Ok (), c')"
    by (auto simp: Let_def split: sum.splits prod.splits option.splits)
  have m: "is_mapped \<lparr>mb_start = a, mb_length = len\<rparr>" using assms(1) q(2) by (auto simp: mmap_contract_def is_mapped_def)
  have "i + 1 + n \<le> length (buffers c)" using Suc.prems(2) by simp
  with Suc.IH [OF rest] have IH: "length (buffers c') = length (buffers c)"
    "\<And>j. i + 1 \<le> j \<Longrightarrow> j < i + 1 + n \<Longrightarrow> is_mapped (buffers c' ! j)"
    "\<And>j. j < i + 1 \<Longrightarrow> buffers c' ! j = (buffers c)[i := \<lparr>mb_start = a, mb_length = len\<rparr>] ! j"
    "cam_fd c' = cam_fd c" "streaming c' = streaming c" "format_unknown c' = format_unknown c"
    by (simp_all add: format_unknown_def)
  have "is_mapped (buffers c' ! j)" if "i \<le> j" "j < i + Suc n" for j
    using that m IH(2) [of j] IH(3) [of j] Suc.prems(2) by (cases "j = i") simp_all
  with IH show ?case by simp
qed auto

lemma queue_buffers_ok:
  "queue_buffers k n i c = (Ok (), c') \<Longrightarrow> c' = c\<lparr>calls := calls c @ map (SysQbuf (cam_fd c)) [i..<i + n]\<rparr>"
proof (induction n arbitrary: i c)
  case (Suc n)
  from Suc.prems obtain u c1 where r: "requeue_buffer k i c = (Ok u, c1)" "queue_buffers k n (i + 1) c1 = (Ok (), c')"
    by (auto elim!: bind_c_cases)
  from r(1) have "c1 = sys (SysQbuf (cam_fd c) i) c"
    by (auto simp: requeue_buffer_def check_c_def throw_c_def return_c_def split: if_splits option.splits)
  with Suc.IH [OF r(2)] show ?case by (simp add: sys_def upt_conv_Cons)
qed simp

lemma unmap_buffers_fields [simp]:
  "cam_fd (foldl unmap_buffer c bs) = cam_fd c" "streaming (foldl unmap_buffer c bs) = streaming c"
  by (induction bs arbitrary: c) (simp_all add: unmap_buffer_def)

text \<open>What a successful \<open>init_mmap_buffers\<close> leaves behind.\<close>

definition buffers_ready :: "camera \<Rightarrow> bool" where
  "buffers_ready c \<longleftrightarrow> 2 \<le> length (buffers c) \<and> (\<forall>b \<in> set (buffers c). is_mapped b) \<and>
     (\<exists>tr. calls c = tr @ map (SysQbuf (cam_fd c)) [0..<length (buffers c)])"

lemma init_mmap_buffers_ok:
  assumes "mmap_contract k" and "init_mmap_buffers k n c = (Ok (), c')"
  shows "0 \<le> cam_fd c' \<and> streaming c' = streaming c \<and> buffers_ready c'"
proof -
  define d where "d = sys (SysReqbufs (cam_fd (release_mmap_buffers c)) n) (release_mmap_buffers c)"
  have d: "cam_fd d = cam_fd c" "streaming d = streaming c" by (simp_all add: d_def release_mmap_buffers_def)
  from assms(2) have fd: "0 \<le> cam_fd c" by (simp add: init_mmap_buffers_def check_c_def split: if_splits)
  obtain m where m: "k_reqbufs k (calls (release_mmap_buffers c)) = Inr m" "2 \<le> m"
    using assms(2)
    by (cases "k_reqbufs k (calls (release_mmap_buffers c))")
       (auto simp: init_mmap_buffers_def check_c_def throw_c_def Let_def not_less split: if_splits)
  have run: "bind_c (map_buffers k (unat m) 0) (\<lambda>_. queue_buffers k (unat m) 0)
      (d\<lparr>buffers := replicate (unat m) \<lparr>mb_start = 0, mb_length = 0\<rparr>\<rparr>) = (Ok (), c')"
    using assms(2) m by (simp add: init_mmap_buffers_def check_c_def Let_def d_def not_less split: if_splits)
  from run obtain c1 where c1: "map_buffers k (unat m) 0 (d\<lparr>buffers := replicate (unat m) \<lparr>mb_start = 0, mb_length = 0\<rparr>\<rparr>) = (Ok (), c1)"
    "queue_buffers k (unat m) 0 c1 = (Ok (), c')"
    by (cases rule: bind_c_cases) auto
  have "2 \<le> unat m" using m(2) by (simp add: word_le_nat_alt)
  with map_buffers_ok [OF assms(1) c1(1)] queue_buffers_ok [OF c1(2)] d fd show ?thesis
    by (auto simp: buffers_ready_def in_set_conv_nth)
qed


lemma start_streaming_ok:
  "start_streaming k c = (Ok (), c') \<Longrightarrow> streaming c' \<and> buffers c' = buffers c \<and> cam_fd c' = cam_fd c \<and>
     (\<not> streaming c \<longrightarrow> calls c' = calls c @ [SysStreamon (cam_fd c)])"
  by (auto simp: start_streaming_def check_c_def throw_c_def return_c_def split: if_splits option.splits)

lemma open_query_format_ok:
  assumes "bind_c (open_device k) (\<lambda>_. bind_c (query_capability k) (\<lambda>_. set_format k w h p)) c = (Ok (), c')"
  shows "streaming c' = streaming c"
proof -
  from assms obtain c1 c2 where "open_device k c = (Ok (), c1)" "query_capability k c1 = (Ok (), c2)"
    "set_format k w h p c2 = (Ok (), c')"
    by (auto elim!: bind_c_cases)
  then have "streaming c1 = streaming c" "streaming c2 = streaming c1" "streaming c' = streaming c2"
    by (auto simp: open_device_def query_capability_def set_format_def check_c_def throw_c_def return_c_def Let_def
        split: prod.splits if_splits option.splits sum.splits)
  then show ?thesis by simp
qed

lemma initialize_camera_parts:
  assumes "initialize_camera k cfg c = (Ok (), c')"
  obtains w h p n c1 c2 where
    "bind_c (open_device k) (\<lambda>_. bind_c (query_capability k) (\<lambda>_. set_format k w h p)) c = (Ok (), c1)"
    "init_mmap_buffers k n c1 = (Ok (), c2)" "start_streaming k c2 = (Ok (), c')"
proof -
  from assms obtain w h p n where
    run: "camera_do_all k [OpenDevice, QueryCapability, SetFormat w h p, InitMmapBuffers n, StartStreaming] c = (Ok (), c')"
    by (auto simp: initialize_camera_def throw_c_def split: option.splits)
  have "bind_c (bind_c (open_device k) (\<lambda>_. bind_c (query_capability k) (\<lambda>_. set_format k w h p)))
      (\<lambda>_. bind_c (init_mmap_buffers k n) (\<lambda>_. start_streaming k)) c = (Ok (), c')"
    using run by (auto simp: bind_c_def return_c_def split: prod.splits outcome.splits)
  then obtain c1 where c1: "bind_c (open_device k) (\<lambda>_. bind_c (query_capability k) (\<lambda>_. set_format k w h p)) c = (Ok (), c1)"
    "bind_c (init_mmap_buffers k n) (\<lambda>_. start_streaming k) c1 = (Ok (), c')"
    by (cases rule: bind_c_cases) auto
  from c1(2) obtain c2 where "init_mmap_buffers k n c1 = (Ok (), c2)" "start_streaming k c2 = (Ok (), c')"
    by (cases rule: bind_c_cases) auto
  with c1(1) show ?thesis by (rule that)
qed

lemma option_quad_cases:
  obtains (all) w h p n where "q = (Some w, Some h, Some p, Some n)"
  | (missing) "case q of (Some w, Some h, Some p, Some n) \<Rightarrow> False | _ \<Rightarrow> True"
proof (cases q)
  case (fields a b c d)
  then show ?thesis using all missing by (cases a; cases b; cases c; cases d) simp_all
qed

definition demo_init_cfg :: app_config where
  "demo_init_cfg = AppConfig\<lparr>width := Some 2, height := Some 1, pixel_format := Some ''YUYV'', mmap_buffers := Some 4\<rparr>"

lemma demo_init_ok: "fst (initialize_camera demo_kernel demo_init_cfg (CameraDevice ''/dev/video0'')) = Ok ()"
proof -
  have three: "map_buffers k 3 = map_buffers k (Suc (Suc (Suc 0)))" "queue_buffers k 3 = queue_buffers k (Suc (Suc (Suc 0)))" for k
    by (simp_all add: numeral_3_eq_3)
  show ?thesis
  by (simp add: initialize_camera_def demo_init_cfg_def demo_kernel_def CameraDevice_def bind_c_def open_device_def
      query_capability_def set_format_def check_c_def return_c_def string_to_fourcc_def init_mmap_buffers_def
      release_mmap_buffers_def start_streaming_def requeue_buffer_def Let_def three)
qed

section \<open>The two ways to save a frame\<close>

lemma fourcc_YUYV_eq: "fourcc_YUYV = V4L2_PIX_FMT_YUYV"
  by code_simp

lemma write_file_ok: "write_file fs kind path content = Inr f \<Longrightarrow> snd f = content"
  by (auto simp: write_file_def split: file_result.splits)

section \<open>Properties\<close>

text \<open>
  C22: a captured frame is a faithful copy. When \<open>capture_frame_copy\<close> returns a frame, its data are exactly
  the \<open>bytesused\<close> bytes the driver announced, all of them inside the mapping of the dequeued buffer, read
  after the buffer was dequeued and before it was queued again; it carries the negotiated format, and the
  frame is usable for the pipeline exactly when the driver did not flag an error, it is not empty and,
  for YUYV, complete.
\<close>

theorem capture_frame_copy_spec:
  assumes "capture_frame_copy k t c = (Ok f, c')"
  shows "\<exists>i tr. unat i < length (buffers c) \<and> frm_buffer_index f = i \<and>
    calls c' = tr @ [SysQbuf (cam_fd c) (unat i)] \<and> last tr = SysDqbuf (cam_fd c) (Some i) \<and>
    length (frm_data f) = unat (frm_bytesused f) \<and> unat (frm_bytesused f) \<le> mb_length (buffers c ! unat i) \<and>
    (\<forall>j < length (frm_data f). frm_data f ! j = k_memory k tr (mb_start (buffers c ! unat i) + j)) \<and>
    frm_width f = current_width c \<and> frm_height f = current_height c \<and> frm_pixel_format f = current_pixelformat c \<and>
    (is_frame_usable f \<longleftrightarrow> \<not> has_v4l2_buffer_error f \<and> frm_data f \<noteq> [] \<and> \<not> is_incomplete_yuyv_frame f)"
  using assms
proof (cases rule: capture_frame_copy_cases)
  case (frame b c1)
  let ?i = "dq_index b"
  have f: "f = copy_frame k c1 (info_of b)" using frame(1) by simp
  note flds = capture_calls_fields [OF frame(7)]
  have "last (calls c1) = SysDqbuf (cam_fd c) (Some ?i)" using frame(7) by (auto simp: capture_calls_def)
  moreover have "calls c' = calls c1 @ [SysQbuf (cam_fd c) (unat ?i)]" using frame(8) by simp
  moreover have "frm_width f \<noteq> 0" "frm_height f \<noteq> 0" "frm_pixel_format f \<noteq> 0"
    using frame(4) flds by (simp_all add: f copy_frame_def format_unknown_def)
  then have "is_frame_usable f \<longleftrightarrow> \<not> has_v4l2_buffer_error f \<and> frm_data f \<noteq> [] \<and> \<not> is_incomplete_yuyv_frame f"
    by (simp add: is_frame_usable_def frame_unusable_reason_def)
  ultimately show ?thesis
    using frame(5,6) flds
    by (intro exI [of _ ?i] exI [of _ "calls c1"]) (simp add: f copy_frame_def read_mapped_def info_of_def)
next
  case other
  then show ?thesis using other(1) [of f] by simp
qed

definition demo_camera :: camera where
  "demo_camera = (CameraDevice ''/dev/video0'')\<lparr>cam_fd := 5, streaming := True, current_width := 2, current_height := 1,
     current_pixelformat := V4L2_PIX_FMT_YUYV,
     buffers := [\<lparr>mb_start = 65536, mb_length = 4096\<rparr>, \<lparr>mb_start = 73728, mb_length = 4096\<rparr>]\<rparr>"

theorem capture_frame_copy_spec_witness:
  "\<exists>f c'. capture_frame_copy demo_kernel 100 demo_camera = (Ok f, c') \<and> length (frm_data f) = 4 \<and>
     frm_pixel_format f = V4L2_PIX_FMT_YUYV"
proof -
  have fmt: "V4L2_PIX_FMT_YUYV \<noteq> 0" by (simp add: V4L2_PIX_FMT_YUYV_def)
  obtain f c' where e: "capture_frame_copy demo_kernel 100 demo_camera = (Ok f, c')" and l: "frm_bytesused f = 4"
    by (simp add: demo_camera_def demo_kernel_def CameraDevice_def capture_frame_copy_def check_c_def format_unknown_def fmt
        dequeue_frame_def poll_camera_def bind_c_def poll_verdict_def POLLIN_def POLLNVAL_def POLLHUP_def POLLERR_def
        dq_call_def accept_dequeued_def return_c_def requeue_or_throw_guard requeue_buffer_def copy_frame_def Let_def)
  from capture_frame_copy_spec [OF e] have "length (frm_data f) = unat (frm_bytesused f)"
    "frm_pixel_format f = current_pixelformat demo_camera" by auto
  with e l show ?thesis by (auto simp: demo_camera_def)
qed



text \<open>
  The four-character code is a round trip for ASCII names: every name of four ASCII characters has a
  code, and converting the code back gives the name in upper case. (Outside ASCII it is not, see
  \<open>fourcc_sign_extension\<close>: \<open>char\<close> is signed, so a character above 127 sets all higher bytes of the code.)
\<close>

theorem fourcc_round_trip:
  assumes "length s = 4" and "\<forall>ch \<in> set s. (of_char ch :: nat) < 128"
  shows "\<exists>w. string_to_fourcc s = Inr w \<and> camera_fourcc_to_string w = map toupper s"
proof -
  from assms(1) obtain w where "string_to_fourcc s = Inr w" by (simp add: string_to_fourcc_def Let_def)
  with fourcc_ascii [OF _ assms(2)] show ?thesis by blast
qed

theorem fourcc_round_trip_witness:
  "\<exists>w. string_to_fourcc ''mjpg'' = Inr w \<and> camera_fourcc_to_string w = ''MJPG''"
proof -
  have "map toupper ''mjpg'' = ''MJPG''" by code_simp
  with fourcc_round_trip [of "''mjpg''"] show ?thesis by simp
qed

lemma fourcc_sign_extension:
  "string_to_fourcc [CHR 0xE9, CHR ''Y'', CHR ''U'', CHR ''Y''] = Inr 0xFFFFFFE9"
  by code_simp

text \<open>
  A measurement counts what it saw. When \<open>capture_frames\<close> returns it has captured exactly the requested
  number of frames, has one interval less than frames, and the total number of bytes lies between the
  smallest and the largest frame times the number of frames. It does return, within as many iterations
  as frames, on a device that delivers a frame whenever it is asked.
\<close>

theorem capture_frames_measures:
  assumes "cam_fd c \<ge> 0" and "streaming c" and "0 < n"
  shows "(\<forall>st c'. camera_capture_frames k fuel n t c = (Ok st, c') \<longrightarrow>
      int (cap_captured st) = n \<and> length (cap_intervals st) + 1 = cap_captured st \<and>
      cap_captured st * unat (cap_min_bytes st) \<le> cap_total_bytes st \<and>
      cap_total_bytes st \<le> cap_captured st * unat (cap_max_bytes st)) \<and>
    (delivers k (length (buffers c)) m \<and> (\<forall>b \<in> set (buffers c). m \<le> mb_length b) \<and> n \<le> int fuel \<longrightarrow>
      (\<exists>st c'. camera_capture_frames k fuel n t c = (Ok st, c')))"
proof -
  have e: "camera_capture_frames k fuel n t c = capture_loop k fuel n t CaptureCounters c"
    using assms by (simp add: camera_capture_frames_def check_c_def)
  have ok: "counters_ok CaptureCounters" "cap_captured CaptureCounters = 0" by (simp_all add: counters_ok_def CaptureCounters_def)
  have "int (cap_captured st) = n \<and> length (cap_intervals st) + 1 = cap_captured st \<and>
      cap_captured st * unat (cap_min_bytes st) \<le> cap_total_bytes st \<and>
      cap_total_bytes st \<le> cap_captured st * unat (cap_max_bytes st)"
    if "camera_capture_frames k fuel n t c = (Ok st, c')" for st c'
  proof -
    have r: "counters_ok st \<and> int (cap_captured st) = n" using capture_loop_ok [of k fuel n t CaptureCounters c] that e ok assms(3) by simp
    then have "cap_captured st \<noteq> 0" using assms(3) by auto
    with r show ?thesis by (auto simp: counters_ok_def)
  qed
  moreover have "\<exists>st c'. camera_capture_frames k fuel n t c = (Ok st, c')"
    if "delivers k (length (buffers c)) m" "\<forall>b \<in> set (buffers c). m \<le> mb_length b" "n \<le> int fuel"
    using delivers_loop [OF that(1,2), of n CaptureCounters fuel] that(3) e by simp
  ultimately show ?thesis by blast
qed

definition steady_kernel :: kernel where
  "steady_kernel = demo_kernel\<lparr>k_poll := (\<lambda>tr. [\<lparr>pa_ret = 1, pa_errno = EINTR, pa_revents = POLLIN\<rparr>])\<rparr>"

theorem capture_frames_measures_witness:
  "\<exists>st c'. camera_capture_frames steady_kernel 3 3 100 demo_camera = (Ok st, c') \<and> int (cap_captured st) = 3"
proof -
  have "cam_fd demo_camera \<ge> 0" "streaming demo_camera" by (simp_all add: demo_camera_def)
  note m = capture_frames_measures [OF this, of 3 steady_kernel 3 100 4]
  have "delivers steady_kernel (length (buffers demo_camera)) 4" "\<forall>b \<in> set (buffers demo_camera). 4 \<le> mb_length b"
    by (simp_all add: delivers_def steady_kernel_def demo_kernel_def demo_camera_def)
  with m show ?thesis by auto
qed

text \<open>
  Both ways to save a frame write the same bytes. For a complete YUYV frame with an even number of pixels
  the raw file and the PPM file of \<open>capture_one_frame_to_files\<close> have the same contents as those the pipeline
  writes for the copy of the same frame.
\<close>

theorem saved_files_agree:
  assumes "save_current_frame_to_files k info dir c = (written, None)"
    and "save_frame_to_files fs (copy_frame k c info) dir' n = (written', None)"
    and "current_pixelformat c = V4L2_PIX_FMT_YUYV" and "even (unat (current_width c) * unat (current_height c))"
    and "unat (ci_bytesused info) = unat (current_width c) * unat (current_height c) * 2"
  shows "length written = 2 \<and> map snd written = map snd written'"
proof -
  have reads: "rgb_reads c = unat (ci_bytesused info)" using assms(4,5) by (auto simp: rgb_reads_def)
  let ?raw = "read_mapped k c (mb_start (buffers c ! ci_index info)) (unat (ci_bytesused info))"
  have f: "frm_data (copy_frame k c info) = ?raw" "frm_width (copy_frame k c info) = current_width c"
    "frm_height (copy_frame k c info) = current_height c" "frm_pixel_format (copy_frame k c info) = V4L2_PIX_FMT_YUYV"
    using assms(3) by (simp_all add: copy_frame_def)
  have "map snd written = [?raw, ppm_bytes (copy_frame k c info)]"
    using assms(1,3)
    by (auto simp: save_current_frame_to_files_def Let_def fourcc_YUYV_eq yuyv_to_rgb_eq reads ppm_bytes_def f
        split: if_splits option.splits sum.splits dest!: write_file_ok)
  moreover have "map snd written' = [?raw, ppm_bytes (copy_frame k c info)]"
    using assms(2) by (auto simp: save_frame_to_files_def Let_def f split: if_splits sum.splits dest!: write_file_ok)
  ultimately show ?thesis by (metis length_Cons list.size(3) length_map numeral_2_eq_2)
qed

theorem saved_files_agree_witness:
  "let info = \<lparr>ci_index = 1, ci_bytesused = 4, ci_sequence = 9, ci_flags = 0, ci_timestamp = (0, 0)\<rparr> in
   map snd (fst (save_current_frame_to_files demo_kernel info ''out'' demo_camera)) =
   map snd (fst (save_frame_to_files (\<lambda>p. FileOk) (copy_frame demo_kernel demo_camera info) ''out'' 1))"
proof -
  let ?info = "\<lparr>ci_index = 1, ci_bytesused = 4, ci_sequence = 9, ci_flags = 0, ci_timestamp = (0, 0)\<rparr> :: captured_info"
  have fmt: "V4L2_PIX_FMT_YUYV \<noteq> 0" by (simp add: V4L2_PIX_FMT_YUYV_def)
  obtain w where w: "save_current_frame_to_files demo_kernel ?info ''out'' demo_camera = (w, None)"
    by (simp add: save_current_frame_to_files_def demo_camera_def CameraDevice_def demo_kernel_def format_unknown_def fmt
        fourcc_YUYV_eq write_file_def Let_def)
  obtain w' where w': "save_frame_to_files (\<lambda>p. FileOk) (copy_frame demo_kernel demo_camera ?info) ''out'' 1 = (w', None)"
    by (simp add: save_frame_to_files_def copy_frame_def demo_camera_def CameraDevice_def fmt write_file_def read_mapped_def Let_def)
  have "map snd w = map snd w'" using saved_files_agree [OF w w'] by (simp add: demo_camera_def)
  with w w' show ?thesis by (simp add: Let_def)
qed

end
