(* ===== verification/Camera_Reports.thy ===== *)
theory Camera_Reports
  imports Camera_Device Latency_Stats
begin

text \<open>
  What \<open>CameraDevice\<close> prints about a device: \<open>list_formats\<close> with \<open>list_frame_sizes\<close> and
  \<open>list_frame_intervals\<close>, and the statistics at the end of \<open>capture_frames\<close>.

  The enumeration ioctls answer from tables indexed by the 32-bit index of the source; the loops end only
  when the driver says so, so they run on fuel. An output line is a value of \<open>listing\<close>.
\<close>

section \<open>Enumerating formats\<close>

record fmtdesc =
  fd_pixelformat :: u32
  fd_description :: string
  fd_compressed :: bool
  fd_emulated :: bool

text \<open>The \<open>type\<close> of an enumeration answer; \<open>Other\<close> is a type the code does not know.\<close>

datatype frmsize = SizeDiscrete u32 u32 | SizeStepwise "u32 \<times> u32" "u32 \<times> u32" "u32 \<times> u32" | SizeContinuous "u32 \<times> u32" "u32 \<times> u32" | SizeOther

datatype frmival = IvalDiscrete u32 u32 | IvalStepwise | IvalContinuous | IvalOther

record enum_driver =
  ed_strerror :: "errno \<Rightarrow> string"
  ed_format :: "u32 \<Rightarrow> errno + fmtdesc"
  ed_size :: "u32 \<Rightarrow> u32 \<Rightarrow> errno + frmsize"
  ed_interval :: "u32 \<Rightarrow> u32 \<Rightarrow> u32 \<Rightarrow> u32 \<Rightarrow> errno + frmival"

datatype listing =
    FormatLine u32 string string bool bool
  | NoFormatLine
  | SizeLine u32 u32 u32
  | StepwiseSizeLine "u32 \<times> u32" "u32 \<times> u32" "u32 \<times> u32"
  | ContinuousSizeLine "u32 \<times> u32" "u32 \<times> u32"
  | SizeErrorLine string string
  | NoSizeLine string
  | IntervalLine u32 u32 u32 real
  | StepwiseIntervalLine
  | ContinuousIntervalLine
  | IntervalErrorLine string
  | NoIntervalLine

definition interval_fps :: "u32 \<Rightarrow> u32 \<Rightarrow> real" where
  "interval_fps num den = (if num \<noteq> 0 then real (unat den) / real (unat num) else 0)"

text \<open>The loops; \<open>None\<close> means that the fuel was used up.\<close>

fun intervals_loop :: "enum_driver \<Rightarrow> nat \<Rightarrow> u32 \<Rightarrow> u32 \<Rightarrow> u32 \<Rightarrow> u32 \<Rightarrow> bool \<Rightarrow> listing list option" where
  "intervals_loop d 0 p w h index found = None"
| "intervals_loop d (Suc fuel) p w h index found =
     (case ed_interval d p w h index of
        Inl err \<Rightarrow>
          if err = EINVAL then Some (if found then [] else [NoIntervalLine])
          else Some [IntervalErrorLine (ed_strerror d err)]
      | Inr (IvalDiscrete num den) \<Rightarrow>
          map_option (Cons (IntervalLine index num den (interval_fps num den)))
            (intervals_loop d fuel p w h (index + 1) True)
      | Inr IvalStepwise \<Rightarrow> Some [StepwiseIntervalLine]
      | Inr IvalContinuous \<Rightarrow> Some [ContinuousIntervalLine]
      | Inr IvalOther \<Rightarrow> intervals_loop d fuel p w h (index + 1) True)"

definition list_frame_intervals :: "enum_driver \<Rightarrow> nat \<Rightarrow> u32 \<Rightarrow> u32 \<Rightarrow> u32 \<Rightarrow> listing list option" where
  "list_frame_intervals d fuel p w h = intervals_loop d fuel p w h 0 False"

fun sizes_loop :: "enum_driver \<Rightarrow> nat \<Rightarrow> nat \<Rightarrow> u32 \<Rightarrow> u32 \<Rightarrow> bool \<Rightarrow> listing list option" where
  "sizes_loop d inner 0 p index found = None"
| "sizes_loop d inner (Suc fuel) p index found =
     (case ed_size d p index of
        Inl err \<Rightarrow>
          if err = EINVAL then Some (if found then [] else [NoSizeLine (camera_fourcc_to_string p)])
          else Some [SizeErrorLine (camera_fourcc_to_string p) (ed_strerror d err)]
      | Inr (SizeDiscrete w h) \<Rightarrow>
          (case list_frame_intervals d inner p w h of
             None \<Rightarrow> None
           | Some lines \<Rightarrow>
               map_option (\<lambda>rest. SizeLine index w h # lines @ rest) (sizes_loop d inner fuel p (index + 1) True))
      | Inr (SizeStepwise lo hi step) \<Rightarrow> Some [StepwiseSizeLine lo hi step]
      | Inr (SizeContinuous lo hi) \<Rightarrow> Some [ContinuousSizeLine lo hi]
      | Inr SizeOther \<Rightarrow> sizes_loop d inner fuel p (index + 1) True)"

definition list_frame_sizes :: "enum_driver \<Rightarrow> nat \<Rightarrow> u32 \<Rightarrow> listing list option" where
  "list_frame_sizes d fuel p = sizes_loop d fuel fuel p 0 False"

text \<open>The lines printed before the function ends, and the exception if it throws.\<close>

fun formats_loop :: "enum_driver \<Rightarrow> nat \<Rightarrow> nat \<Rightarrow> u32 \<Rightarrow> bool \<Rightarrow> (listing list \<times> exn option) option" where
  "formats_loop d inner 0 index found = None"
| "formats_loop d inner (Suc fuel) index found =
     (case ed_format d index of
        Inl err \<Rightarrow>
          if err = EINVAL then Some (if found then [] else [NoFormatLine], None)
          else Some ([], Some (RuntimeError (''VIDIOC_ENUM_FMT failed: '' @ ed_strerror d err)))
      | Inr f \<Rightarrow>
          (case list_frame_sizes d inner (fd_pixelformat f) of
             None \<Rightarrow> None
           | Some lines \<Rightarrow>
               map_option (\<lambda>(rest, e). (FormatLine index (camera_fourcc_to_string (fd_pixelformat f)) (fd_description f)
                   (fd_compressed f) (fd_emulated f) # lines @ rest, e))
                 (formats_loop d inner fuel (index + 1) True)))"

definition list_formats :: "enum_driver \<Rightarrow> nat \<Rightarrow> camera \<Rightarrow> (listing list \<times> exn option) option" where
  "list_formats d fuel c =
     (if cam_fd c < 0 then Some ([], Some (RuntimeError ''Device is not opened''))
      else formats_loop d fuel fuel 0 False)"

section \<open>Statistics of a measurement\<close>

record capture_statistics =
  cs_elapsed_s :: real
  cs_fps :: real
  cs_avg_interval_ms :: real
  cs_p50_ms :: real
  cs_p95_ms :: real
  cs_p99_ms :: real
  cs_max_interval_ms :: real
  cs_avg_bytes :: real

definition interval_percentile :: "real list \<Rightarrow> real \<Rightarrow> real" where
  "interval_percentile sorted_ms p =
     (if sorted_ms = [] then 0
      else sorted_ms ! nat \<lfloor>(p / 100) * real (length sorted_ms - 1)\<rfloor>)"

text \<open>The clock counts nanoseconds.\<close>

definition capture_report :: "int \<Rightarrow> int \<Rightarrow> capture_counters \<Rightarrow> capture_statistics" where
  "capture_report start_time end_time st =
     (let elapsed_s = real_of_int (end_time - start_time) / 1000000000;
          intervals_ms = map (\<lambda>d. real_of_int d / 1000000) (cap_intervals st);
          sorted_ms = sort intervals_ms
      in \<lparr>cs_elapsed_s = elapsed_s,
          cs_fps = (if elapsed_s > 0 then real (cap_captured st) / elapsed_s else 0),
          cs_avg_interval_ms =
            (if intervals_ms = [] then 0 else foldl (+) 0 intervals_ms / real (length intervals_ms)),
          cs_p50_ms = interval_percentile sorted_ms 50,
          cs_p95_ms = interval_percentile sorted_ms 95,
          cs_p99_ms = interval_percentile sorted_ms 99,
          cs_max_interval_ms = foldl (\<lambda>m v. if v > m then v else m) 0 intervals_ms,
          cs_avg_bytes = (if cap_captured st > 0 then real (cap_total_bytes st) / real (cap_captured st) else 0)\<rparr>)"

section \<open>The complete listing\<close>

text \<open>A driver whose table at every index is the list \<open>xs\<close>, followed by \<open>EINVAL\<close>.\<close>

definition reports :: "(u32 \<Rightarrow> errno + 'a) \<Rightarrow> 'a list \<Rightarrow> bool" where
  "reports ask xs \<longleftrightarrow> length xs < 2 ^ 32 \<and>
     (\<forall>i. ask i = (if unat i < length xs then Inr (xs ! unat i) else Inl EINVAL))"

text \<open>What the listing of such a table is, as a function of the tables.\<close>

fun interval_lines :: "nat \<Rightarrow> frmival list \<Rightarrow> listing list" where
  "interval_lines i [] = []"
| "interval_lines i (IvalDiscrete num den # r) =
     IntervalLine (of_nat i) num den (interval_fps num den) # interval_lines (Suc i) r"
| "interval_lines i (IvalStepwise # r) = [StepwiseIntervalLine]"
| "interval_lines i (IvalContinuous # r) = [ContinuousIntervalLine]"
| "interval_lines i (IvalOther # r) = interval_lines (Suc i) r"

definition interval_listing :: "frmival list \<Rightarrow> listing list" where
  "interval_listing xs = (if xs = [] then [NoIntervalLine] else interval_lines 0 xs)"

fun size_lines :: "(u32 \<Rightarrow> u32 \<Rightarrow> frmival list) \<Rightarrow> nat \<Rightarrow> frmsize list \<Rightarrow> listing list" where
  "size_lines ivals i [] = []"
| "size_lines ivals i (SizeDiscrete w h # r) =
     SizeLine (of_nat i) w h # interval_listing (ivals w h) @ size_lines ivals (Suc i) r"
| "size_lines ivals i (SizeStepwise lo hi step # r) = [StepwiseSizeLine lo hi step]"
| "size_lines ivals i (SizeContinuous lo hi # r) = [ContinuousSizeLine lo hi]"
| "size_lines ivals i (SizeOther # r) = size_lines ivals (Suc i) r"

definition size_listing :: "u32 \<Rightarrow> (u32 \<Rightarrow> u32 \<Rightarrow> frmival list) \<Rightarrow> frmsize list \<Rightarrow> listing list" where
  "size_listing p ivals xs = (if xs = [] then [NoSizeLine (camera_fourcc_to_string p)] else size_lines ivals 0 xs)"

definition format_listing ::
    "(u32 \<Rightarrow> frmsize list) \<Rightarrow> (u32 \<Rightarrow> u32 \<Rightarrow> u32 \<Rightarrow> frmival list) \<Rightarrow> fmtdesc list \<Rightarrow> listing list" where
  "format_listing sizes ivals fs =
     (if fs = [] then [NoFormatLine]
      else concat (map (\<lambda>(i, f). FormatLine (of_nat i) (camera_fourcc_to_string (fd_pixelformat f)) (fd_description f)
               (fd_compressed f) (fd_emulated f) # size_listing (fd_pixelformat f) (ivals (fd_pixelformat f))
               (sizes (fd_pixelformat f)))
             (enumerate 0 fs)))"

lemma reports_at:
  assumes "reports ask xs"
  shows "i < length xs \<Longrightarrow> ask (of_nat i) = Inr (xs ! i)" and "i = length xs \<Longrightarrow> ask (of_nat i) = Inl EINVAL"
  using assms unat_of_nat_small [of i, where 'a = 32] by (auto simp: reports_def)

lemma drop_nth: "i < length xs \<Longrightarrow> drop i xs = xs ! i # drop (Suc i) xs"
  by (rule Cons_nth_drop_Suc [symmetric])

lemma intervals_loop_lines:
  assumes "reports (ed_interval d p w h) xs"
  shows "i \<le> length xs \<Longrightarrow> length xs - i < fuel \<Longrightarrow> found \<or> i = 0 \<Longrightarrow>
    intervals_loop d fuel p w h (of_nat i) found =
      Some (if xs = [] \<and> \<not> found then [NoIntervalLine] else interval_lines i (drop i xs))"
proof (induction fuel arbitrary: i found)
  case (Suc fuel)
  show ?case
  proof (cases "i < length xs")
    case True
    have "(of_nat i :: u32) + 1 = of_nat (Suc i)" by simp
    moreover have "intervals_loop d fuel p w h (of_nat (Suc i)) True = Some (interval_lines (Suc i) (drop (Suc i) xs))"
      using Suc.IH [of "Suc i" True] True Suc.prems by simp
    ultimately show ?thesis
      using True reports_at(1) [OF assms True] by (cases "xs ! i") (auto simp: drop_nth simp del: of_nat_Suc)
  next
    case False
    with Suc.prems have "i = length xs" by simp
    with reports_at(2) [OF assms this] Suc.prems show ?thesis by auto
  qed
qed simp

lemma list_frame_intervals_listing:
  "reports (ed_interval d p w h) xs \<Longrightarrow> length xs < fuel \<Longrightarrow> list_frame_intervals d fuel p w h = Some (interval_listing xs)"
  using intervals_loop_lines [of d p w h xs 0 fuel False]
  by (auto simp: list_frame_intervals_def interval_listing_def)

lemma sizes_loop_lines:
  assumes "reports (ed_size d p) xs"
    and "\<And>w h. reports (ed_interval d p w h) (ivals w h) \<and> length (ivals w h) < inner"
  shows "i \<le> length xs \<Longrightarrow> length xs - i < fuel \<Longrightarrow> found \<or> i = 0 \<Longrightarrow>
    sizes_loop d inner fuel p (of_nat i) found =
      Some (if xs = [] \<and> \<not> found then [NoSizeLine (camera_fourcc_to_string p)] else size_lines ivals i (drop i xs))"
proof (induction fuel arbitrary: i found)
  case (Suc fuel)
  show ?case
  proof (cases "i < length xs")
    case True
    have "(of_nat i :: u32) + 1 = of_nat (Suc i)" by simp
    moreover have "sizes_loop d inner fuel p (of_nat (Suc i)) True = Some (size_lines ivals (Suc i) (drop (Suc i) xs))"
      using Suc.IH [of "Suc i" True] True Suc.prems by simp
    moreover have "list_frame_intervals d inner p w h = Some (interval_listing (ivals w h))" for w h
      using assms(2) by (intro list_frame_intervals_listing) auto
    ultimately show ?thesis
      using True reports_at(1) [OF assms(1) True] by (cases "xs ! i") (auto simp: drop_nth simp del: of_nat_Suc)
  next
    case False
    with Suc.prems have "i = length xs" by simp
    with reports_at(2) [OF assms(1) this] Suc.prems show ?thesis by auto
  qed
qed simp

lemma list_frame_sizes_listing:
  assumes "reports (ed_size d p) xs" and "length xs < fuel"
    and "\<And>w h. reports (ed_interval d p w h) (ivals w h) \<and> length (ivals w h) < fuel"
  shows "list_frame_sizes d fuel p = Some (size_listing p ivals xs)"
  using sizes_loop_lines [OF assms(1,3), of 0 fuel False] assms(2) by (auto simp: list_frame_sizes_def size_listing_def)

text \<open>Tables for every format, size and interval of a driver, all shorter than \<open>fuel\<close>.\<close>

definition driver_tables ::
    "enum_driver \<Rightarrow> nat \<Rightarrow> fmtdesc list \<Rightarrow> (u32 \<Rightarrow> frmsize list) \<Rightarrow> (u32 \<Rightarrow> u32 \<Rightarrow> u32 \<Rightarrow> frmival list) \<Rightarrow> bool" where
  "driver_tables d fuel fs sizes ivals \<longleftrightarrow> reports (ed_format d) fs \<and> length fs < fuel \<and>
     (\<forall>p. reports (ed_size d p) (sizes p) \<and> length (sizes p) < fuel) \<and>
     (\<forall>p w h. reports (ed_interval d p w h) (ivals p w h) \<and> length (ivals p w h) < fuel)"

lemma formats_loop_lines:
  assumes "driver_tables d inner fs sizes ivals"
  shows "i \<le> length fs \<Longrightarrow> length fs - i < fuel \<Longrightarrow> found \<or> i = 0 \<Longrightarrow>
    formats_loop d inner fuel (of_nat i) found =
      Some (if fs = [] \<and> \<not> found then [NoFormatLine] else
        concat (map (\<lambda>(i, f). FormatLine (of_nat i) (camera_fourcc_to_string (fd_pixelformat f)) (fd_description f)
          (fd_compressed f) (fd_emulated f) # size_listing (fd_pixelformat f) (ivals (fd_pixelformat f))
          (sizes (fd_pixelformat f))) (enumerate i (drop i fs))), None)"
proof (induction fuel arbitrary: i found)
  case (Suc fuel)
  have rep: "reports (ed_format d) fs" using assms by (simp add: driver_tables_def)
  show ?case
  proof (cases "i < length fs")
    case True
    have "(of_nat i :: u32) + 1 = of_nat (Suc i)" by simp
    moreover have "list_frame_sizes d inner p = Some (size_listing p (ivals p) (sizes p))" for p
      using assms by (intro list_frame_sizes_listing) (auto simp: driver_tables_def)
    ultimately show ?thesis
      using True reports_at(1) [OF rep True] Suc.IH [of "Suc i" True] Suc.prems
      by (auto simp: drop_nth simp del: of_nat_Suc)
  next
    case False
    with Suc.prems have "i = length fs" by simp
    with reports_at(2) [OF rep this] Suc.prems show ?thesis by auto
  qed
qed simp

section \<open>Percentiles and means\<close>

lemma rank_below:
  assumes "0 < n" and "q \<le> 100"
  shows "nat \<lfloor>q / 100 * real (n - 1)\<rfloor> < n"
proof -
  have "q / 100 * real (n - 1) \<le> 1 * real (n - 1)" using assms(2) by (intro mult_right_mono) auto
  then have "nat \<lfloor>q / 100 * real (n - 1)\<rfloor> \<le> n - 1" by linarith
  with assms(1) show ?thesis by linarith
qed

lemma interval_percentile_nth: "s \<noteq> [] \<Longrightarrow> interval_percentile s p = s ! nat \<lfloor>p / 100 * real (length s - 1)\<rfloor>"
  by (simp only: interval_percentile_def if_False)

lemma interval_percentile_mono:
  assumes "sorted s" and "p \<le> q" and "q \<le> 100"
  shows "interval_percentile s p \<le> interval_percentile s q"
proof (cases "s = []")
  case False
  have "p / 100 * real (length s - 1) \<le> q / 100 * real (length s - 1)" using assms(2) by (intro mult_right_mono) auto
  then have "nat \<lfloor>p / 100 * real (length s - 1)\<rfloor> \<le> nat \<lfloor>q / 100 * real (length s - 1)\<rfloor>" by (intro nat_mono floor_mono)
  moreover have "nat \<lfloor>q / 100 * real (length s - 1)\<rfloor> < length s" using False assms(3) by (intro rank_below) auto
  ultimately show ?thesis unfolding interval_percentile_nth [OF False] using assms(1) by (intro sorted_nth_mono)
qed (simp add: interval_percentile_def)

lemma interval_percentile_in: "s \<noteq> [] \<Longrightarrow> p \<le> 100 \<Longrightarrow> interval_percentile s p \<in> set s"
  unfolding interval_percentile_nth by (intro nth_mem rank_below) auto

lemma running_max:
  "m \<le> foldl (\<lambda>m v. if v > m then v else m) m xs \<and> (\<forall>v \<in> set xs. v \<le> foldl (\<lambda>m v. if v > m then v else m) m xs)"
  for m :: real
proof (induction xs arbitrary: m)
  case (Cons x xs)
  from Cons [of x] Cons [of m] show ?case by auto
qed simp

lemma running_sum_le: "\<forall>v \<in> set xs. v \<le> b \<Longrightarrow> foldl (+) a xs \<le> a + b * real (length xs)" for a b :: real
proof (induction xs arbitrary: a)
  case (Cons x xs)
  then have "foldl (+) (a + x) xs \<le> (a + x) + b * real (length xs)" "x \<le> b" by auto
  then show ?case by (simp add: algebra_simps)
qed simp

section \<open>Properties\<close>

text \<open>
  The listing is complete. For a driver that reports finite tables of formats, frame sizes and intervals,
  \<open>list_formats\<close> ends and prints exactly the listing of these tables in order: every format with its index,
  code and flags, under it its sizes, under every discrete size its intervals, and the warnings for empty
  tables.
\<close>

theorem list_formats_complete:
  assumes "cam_fd c \<ge> 0" and "driver_tables d fuel fs sizes ivals"
  shows "list_formats d fuel c = Some (format_listing sizes ivals fs, None)"
  using formats_loop_lines [OF assms(2), of 0 fuel False] assms
  by (auto simp: list_formats_def format_listing_def driver_tables_def)

definition demo_driver :: enum_driver where
  "demo_driver = \<lparr>ed_strerror = (\<lambda>e. ''error''),
     ed_format = (\<lambda>i. if i = 0 then Inr \<lparr>fd_pixelformat = V4L2_PIX_FMT_YUYV, fd_description = ''YUYV 4:2:2'',
       fd_compressed = False, fd_emulated = False\<rparr> else Inl EINVAL),
     ed_size = (\<lambda>p i. if i = 0 then Inr (SizeDiscrete 640 480) else Inl EINVAL),
     ed_interval = (\<lambda>p w h i. Inl EINVAL)\<rparr>"

theorem list_formats_complete_witness:
  "\<exists>lines. list_formats demo_driver 3 ((CameraDevice ''/dev/video0'')\<lparr>cam_fd := 4\<rparr>) = Some (lines, None) \<and>
     SizeLine 0 640 480 \<in> set lines \<and> NoIntervalLine \<in> set lines"
proof -
  let ?f = "\<lparr>fd_pixelformat = V4L2_PIX_FMT_YUYV, fd_description = ''YUYV 4:2:2'', fd_compressed = False, fd_emulated = False\<rparr>"
  have "driver_tables demo_driver 3 [?f] (\<lambda>p. [SizeDiscrete 640 480]) (\<lambda>p w h. [])"
    by (auto simp: driver_tables_def reports_def demo_driver_def unat_eq_0)
  from list_formats_complete [OF _ this, of "(CameraDevice ''/dev/video0'')\<lparr>cam_fd := 4\<rparr>"] show ?thesis
    by (simp add: format_listing_def size_listing_def interval_listing_def)
qed

text \<open>
  The statistics of a measurement are ordered. With a clock that does not run backwards the percentiles
  of the intervals increase up to the maximum, the mean is at most the maximum, and the mean number of bytes
  lies between the smallest and the largest frame.
\<close>

theorem capture_report_ordered:
  assumes "\<forall>d \<in> set (cap_intervals st). 0 \<le> d" and "0 < cap_captured st"
    and "cap_captured st * unat (cap_min_bytes st) \<le> cap_total_bytes st"
    and "cap_total_bytes st \<le> cap_captured st * unat (cap_max_bytes st)"
  shows "let r = capture_report t0 t1 st in
    0 \<le> cs_p50_ms r \<and> cs_p50_ms r \<le> cs_p95_ms r \<and> cs_p95_ms r \<le> cs_p99_ms r \<and> cs_p99_ms r \<le> cs_max_interval_ms r \<and>
    cs_avg_interval_ms r \<le> cs_max_interval_ms r \<and>
    real (unat (cap_min_bytes st)) \<le> cs_avg_bytes r \<and> cs_avg_bytes r \<le> real (unat (cap_max_bytes st))"
proof -
  define ms where "ms = map (\<lambda>d. real_of_int d / 1000000) (cap_intervals st)"
  let ?max = "foldl (\<lambda>m v. if v > m then v else m) 0 ms"
  have nonneg: "\<forall>v \<in> set ms. 0 \<le> v" using assms(1) by (auto simp: ms_def)
  have max: "0 \<le> ?max" "\<forall>v \<in> set ms. v \<le> ?max" using running_max [of 0 ms] by auto
  have in_ms: "interval_percentile (sort ms) p \<in> set ms \<or> interval_percentile (sort ms) p = 0 \<and> ms = []"
    if "p \<le> 100" for p
  proof (cases "ms = []")
    case False
    then have "sort ms \<noteq> []" by (metis set_empty set_sort)
    with interval_percentile_in [OF this that] show ?thesis by simp
  qed (simp add: interval_percentile_def)
  have "0 \<le> interval_percentile (sort ms) 50" "interval_percentile (sort ms) 99 \<le> ?max"
    using in_ms [of 50] in_ms [of 99] nonneg max by auto
  moreover have "interval_percentile (sort ms) 50 \<le> interval_percentile (sort ms) 95"
    "interval_percentile (sort ms) 95 \<le> interval_percentile (sort ms) 99"
    by (simp_all add: interval_percentile_mono)
  moreover have "foldl (+) 0 ms \<le> ?max * real (length ms)" using running_sum_le [OF max(2), of 0] by simp
  then have "(if ms = [] then 0 else foldl (+) 0 ms / real (length ms)) \<le> ?max"
    using max(1) by (simp add: divide_le_eq)
  moreover have "real (cap_captured st) * real (unat (cap_min_bytes st)) \<le> real (cap_total_bytes st)"
    "real (cap_total_bytes st) \<le> real (cap_captured st) * real (unat (cap_max_bytes st))"
    using assms(3,4) by (simp_all only: of_nat_mult [symmetric] of_nat_le_iff)
  ultimately show ?thesis
    using assms(2) by (simp add: capture_report_def Let_def pos_le_divide_eq pos_divide_le_eq mult.commute del: of_nat_unat flip: ms_def)
qed

theorem capture_report_ordered_witness:
  "let r = capture_report 0 3000000000 (CaptureCounters\<lparr>cap_captured := 2, cap_intervals := [7000000], cap_total_bytes := 30,
     cap_min_bytes := 10, cap_max_bytes := 20\<rparr>) in cs_p50_ms r \<le> cs_p95_ms r"
  using capture_report_ordered [of "CaptureCounters\<lparr>cap_captured := 2, cap_intervals := [7000000], cap_total_bytes := 30,
     cap_min_bytes := 10, cap_max_bytes := 20\<rparr>" 0 3000000000]
  by (simp add: Let_def)

end
