(* ===== verification/Logger.thy ===== *)
theory Logger
  imports Cpp_Strings
begin

text \<open>
  The logger of \<open>src/logger.cpp\<close> and \<open>include/logger.hpp\<close>: the levels, their names, and the singleton with its
  level and the two streams it writes to. \<open>Logger::log\<close> holds the mutex for its whole body, so a call is one
  step. The time stamp of a line is an argument.
\<close>

datatype log_level = DEBUG | INFO | WARN | ERROR

text \<open>The order of the enumeration constants.\<close>

fun level_number :: "log_level \<Rightarrow> nat" where
  "level_number DEBUG = 0"
| "level_number INFO = 1"
| "level_number WARN = 2"
| "level_number ERROR = 3"

instantiation log_level :: linorder
begin

definition less_eq_log_level :: "log_level \<Rightarrow> log_level \<Rightarrow> bool" where
  "less_eq_log_level a b = (level_number a \<le> level_number b)"

definition less_log_level :: "log_level \<Rightarrow> log_level \<Rightarrow> bool" where
  "less_log_level a b = (level_number a < level_number b)"

instance
proof
  fix a b c :: log_level
  show "a < b \<longleftrightarrow> a \<le> b \<and> \<not> b \<le> a" by (auto simp: less_eq_log_level_def less_log_level_def)
  show "a \<le> a" by (simp add: less_eq_log_level_def)
  show "a \<le> b \<Longrightarrow> b \<le> c \<Longrightarrow> a \<le> c" by (simp add: less_eq_log_level_def)
  show "a \<le> b \<Longrightarrow> b \<le> a \<Longrightarrow> a = b" by (cases a; cases b; simp add: less_eq_log_level_def)
  show "a \<le> b \<or> b \<le> a" by (auto simp: less_eq_log_level_def)
qed

end

definition parse_log_level :: "string \<Rightarrow> log_level result" where
  "parse_log_level level_text =
     (let level = map toupper level_text in
      if level = ''DEBUG'' then Inr DEBUG
      else if level = ''INFO'' then Inr INFO
      else if level = ''WARN'' \<or> level = ''WARNING'' then Inr WARN
      else if level = ''ERROR'' then Inr ERROR
      else Inl (RuntimeError (''Unknown log level: '' @ level_text)))"

fun log_level_to_string :: "log_level \<Rightarrow> string" where
  "log_level_to_string DEBUG = ''DEBUG''"
| "log_level_to_string INFO = ''INFO''"
| "log_level_to_string WARN = ''WARN''"
| "log_level_to_string ERROR = ''ERROR''"

text \<open>
  The time stamp of a line: \<open>std::put_time\<close> with a fixed format on the local time of a clock value, and the
  milliseconds with leading zeros. \<open>localtime\<close> is an argument; its answer is the record of the fields the format uses.
\<close>

record tm =
  tm_year :: nat
  tm_mon :: nat
  tm_mday :: nat
  tm_hour :: nat
  tm_min :: nat
  tm_sec :: nat

definition setw :: "nat \<Rightarrow> nat \<Rightarrow> string" where
  "setw w n = replicate (w - length (to_string n)) (CHR ''0'') @ to_string n"

definition current_timestamp :: "(nat \<Rightarrow> tm) \<Rightarrow> nat \<Rightarrow> string" where
  "current_timestamp localtime now_ns =
     (let tm_now = localtime (now_ns div 1000000000); ms = (now_ns div 1000000) mod 1000 in
      to_string (tm_year tm_now + 1900) @ ''-'' @ setw 2 (tm_mon tm_now + 1) @ ''-'' @ setw 2 (tm_mday tm_now) @ '' '' @
      setw 2 (tm_hour tm_now) @ '':'' @ setw 2 (tm_min tm_now) @ '':'' @ setw 2 (tm_sec tm_now) @ ''.'' @ setw 3 ms)"

record logger =
  current_level :: log_level
  log_out :: "string list"
  log_err :: "string list"

definition Logger :: logger where
  "Logger = \<lparr>current_level = INFO, log_out = [], log_err = []\<rparr>"

definition set_level :: "log_level \<Rightarrow> logger \<Rightarrow> logger" where
  "set_level level l = l\<lparr>current_level := level\<rparr>"

definition log_line :: "string \<Rightarrow> log_level \<Rightarrow> string \<Rightarrow> string \<Rightarrow> string" where
  "log_line stamp level module_name message =
     ''['' @ stamp @ '']['' @ log_level_to_string level @ '']['' @ module_name @ ''] '' @ message @ [CHR 0x0A]"

definition uses_stderr :: "log_level \<Rightarrow> bool" where
  "uses_stderr level = (level = ERROR \<or> level = WARN)"

definition log_message :: "string \<Rightarrow> log_level \<Rightarrow> string \<Rightarrow> string \<Rightarrow> logger \<Rightarrow> logger" where
  "log_message stamp level module_name message l =
     (if level_number level < level_number (current_level l) then l
      else if uses_stderr level then l\<lparr>log_err := log_err l @ [log_line stamp level module_name message]\<rparr>
      else l\<lparr>log_out := log_out l @ [log_line stamp level module_name message]\<rparr>)"

section \<open>Lemmas\<close>

lemma parse_upper_case:
  "lvl \<in> {''DEBUG'', ''INFO'', ''WARN'', ''ERROR''} \<Longrightarrow> \<exists>v. parse_log_level lvl = Inr v \<and> log_level_to_string v = lvl"
proof -
  have "parse_log_level ''DEBUG'' = Inr DEBUG" "parse_log_level ''INFO'' = Inr INFO" "parse_log_level ''WARN'' = Inr WARN"
    "parse_log_level ''ERROR'' = Inr ERROR" by code_simp+
  then show "lvl \<in> {''DEBUG'', ''INFO'', ''WARN'', ''ERROR''} \<Longrightarrow> \<exists>v. parse_log_level lvl = Inr v \<and> log_level_to_string v = lvl"
    by auto
qed

lemma log_message_level [simp]: "current_level (log_message t lv m msg l) = current_level l"
  by (simp add: log_message_def)

text \<open>A sequence of calls: stamp, level, module and message of each.\<close>

type_synonym log_call = "string \<times> log_level \<times> string \<times> string"

definition log_calls :: "log_call list \<Rightarrow> logger \<Rightarrow> logger" where
  "log_calls cs l = foldl (\<lambda>l (t, lv, m, msg). log_message t lv m msg l) l cs"

definition written_lines :: "(log_level \<Rightarrow> bool) \<Rightarrow> log_call list \<Rightarrow> string list" where
  "written_lines p cs = map (\<lambda>(t, lv, m, msg). log_line t lv m msg) (filter (\<lambda>(t, lv, m, msg). p lv) cs)"

lemma log_calls_lines:
  "current_level (log_calls cs l) = current_level l \<and>
   log_out (log_calls cs l) = log_out l @ written_lines (\<lambda>lv. current_level l \<le> lv \<and> \<not> uses_stderr lv) cs \<and>
   log_err (log_calls cs l) = log_err l @ written_lines (\<lambda>lv. current_level l \<le> lv \<and> uses_stderr lv) cs"
proof (induction cs arbitrary: l)
  case Nil
  then show ?case by (simp add: log_calls_def written_lines_def)
next
  case (Cons c cs)
  obtain t lv m msg where c: "c = (t, lv, m, msg)" by (cases c)
  have "log_calls (c # cs) l = log_calls cs (log_message t lv m msg l)" by (simp add: log_calls_def c)
  with Cons [of "log_message t lv m msg l"] show ?case
    by (auto simp: log_message_def written_lines_def c less_eq_log_level_def)
qed

section \<open>Properties\<close>

text \<open>
  The logger writes exactly the messages at or above its level, in order, warnings and errors on one stream
  and the others on the other one; raising the level never adds a line.
\<close>

theorem logger_filters:
  "log_out (log_calls cs (set_level v l)) = log_out l @ written_lines (\<lambda>lv. v \<le> lv \<and> lv \<in> {DEBUG, INFO}) cs \<and>
   log_err (log_calls cs (set_level v l)) = log_err l @ written_lines (\<lambda>lv. v \<le> lv \<and> lv \<in> {WARN, ERROR}) cs \<and>
   (v \<le> v' \<longrightarrow> length (log_out (log_calls cs (set_level v' l))) \<le> length (log_out (log_calls cs (set_level v l))))"
proof -
  have s: "uses_stderr = (\<lambda>lv. lv \<in> {WARN, ERROR})" by (auto simp: uses_stderr_def)
  have low: "(lv \<noteq> WARN \<and> lv \<noteq> ERROR) = (lv = DEBUG \<or> lv = INFO)" for lv by (cases lv) simp_all
  have "length (filter (\<lambda>(t, lv, m, msg). v' \<le> lv \<and> lv \<in> {DEBUG, INFO}) cs) \<le>
      length (filter (\<lambda>(t, lv, m, msg). v \<le> lv \<and> lv \<in> {DEBUG, INFO}) cs)" if "v \<le> v'"
    using that by (induction cs) auto
  then show ?thesis
    using log_calls_lines [of cs "set_level v l"] log_calls_lines [of cs "set_level v' l"]
    by (auto simp: set_level_def s low written_lines_def)
qed

theorem logger_filters_witness:
  "log_err (log_calls [(''t'', INFO, ''M'', ''a''), (''t'', ERROR, ''M'', ''b'')] (set_level WARN Logger)) = [log_line ''t'' ERROR ''M'' ''b'']"
  using logger_filters [of "[(''t'', INFO, ''M'', ''a''), (''t'', ERROR, ''M'', ''b'')]" WARN Logger WARN]
  by (simp add: written_lines_def Logger_def less_eq_log_level_def)

end
