(* ===== verification/Capture_Main.thy ===== *)
theory Capture_Main
  imports Camera_Results Camera_Reports Logger
begin

text \<open>
  \<open>main\<close> of the capture program, \<open>src/main.cpp\<close>: the configuration, the device operations it selects and the exit
  code. The kernel, the file system and the tables of the enumeration calls are arguments.

  What \<open>run_pipeline\<close> does to the device is the sequence of captures and rebuilds its producer makes, with the
  exception it ends with (\<open>Pipeline\<close> models when it makes them); both are an argument here, so that the
  theorems hold for every run of the pipeline.
\<close>

section \<open>The output directory\<close>

definition prepare_output_directory :: "(string \<Rightarrow> file_result) \<Rightarrow> string \<Rightarrow> unit result" where
  "prepare_output_directory fs dir =
     (if dir = [] then Inl (InvalidArgument ''Output directory must not be empty'')
      else case fs (dir @ ''/.v4l2_capture_write_test'') of
        CreateDirsFailed m \<Rightarrow> Inl (RuntimeError m)
      | OpenFailed \<Rightarrow> Inl (RuntimeError (''Output directory is not writable: '' @ dir))
      | WriteFailed \<Rightarrow> Inl (RuntimeError (''Failed to write test file in output directory: '' @ dir))
      | FileOk \<Rightarrow> Inr ())"

section \<open>The pipeline's use of the device\<close>

datatype producer_call = CaptureCall | RebuildCall

text \<open>A capture by the producer, and \<open>camera = CameraDevice(...)\<close> followed by the initialisation.\<close>

fun producer_calls :: "kernel \<Rightarrow> app_config \<Rightarrow> producer_call list \<Rightarrow> camera \<Rightarrow> camera" where
  "producer_calls k cfg [] c = c"
| "producer_calls k cfg (CaptureCall # cs) c =
     producer_calls k cfg cs (snd (capture_frame_copy k (timeout_ms cfg) c))"
| "producer_calls k cfg (RebuildCall # cs) c =
     producer_calls k cfg cs (snd (initialize_camera k cfg (fst (move_assign c (CameraDevice (device cfg))))))"

record pipeline_run =
  pr_calls :: "producer_call list"
  pr_result :: "exn option"

definition run_pipeline_on :: "kernel \<Rightarrow> app_config \<Rightarrow> pipeline_run \<Rightarrow> unit camera_op" where
  "run_pipeline_on k cfg run c =
     (case pr_result run of None \<Rightarrow> Ok () | Some e \<Rightarrow> Throws e, producer_calls k cfg (pr_calls run) c)"

section \<open>The modes\<close>

record main_env =
  me_kernel :: kernel
  me_driver :: enum_driver
  me_fuel :: nat
  me_files :: "string \<Rightarrow> file_result"
  me_config :: "string \<Rightarrow> string list option"
  me_run :: pipeline_run

definition when_c :: "bool \<Rightarrow> unit camera_op \<Rightarrow> unit camera_op" where
  "when_c b m = (if b then m else return_c ())"

definition list_formats_op :: "main_env \<Rightarrow> unit camera_op" where
  "list_formats_op env c =
     (case list_formats (me_driver env) (me_fuel env) c of
        None \<Rightarrow> (Waiting, c)
      | Some (shown, None) \<Rightarrow> (Ok (), c)
      | Some (shown, Some e) \<Rightarrow> (Throws e, c))"

definition lift_result :: "unit result \<Rightarrow> unit camera_op" where
  "lift_result r c = (case r of Inl e \<Rightarrow> (Throws e, c) | Inr u \<Rightarrow> (Ok (), c))"

definition save_one_op :: "main_env \<Rightarrow> app_config \<Rightarrow> unit camera_op" where
  "save_one_op env cfg c = snd (capture_one_frame_to_files (me_kernel env) (timeout_ms cfg) (output_dir cfg) c)"

definition measure_op :: "main_env \<Rightarrow> app_config \<Rightarrow> unit camera_op" where
  "measure_op env cfg =
     bind_c (camera_capture_frames (me_kernel env) (me_fuel env) (capture_frames cfg) (timeout_ms cfg)) (\<lambda>st. return_c ())"

definition run_mode :: "main_env \<Rightarrow> app_config \<Rightarrow> unit camera_op" where
  "run_mode env cfg =
     (if save_one cfg then save_one_op env cfg
      else if capture_one cfg then capture_one_frame (me_kernel env) (timeout_ms cfg)
      else if capture_frames cfg > 0 then measure_op env cfg
      else run_pipeline_on (me_kernel env) cfg (me_run env))"

definition stop_op :: "unit camera_op" where
  "stop_op c = (Ok (), stop_streaming c)"

definition capture_session :: "main_env \<Rightarrow> app_config \<Rightarrow> unit camera_op" where
  "capture_session env cfg =
     (let k = me_kernel env in
      bind_c (open_device k) (\<lambda>_.
      bind_c (query_capability k) (\<lambda>_.
      bind_c (when_c (app_config.list_formats cfg) (list_formats_op env)) (\<lambda>_.
      bind_c (case (width cfg, height cfg, pixel_format cfg) of
                (Some w, Some h, Some p) \<Rightarrow> set_format k w h p | _ \<Rightarrow> return_c ()) (\<lambda>_.
      bind_c (case mmap_buffers cfg of Some n \<Rightarrow> init_mmap_buffers k n | None \<Rightarrow> return_c ()) (\<lambda>_.
      when_c (capture_mode_count cfg > 0)
        (bind_c (when_c (save_one cfg \<or> (pipeline_frames cfg > 0 \<and> pipeline_save cfg))
                   (lift_result (prepare_output_directory (me_files env) (output_dir cfg)))) (\<lambda>_.
         bind_c (start_streaming k) (\<lambda>_.
         bind_c (run_mode env cfg) (\<lambda>_. stop_op))))))))))"

text \<open>
  The exit code (\<open>None\<close> while the program waits) and the device as it is after its destructor, if one was
  made: the destructor runs at the end of the block and when an exception leaves it.
\<close>

definition capture_main :: "main_env \<Rightarrow> string list \<Rightarrow> int option \<times> camera option" where
  "capture_main env args =
     (if ''--help'' \<in> set args \<or> ''-h'' \<in> set args then (Some 0, None)
      else case load_app_config (me_config env) args of
        Inl e \<Rightarrow> (Some 1, None)
      | Inr cfg \<Rightarrow>
          (case parse_log_level (log_level cfg) of
             Inl e \<Rightarrow> (Some 1, None)
           | Inr lv \<Rightarrow>
               (case capture_session env cfg (CameraDevice (device cfg)) of
                  (Ok u, c) \<Rightarrow> (Some 0, Some (destroy_camera c))
                | (Throws e, c) \<Rightarrow> (Some 1, Some (destroy_camera c))
                | (Waiting, c) \<Rightarrow> (None, Some c))))"

section \<open>The device stays consistent\<close>

text \<open>Operations that keep the correspondence between the members and what is open.\<close>

definition keeps :: "unit camera_op \<Rightarrow> bool" where
  "keeps m \<longleftrightarrow> (\<forall>c. owns_exactly c \<longrightarrow> owns_exactly (snd (m c)))"

lemma keepsI: "(\<And>c. owns_exactly c \<Longrightarrow> owns_exactly (snd (m c))) \<Longrightarrow> keeps m"
  by (simp add: keeps_def)

lemma keeps_bind: "keeps m \<Longrightarrow> keeps f \<Longrightarrow> keeps (bind_c m (\<lambda>_. f))"
  by (auto simp: keeps_def bind_c_def split: prod.split outcome.split)

lemma keeps_bind_return: "keeps m \<Longrightarrow> keeps (bind_c m return_c)"
  by (auto simp: keeps_def bind_c_def return_c_def split: prod.split outcome.split)

lemma keeps_when: "keeps m \<Longrightarrow> keeps (when_c b m)"
  by (simp add: keeps_def when_c_def return_c_def)

lemma owns_bind:
  assumes "owns_exactly (snd (m c))" and "keeps f"
  shows "owns_exactly (snd (bind_c m (\<lambda>_. f) c))"
  using assms by (cases "m c") (auto simp: keeps_def bind_c_def split: outcome.split)

lemma keeps_simple:
  assumes "mmap_contract k"
  shows "keeps (query_capability k)" "keeps (set_format k w h p)" "keeps (init_mmap_buffers k n)"
    "keeps (start_streaming k)" "keeps stop_op" "keeps (return_c ())" "keeps (lift_result r)"
    "keeps (capture_one_frame k t)" "keeps (list_formats_op env)"
  using assms owns_gives_back [OF _ capture_one_frame_gives_back]
  by (simp_all add: keeps_def owns_query owns_set_format owns_init owns_start owns_stop stop_op_def return_c_def
      lift_result_def list_formats_op_def split: sum.split option.split prod.split)

lemma keeps_camera_do: "mmap_contract k \<Longrightarrow> call \<noteq> OpenDevice \<Longrightarrow> keeps (camera_do k call)"
  by (cases call) (simp_all add: keeps_simple)

lemma owns_initialize:
  assumes "mmap_contract k" and "owns_exactly c" and "cam_fd c < 0"
  shows "owns_exactly (snd (initialize_camera k cfg c))"
proof -
  have rest: "keeps (camera_do_all k [QueryCapability, SetFormat w h p, InitMmapBuffers n, StartStreaming])" for w h p n
    using assms(1) by (auto intro!: keeps_bind keeps_bind_return keeps_simple)
  have "owns_exactly (snd (bind_c (open_device k) (\<lambda>_. camera_do_all k [QueryCapability, SetFormat w h p, InitMmapBuffers n, StartStreaming]) c))"
    for w h p n by (rule owns_bind [where m = "open_device k", OF owns_open [OF assms(2,3)] rest])
  with assms(2) show ?thesis
    by (simp add: initialize_camera_def throw_c_def del: camera_do_all.simps(2) split: option.split)
       (simp add: camera_do_all.simps(2) [of k OpenDevice])
qed

lemma owns_producer_calls: "mmap_contract k \<Longrightarrow> owns_exactly c \<Longrightarrow> owns_exactly (producer_calls k cfg cs c)"
proof (induction k cfg cs c rule: producer_calls.induct)
  case (2 k cfg cs c)
  then show ?case using owns_act [of k c "CaptureCopy (timeout_ms cfg)"] by simp
next
  case (3 k cfg cs c)
  let ?c = "fst (move_assign c (CameraDevice (device cfg)))"
  have "owns_exactly ?c" using owns_act [of k c "Rebuild (device cfg)"] 3 by simp
  moreover have "cam_fd ?c < 0" by (simp add: move_assign_def CameraDevice_def Let_def)
  ultimately show ?case using 3 owns_initialize by simp
qed simp

lemma keeps_run_mode:
  assumes "mmap_contract (me_kernel env)"
  shows "keeps (run_mode env cfg)"
proof -
  have "owns_exactly (snd (camera_capture_frames k fuel n t c))" if "owns_exactly c" for k fuel n t c
    using owns_capture_loop [OF that, of k fuel n t CaptureCounters] that by (simp add: camera_capture_frames_def check_c_def)
  then have "keeps (measure_op env cfg)"
    by (auto simp: keeps_def measure_op_def bind_c_def return_c_def split: prod.split outcome.split) (metis snd_conv)+
  moreover have "keeps (save_one_op env cfg)"
    using owns_gives_back [OF _ capture_to_files_gives_back] by (simp add: keeps_def save_one_op_def)
  moreover have "keeps (run_pipeline_on k cfg run)" if "mmap_contract k" for k run
    using owns_producer_calls [OF that] by (simp add: keeps_def run_pipeline_on_def)
  ultimately show ?thesis using assms by (simp add: run_mode_def keeps_simple)
qed

lemma owns_capture_session:
  assumes "mmap_contract (me_kernel env)" and "owns_exactly c" and "cam_fd c < 0"
  shows "owns_exactly (snd (capture_session env cfg c))"
  unfolding capture_session_def Let_def
  by (rule owns_bind [where m = "open_device (me_kernel env)"])
     (auto intro!: owns_open assms(2,3), auto intro!: keeps_bind keeps_when keeps_simple keeps_run_mode assms(1) split: option.split)

section \<open>The configuration a run starts with\<close>

lemma loaded_log_level:
  assumes "load_app_config files args = Inr cfg"
  shows "\<exists>lv. parse_log_level (log_level cfg) = Inr lv"
proof -
  have "validate_app_config cfg = Inr ()" using assms by (auto simp: load_app_config_def)
  then have "log_level cfg \<in> {''DEBUG'', ''INFO'', ''WARN'', ''ERROR''}"
    by (auto simp: validate_app_config_def)
  with parse_upper_case show ?thesis by blast
qed

section \<open>Properties\<close>


definition demo_main_env :: main_env where
  "demo_main_env = \<lparr>me_kernel = demo_kernel\<lparr>k_querycap := (\<lambda>tr. Some EINVAL)\<rparr>, me_driver = demo_driver, me_fuel = 5,
     me_files = (\<lambda>p. FileOk), me_config = (\<lambda>p. None), me_run = \<lparr>pr_calls = [], pr_result = None\<rparr>\<rparr>"

lemma demo_main_run: "\<exists>c. capture_main demo_main_env [] = (Some 1, Some c)"
proof -
  obtain cfg where cfg: "load_app_config (\<lambda>p. None) [] = Inr cfg" and "log_level cfg = ''INFO''"
    by (simp add: load_app_config_def find_config_arg.simps load_config_file_into_def AppConfig_def validate_app_config_def
        capture_mode_count_def tcp_enabled_def wants_set_format_def)
  then have "\<exists>lv. parse_log_level (log_level cfg) = Inr lv" using loaded_log_level by blast
  with cfg show ?thesis
    by (auto simp: capture_main_def demo_main_env_def capture_session_def open_device_def demo_kernel_def bind_c_def
        query_capability_def check_c_def throw_c_def CameraDevice_def Let_def)
qed


end
