(* ===== verification/Tcp_Sender.thy ===== *)
theory Tcp_Sender
  imports Frame_Io Tcp_Receiver
begin

unbundle bit_operations_syntax

text \<open>
  The test sender \<open>src/tcp_sender.cpp\<close>: it connects with retries and sends synthetic YUYV frames, on request
  with a payload damaged after the CRC was computed or with one malformed header.

  The clocks and the results of the system calls are arguments, as in \<open>Tcp_Send\<close>; the calls for frame
  \<open>i\<close> read the script \<open>te_script env i\<close>. Console output and the pauses between the frames are left out.
\<close>

section \<open>Command line\<close>

record tool_config =
  tl_host :: string
  tl_port :: int
  tl_frames :: int
  tl_width :: int
  tl_height :: int
  tl_format :: string
  tl_interval_ms :: int
  tl_connect_max_attempts :: int
  tl_connect_retry_delay_ms :: int
  tl_send_timeout_ms :: int
  tl_corrupt_frame_id :: int
  tl_header_fault :: string

definition default_tool_config :: tool_config where
  "default_tool_config = \<lparr>tl_host = ''127.0.0.1'', tl_port = 9000, tl_frames = 1, tl_width = 640, tl_height = 360,
     tl_format = ''YUYV'', tl_interval_ms = 33, tl_connect_max_attempts = 1, tl_connect_retry_delay_ms = 500,
     tl_send_timeout_ms = 2000, tl_corrupt_frame_id = -1, tl_header_fault = ''''\<rparr>"

definition tool_parse_int_arg :: "string \<Rightarrow> string \<Rightarrow> int result" where
  "tool_parse_int_arg text name =
     (let failure = Inl (InvalidArgument (''Invalid integer for '' @ name @ '': '' @ text)) in
      case stol text of
        Inl e \<Rightarrow> failure
      | Inr (v, pos) \<Rightarrow> if pos \<noteq> length text \<or> v \<le> 0 \<or> v > 1000000 then failure else Inr v)"

definition parse_non_negative_int_arg :: "string \<Rightarrow> string \<Rightarrow> int result" where
  "parse_non_negative_int_arg text name =
     (let failure = Inl (InvalidArgument (''Invalid integer for '' @ name @ '': '' @ text)) in
      case stol text of
        Inl e \<Rightarrow> failure
      | Inr (v, pos) \<Rightarrow> if pos \<noteq> length text \<or> v < 0 \<or> v > 1000000 then failure else Inr v)"

fun parse_tool_args :: "string list \<Rightarrow> tool_config \<Rightarrow> tool_config option result" where
  "parse_tool_args [] c = Inr (Some c)"
| "parse_tool_args (arg # args) c =
    (if arg = ''--help'' \<or> arg = ''-h'' then Inr None
     else case args of
       [] \<Rightarrow> Inl (InvalidArgument (''Unknown or incomplete argument: '' @ arg))
     | val # rest \<Rightarrow>
         if arg = ''--host'' then parse_tool_args rest (c\<lparr>tl_host := val\<rparr>)
         else if arg = ''--port'' then
           bind_r (tool_parse_int_arg val arg) (\<lambda>v. parse_tool_args rest (c\<lparr>tl_port := v\<rparr>))
         else if arg = ''--frames'' then
           bind_r (tool_parse_int_arg val arg) (\<lambda>v. parse_tool_args rest (c\<lparr>tl_frames := v\<rparr>))
         else if arg = ''--width'' then
           bind_r (tool_parse_int_arg val arg) (\<lambda>v. parse_tool_args rest (c\<lparr>tl_width := v\<rparr>))
         else if arg = ''--height'' then
           bind_r (tool_parse_int_arg val arg) (\<lambda>v. parse_tool_args rest (c\<lparr>tl_height := v\<rparr>))
         else if arg = ''--format'' then parse_tool_args rest (c\<lparr>tl_format := val\<rparr>)
         else if arg = ''--interval-ms'' then
           bind_r (tool_parse_int_arg val arg) (\<lambda>v. parse_tool_args rest (c\<lparr>tl_interval_ms := v\<rparr>))
         else if arg = ''--connect-max-attempts'' then
           bind_r (tool_parse_int_arg val arg) (\<lambda>v. parse_tool_args rest (c\<lparr>tl_connect_max_attempts := v\<rparr>))
         else if arg = ''--connect-retry-delay-ms'' then
           bind_r (parse_non_negative_int_arg val arg) (\<lambda>v. parse_tool_args rest (c\<lparr>tl_connect_retry_delay_ms := v\<rparr>))
         else if arg = ''--send-timeout-ms'' then
           bind_r (tool_parse_int_arg val arg) (\<lambda>v. parse_tool_args rest (c\<lparr>tl_send_timeout_ms := v\<rparr>))
         else if arg = ''--corrupt-frame-id'' then
           bind_r (tool_parse_int_arg val arg) (\<lambda>v. parse_tool_args rest (c\<lparr>tl_corrupt_frame_id := v\<rparr>))
         else if arg = ''--header-fault'' then parse_tool_args rest (c\<lparr>tl_header_fault := val\<rparr>)
         else Inl (InvalidArgument (''Unknown or incomplete argument: '' @ arg)))"

definition parse_format :: "string \<Rightarrow> u32 result" where
  "parse_format format =
     (if format = ''YUYV'' then Inr V4L2_PIX_FMT_YUYV
      else Inl (InvalidArgument (''Unsupported --format '' @ format @ ''. Current tcp_sender test mode only supports YUYV'')))"

section \<open>Test frames\<close>

text \<open>The loops with their counters, the running \<open>offset\<close> and the vector they fill.\<close>

function test_row :: "int \<Rightarrow> int \<Rightarrow> int \<Rightarrow> int \<Rightarrow> nat \<Rightarrow> bytes \<Rightarrow> nat \<times> bytes" where
  "test_row w frame_id y x offset payload =
     (if x < w then
        let y0 = word_of_int ((x + frame_id * 3) mod 256);
            y1 = word_of_int ((x + y + frame_id * 3) mod 256)
        in test_row w frame_id y (x + 2) (offset + 4) (store4 payload offset y0 128 y1 128)
      else (offset, payload))"
  by pat_completeness auto
termination by (relation "measure (\<lambda>(w, f, y, x, off, p). nat (w - x))") auto

function test_rows :: "int \<Rightarrow> int \<Rightarrow> int \<Rightarrow> int \<Rightarrow> nat \<Rightarrow> bytes \<Rightarrow> bytes" where
  "test_rows w h frame_id y offset payload =
     (if y < h then
        (case test_row w frame_id y 0 offset payload of
           (offset, payload) \<Rightarrow> test_rows w h frame_id (y + 1) offset payload)
      else payload)"
  by pat_completeness auto
termination by (relation "measure (\<lambda>(w, h, f, y, off, p). nat (h - y))") auto

declare test_row.simps [simp del] test_rows.simps [simp del]

definition make_test_yuyv_payload :: "int \<Rightarrow> int \<Rightarrow> int \<Rightarrow> bytes result" where
  "make_test_yuyv_payload w h frame_id =
     throw_if (w \<le> 0 \<or> h \<le> 0) (InvalidArgument ''width and height must be positive'')
     (throw_if (w mod 2 \<noteq> 0) (InvalidArgument ''YUYV width must be even'')
     (Inr (test_rows w h frame_id 0 0 (replicate (nat w * nat h * 2) 0))))"

definition apply_header_fault :: "frame_header \<Rightarrow> string \<Rightarrow> frame_header result" where
  "apply_header_fault header fault =
     (if fault = ''bad-magic'' then Inr (header\<lparr>hdr_magic := hdr_magic header XOR 1\<rparr>)
      else if fault = ''bad-version'' then Inr (header\<lparr>hdr_version := hdr_version header + 1\<rparr>)
      else if fault = ''bad-header-size'' then Inr (header\<lparr>hdr_header_size := 1\<rparr>)
      else if fault = ''zero-width'' then Inr (header\<lparr>hdr_width := 0\<rparr>)
      else if fault = ''oversized-payload'' then Inr (header\<lparr>hdr_payload_size := kDefaultMaxPayloadBytes + 1\<rparr>)
      else if fault = ''yuyv-size-mismatch'' then
        (if hdr_payload_size header \<le> 2 then Inl (RuntimeError ''payload too small for yuyv-size-mismatch fault'')
         else Inr (header\<lparr>hdr_payload_size := hdr_payload_size header - 2\<rparr>))
      else Inl (InvalidArgument (''Unsupported --header-fault: '' @ fault @
        ''. Expected bad-magic, bad-version, bad-header-size, zero-width, oversized-payload, or yuyv-size-mismatch'')))"

section \<open>Connecting\<close>

definition connect_to_server :: "(errno \<Rightarrow> string) \<Rightarrow> string \<Rightarrow> connect_env \<Rightarrow> int result" where
  "connect_to_server strerror host e =
     throw_if (socket_ret e < 0) (RuntimeError (''socket failed: '' @ strerror (socket_errno e)))
     (throw_if (inet_pton_ret e \<noteq> 1) (InvalidArgument (''Invalid IPv4 address for --host: '' @ host))
     (throw_if (connect_ret e < 0) (RuntimeError (''connect failed: '' @ strerror (connect_errno e)))
     (Inr (socket_ret e))))"

text \<open>One element of the script per attempt; \<open>None\<close> is an attempt that has not returned.\<close>

fun server_attempts ::
    "(errno \<Rightarrow> string) \<Rightarrow> string \<Rightarrow> int \<Rightarrow> int \<Rightarrow> int \<Rightarrow> string \<Rightarrow> connect_env list \<Rightarrow> int result option" where
  "server_attempts strerror host port_n max_attempts attempt last_err es =
     (let failure = Some (Inl (RuntimeError (''connect to '' @ host @ '':'' @ to_string_int port_n @ '' failed after '' @
        to_string_int max_attempts @ '' attempt(s): '' @ last_err)))
      in if attempt > max_attempts then failure
      else case es of
        [] \<Rightarrow> None
      | e # es' \<Rightarrow>
          (case connect_to_server strerror host e of
             Inr fd \<Rightarrow> Some (Inr fd)
           | Inl x \<Rightarrow>
               if attempt \<ge> max_attempts then
                 Some (Inl (RuntimeError (''connect to '' @ host @ '':'' @ to_string_int port_n @ '' failed after '' @
                   to_string_int max_attempts @ '' attempt(s): '' @ what x)))
               else server_attempts strerror host port_n max_attempts (attempt + 1) (what x) es'))"

declare server_attempts.simps [simp del]

definition connect_to_server_with_retry ::
    "(errno \<Rightarrow> string) \<Rightarrow> string \<Rightarrow> int \<Rightarrow> int \<Rightarrow> connect_env list \<Rightarrow> int result option" where
  "connect_to_server_with_retry strerror host port_n max_attempts es =
     server_attempts strerror host port_n max_attempts 1 [] es"

section \<open>Sending\<close>

record tool_env =
  te_now_ns :: "nat \<Rightarrow> u64"
  te_send_now :: "nat \<Rightarrow> int"
  te_script :: "nat \<Rightarrow> send_env list"

datatype tool_end = ToolDone nat | ToolThrew exn | ToolBlocked

definition test_header :: "tool_config \<Rightarrow> tool_env \<Rightarrow> u32 \<Rightarrow> nat \<Rightarrow> bytes \<Rightarrow> frame_header" where
  "test_header cfg env pixfmt i payload =
     make_header (of_nat i) (te_now_ns env i) (word_of_int (tl_width cfg)) (word_of_int (tl_height cfg)) pixfmt
       (of_nat (length payload)) (compute_crc32 payload)"

definition tool_send :: "(errno \<Rightarrow> string) \<Rightarrow> int \<Rightarrow> bytes \<Rightarrow> int \<Rightarrow> send_env list \<Rightarrow> send_outcome" where
  "tool_send strerror fd data deadline es =
     send_all_until strerror fd (Some data) (length data) deadline False default_poll_slice es"

definition corrupt_payload :: "bytes \<Rightarrow> bytes" where
  "corrupt_payload payload =
     payload[length payload div 2 := payload ! (length payload div 2) XOR 0x01]"

text \<open>One turn of the frame loop that sends a frame: how it ends and the bytes the kernel took.\<close>

definition send_test_frame ::
    "(errno \<Rightarrow> string) \<Rightarrow> int \<Rightarrow> tool_config \<Rightarrow> tool_env \<Rightarrow> nat \<Rightarrow> frame_header \<Rightarrow> bytes \<Rightarrow> send_status \<times> bytes" where
  "send_test_frame strerror fd cfg env i header payload =
     (let wire_header = serialize_header header;
          deadline = te_send_now env i + tl_send_timeout_ms cfg * 1000000;
          r1 = tool_send strerror fd wire_header deadline (te_script env i)
      in case status r1 of
           Threw x \<Rightarrow> (Threw x, wire r1)
         | Blocked \<Rightarrow> (Blocked, wire r1)
         | Returned \<Rightarrow>
             (let r2 = tool_send strerror fd payload deadline (script_left r1) in (status r2, wire r1 @ wire r2)))"

text \<open>The frame loop: \<open>n\<close> turns are left.\<close>

fun tool_loop ::
    "(errno \<Rightarrow> string) \<Rightarrow> int \<Rightarrow> tool_config \<Rightarrow> tool_env \<Rightarrow> u32 \<Rightarrow> nat \<Rightarrow> nat \<Rightarrow> nat \<Rightarrow> bytes \<Rightarrow> tool_end \<times> bytes" where
  "tool_loop strerror fd cfg env pixfmt 0 i sent_bytes out = (ToolDone sent_bytes, out)"
| "tool_loop strerror fd cfg env pixfmt (Suc n) i sent_bytes out =
     (case make_test_yuyv_payload (tl_width cfg) (tl_height cfg) (int i) of
        Inl e \<Rightarrow> (ToolThrew e, out)
      | Inr payload \<Rightarrow>
          (let header = test_header cfg env pixfmt i payload in
           if tl_header_fault cfg \<noteq> [] then
             (case apply_header_fault header (tl_header_fault cfg) of
                Inl e \<Rightarrow> (ToolThrew e, out)
              | Inr header \<Rightarrow>
                  (let wire_header = serialize_header header;
                       r = send_all_with_timeout strerror fd (Some wire_header) (length wire_header) (te_send_now env i)
                             (tl_send_timeout_ms cfg) False default_poll_slice (te_script env i)
                   in (case status r of
                         Returned \<Rightarrow> ToolDone (sent_bytes + length wire_header)
                       | Threw e \<Rightarrow> ToolThrew e
                       | Blocked \<Rightarrow> ToolBlocked, out @ wire r)))
           else if int i = tl_corrupt_frame_id cfg \<and> payload = [] then
             (ToolThrew (RuntimeError ''cannot corrupt an empty payload''), out)
           else
             (let payload = (if int i = tl_corrupt_frame_id cfg then corrupt_payload payload else payload) in
              case send_test_frame strerror fd cfg env i header payload of
                (Threw e, w) \<Rightarrow> (ToolThrew e, out @ w)
              | (Blocked, w) \<Rightarrow> (ToolBlocked, out @ w)
              | (Returned, w) \<Rightarrow>
                  tool_loop strerror fd cfg env pixfmt n (i + 1)
                    (sent_bytes + (kWireHeaderSize + length payload)) (out @ w))))"

text \<open>\<open>main\<close>: the exit code (\<open>None\<close> while it waits) and the bytes sent on the connection.\<close>

definition tool_main ::
    "(errno \<Rightarrow> string) \<Rightarrow> string list \<Rightarrow> connect_env list \<Rightarrow> tool_env \<Rightarrow> int option \<times> bytes" where
  "tool_main strerror args connects env =
     (case parse_tool_args args default_tool_config of
        Inl e \<Rightarrow> (Some 1, [])
      | Inr None \<Rightarrow> (Some 0, [])
      | Inr (Some cfg) \<Rightarrow>
          (case parse_format (tl_format cfg) of
             Inl e \<Rightarrow> (Some 1, [])
           | Inr pixfmt \<Rightarrow>
               if tl_header_fault cfg \<noteq> [] \<and> tl_frames cfg \<noteq> 1 then (Some 1, [])
               else case connect_to_server_with_retry strerror (tl_host cfg) (tl_port cfg) (tl_connect_max_attempts cfg) connects of
                 None \<Rightarrow> (None, [])
               | Some (Inl e) \<Rightarrow> (Some 1, [])
               | Some (Inr fd) \<Rightarrow>
                   (case tool_loop strerror fd cfg env pixfmt (nat (tl_frames cfg)) 0 0 [] of
                      (ToolDone n, out) \<Rightarrow> (Some 0, out)
                    | (ToolThrew e, out) \<Rightarrow> (Some 1, out)
                    | (ToolBlocked, out) \<Rightarrow> (None, out))))"

section \<open>The frames of the tool\<close>

definition test_payload :: "tool_config \<Rightarrow> nat \<Rightarrow> bytes" where
  "test_payload cfg i =
     test_rows (tl_width cfg) (tl_height cfg) (int i) 0 0 (replicate (nat (tl_width cfg) * nat (tl_height cfg) * 2) 0)"

definition test_frame :: "tool_config \<Rightarrow> tool_env \<Rightarrow> nat \<Rightarrow> frame_header \<times> bytes" where
  "test_frame cfg env i =
     (test_header cfg env V4L2_PIX_FMT_YUYV i (test_payload cfg i),
      if int i = tl_corrupt_frame_id cfg then corrupt_payload (test_payload cfg i) else test_payload cfg i)"

lemma length_test_row: "length (snd (test_row w f y x off p)) = length p"
proof (induction w f y x off p rule: test_row.induct)
  case (1 w f y x off p)
  then show ?case by (subst test_row.simps) (simp add: Let_def)
qed

lemma length_test_rows: "length (test_rows w h f y off p) = length p"
proof (induction w h f y off p rule: test_rows.induct)
  case (1 w h f y off p)
  then show ?case using length_test_row [of w f y 0 off p] by (subst test_rows.simps) (auto split: prod.split)
qed

lemma length_test_payload [simp]: "length (test_payload cfg i) = nat (tl_width cfg) * nat (tl_height cfg) * 2"
  by (simp add: test_payload_def length_test_rows)

lemma length_corrupt_payload [simp]: "length (corrupt_payload p) = length p"
  by (simp add: corrupt_payload_def)

lemma make_payload_ok:
  "make_test_yuyv_payload (tl_width cfg) (tl_height cfg) (int i) = Inr p \<longleftrightarrow>
     0 < tl_width cfg \<and> 0 < tl_height cfg \<and> even (tl_width cfg) \<and> p = test_payload cfg i"
  by (auto simp: make_test_yuyv_payload_def test_payload_def even_iff_mod_2_eq_zero)

text \<open>Dimensions the protocol allows, and clocks that do not read zero.\<close>

definition frames_allowed :: "tool_config \<Rightarrow> tool_env \<Rightarrow> bool" where
  "frames_allowed cfg env \<longleftrightarrow> tl_width cfg \<le> 16384 \<and> tl_height cfg \<le> 16384 \<and>
     tl_width cfg * tl_height cfg \<le> 8388608 \<and> (\<forall>i. te_now_ns env i \<noteq> 0)"

lemma unat_word_of_int: "0 \<le> v \<Longrightarrow> v \<le> 16384 \<Longrightarrow> unat (word_of_int v :: u32) = nat v"
  by (simp add: unsigned_of_int take_bit_int_eq_self)

lemma test_header_valid:
  assumes "frames_allowed cfg env" and "0 < tl_width cfg" and "0 < tl_height cfg" and "even (tl_width cfg)"
  shows "validate_header (test_header cfg env V4L2_PIX_FMT_YUYV i (test_payload cfg i)) kDefaultMaxPayloadBytes = None"
    and "unat (hdr_payload_size (test_header cfg env V4L2_PIX_FMT_YUYV i (test_payload cfg i))) = length (test_payload cfg i)"
proof -
  let ?w = "nat (tl_width cfg)" and ?h = "nat (tl_height cfg)"
  have dims: "1 \<le> ?w" "?w \<le> 16384" "1 \<le> ?h" "?h \<le> 16384" "even ?w" using assms by (auto simp: frames_allowed_def even_nat_iff)
  have "int (?w * ?h) \<le> 8388608" using assms by (simp add: frames_allowed_def)
  then have size: "?w * ?h * 2 \<le> 16777216" by linarith
  have pos: "1 \<le> ?w * ?h * 2" using dims(1,3) by (metis mult_le_mono mult_1 nat_mult_1_right one_le_numeral)
  have wh: "unat (word_of_int (tl_width cfg) :: u32) = ?w" "unat (word_of_int (tl_height cfg) :: u32) = ?h"
    using assms by (simp_all add: unat_word_of_int frames_allowed_def)
  have "unat (of_nat (?w * ?h * 2) :: u32) = ?w * ?h * 2"
    using size by (intro unat_of_nat_small) simp
  then show ps: "unat (hdr_payload_size (test_header cfg env V4L2_PIX_FMT_YUYV i (test_payload cfg i))) = length (test_payload cfg i)"
    by (simp only: test_header_def make_header_def length_test_payload frame_header.simps)
  define hd where "hd = test_header cfg env V4L2_PIX_FMT_YUYV i (test_payload cfg i)"
  have fields: "hdr_magic hd = kMagic" "unat (hdr_header_size hd) = kWireHeaderSize" "hdr_version hd = kVersion"
    "hdr_capture_timestamp_ns hd \<noteq> 0" "unat (hdr_width hd) = ?w" "unat (hdr_height hd) = ?h"
    "hdr_pixel_format hd = V4L2_PIX_FMT_YUYV"
    using assms(1) wh by (simp_all add: hd_def test_header_def make_header_def frames_allowed_def kWireHeaderSize_def)
  have "unat (hdr_payload_size hd) = ?w * ?h * 2" using ps by (simp only: hd_def length_test_payload)
  with dims size pos fields have "validate_header hd kDefaultMaxPayloadBytes = None"
    by (simp add: validate_header_iff header_acceptable_def kDefaultMaxPayloadBytes_def V4L2_PIX_FMT_YUYV_def)
  then show "validate_header (test_header cfg env V4L2_PIX_FMT_YUYV i (test_payload cfg i)) kDefaultMaxPayloadBytes = None"
    by (simp only: hd_def)
qed

lemma test_frame_good:
  assumes "frames_allowed cfg env" and "0 < tl_width cfg" and "0 < tl_height cfg" and "even (tl_width cfg)"
  shows "good_frame kDefaultMaxPayloadBytes (test_header cfg env V4L2_PIX_FMT_YUYV i (test_payload cfg i), test_payload cfg i)"
  using test_header_valid [OF assms, of i] by (simp add: good_frame_def) (simp add: test_header_def make_header_def)

text \<open>Every fault the tool can inject makes the header invalid for a receiver with the default limit.\<close>

lemma word_xor_1_neq: "(w :: u32) XOR 1 \<noteq> w"
  by (metis xor_cancel_left xor.right_neutral zero_neq_one)

lemma word_xor_byte_neq: "(w :: u8) XOR 1 \<noteq> w"
  by (metis xor_cancel_left xor.right_neutral zero_neq_one)

lemma header_fault_refused:
  assumes "apply_header_fault h fault = Inr h'" and "validate_header h kDefaultMaxPayloadBytes = None"
    and "hdr_pixel_format h = V4L2_PIX_FMT_YUYV"
  shows "validate_header h' kDefaultMaxPayloadBytes \<noteq> None"
proof -
  note ok = assms(2) [unfolded validate_header_iff header_acceptable_def]
  have v: "hdr_version h + 1 \<noteq> kVersion" using ok by (simp add: kVersion_def)
  have sub: "2 < hdr_payload_size h \<Longrightarrow> unat (hdr_payload_size h - 2) = unat (hdr_payload_size h) - 2"
    by (subst unat_sub) (simp_all add: word_le_nat_alt word_less_nat_alt)
  show ?thesis
    using assms(1,3) ok v sub word_xor_1_neq [of kMagic]
    by (auto simp: apply_header_fault_def validate_header_iff header_acceptable_def kWireHeaderSize_def
        kDefaultMaxPayloadBytes_def not_le word_less_nat_alt split: if_splits)
qed

section \<open>What reaches the connection\<close>

text \<open>What the kernel promises for the sends of every frame, see \<open>send_contract\<close>.\<close>

definition tool_contract :: "(errno \<Rightarrow> string) \<Rightarrow> tool_config \<Rightarrow> tool_env \<Rightarrow> bool" where
  "tool_contract strerror cfg env \<longleftrightarrow> (\<forall>i. send_contract kWireHeaderSize 0 (te_script env i) \<and>
     (\<forall>fd hd deadline. 0 \<le> fd \<and> length hd = kWireHeaderSize \<longrightarrow>
        send_contract (nat (tl_width cfg) * nat (tl_height cfg) * 2) 0
          (script_left (tool_send strerror fd hd deadline (te_script env i)))))"

lemma tool_send_all:
  assumes "0 \<le> fd" and "send_contract (length data) 0 es" and "status (tool_send strerror fd data deadline es) = Returned"
  shows "wire (tool_send strerror fd data deadline es) = data"
  using send_loop_prefix [OF assms(2), of "[]" "tool_send strerror fd data deadline es" strerror deadline False default_poll_slice]
    assms(1,3)
  by (simp add: tool_send_def send_all_until_def default_poll_slice_def)

lemma send_test_frame_bytes:
  assumes "0 \<le> fd" and "tool_contract strerror cfg env" and "length p = nat (tl_width cfg) * nat (tl_height cfg) * 2"
    and "send_test_frame strerror fd cfg env i h p = (Returned, w)"
  shows "w = frame_bytes (h, p)"
proof -
  let ?d = "te_send_now env i + tl_send_timeout_ms cfg * 1000000"
  let ?r1 = "tool_send strerror fd (serialize_header h) ?d (te_script env i)"
  let ?r2 = "tool_send strerror fd p ?d (script_left ?r1)"
  have r: "status ?r1 = Returned" "status ?r2 = Returned" "w = wire ?r1 @ wire ?r2"
    using assms(4) by (auto simp: send_test_frame_def Let_def split: send_status.splits)
  have "wire ?r1 = serialize_header h" using assms(1,2) r(1) by (intro tool_send_all) (simp_all add: tool_contract_def)
  moreover have "wire ?r2 = p" using assms(1,2,3) r(2) by (intro tool_send_all) (simp_all add: tool_contract_def)
  ultimately show ?thesis using r(3) by (simp add: frame_bytes_def)
qed

lemma tool_loop_frames:
  assumes "0 \<le> fd" and "tool_contract strerror cfg env" and "tl_header_fault cfg = []"
  shows "tool_loop strerror fd cfg env V4L2_PIX_FMT_YUYV n i sent out = (ToolDone k, out') \<Longrightarrow>
    out' = out @ concat (map (\<lambda>i. frame_bytes (test_frame cfg env i)) [i..<i + n]) \<and>
    (0 < n \<longrightarrow> 0 < tl_width cfg \<and> 0 < tl_height cfg \<and> even (tl_width cfg))"
proof (induction n arbitrary: i sent out)
  case (Suc n)
  let ?h = "test_header cfg env V4L2_PIX_FMT_YUYV i (test_payload cfg i)"
  let ?p = "if int i = tl_corrupt_frame_id cfg then corrupt_payload (test_payload cfg i) else test_payload cfg i"
  obtain p where "make_test_yuyv_payload (tl_width cfg) (tl_height cfg) (int i) = Inr p"
    using Suc.prems by (auto split: sum.splits)
  then have ok: "make_test_yuyv_payload (tl_width cfg) (tl_height cfg) (int i) = Inr (test_payload cfg i)"
    and dims: "0 < tl_width cfg" "0 < tl_height cfg" "even (tl_width cfg)" by (auto simp: make_payload_ok)
  from Suc.prems obtain w s' where send: "send_test_frame strerror fd cfg env i ?h ?p = (Returned, w)"
    and rest: "tool_loop strerror fd cfg env V4L2_PIX_FMT_YUYV n (i + 1) s' (out @ w) = (ToolDone k, out')"
    by (auto simp: ok assms(3) Let_def split: if_splits prod.splits send_status.splits)
  have "w = frame_bytes (?h, ?p)" by (rule send_test_frame_bytes [OF assms(1,2) _ send]) simp
  moreover have "[i..<i + Suc n] = i # [i + 1..<i + 1 + n]" by (simp add: upt_conv_Cons)
  ultimately show ?case using Suc.IH [OF rest] dims by (simp add: test_frame_def del: upt_Suc)
qed simp

lemma connected_fd:
  "server_attempts strerror host port_n m a l es = Some (Inr fd) \<Longrightarrow> 0 \<le> fd"
proof (induction es arbitrary: a l)
  case Nil
  then show ?case by (subst (asm) server_attempts.simps) (simp add: Let_def split: if_splits)
next
  case (Cons e es)
  then show ?case
    by (subst (asm) server_attempts.simps)
       (auto simp: Let_def connect_to_server_def throw_if_def not_less split: if_splits sum.splits)
qed

lemma tool_main_parts:
  assumes "tool_main strerror args connects env = (Some 0, out)" and "parse_tool_args args default_tool_config = Inr (Some cfg)"
  obtains fd k where "0 \<le> fd" "tl_header_fault cfg \<noteq> [] \<longrightarrow> tl_frames cfg = 1"
    "tool_loop strerror fd cfg env V4L2_PIX_FMT_YUYV (nat (tl_frames cfg)) 0 0 [] = (ToolDone k, out)"
proof -
  from assms obtain fd k where c: "server_attempts strerror (tl_host cfg) (tl_port cfg) (tl_connect_max_attempts cfg) 1 [] connects = Some (Inr fd)"
    and "tl_header_fault cfg \<noteq> [] \<longrightarrow> tl_frames cfg = 1"
      "tool_loop strerror fd cfg env V4L2_PIX_FMT_YUYV (nat (tl_frames cfg)) 0 0 [] = (ToolDone k, out)"
    by (auto simp: tool_main_def parse_format_def connect_to_server_with_retry_def
        split: sum.splits option.splits if_splits prod.splits tool_end.splits)
  with connected_fd [OF c] that show thesis by blast
qed

lemma tool_loop_fault:
  assumes "0 \<le> fd" and "tool_contract strerror cfg env" and "tl_header_fault cfg \<noteq> []" and "frames_allowed cfg env"
    and "tool_loop strerror fd cfg env V4L2_PIX_FMT_YUYV 1 0 0 [] = (ToolDone k, out)"
  shows "\<exists>h. out = serialize_header h \<and> validate_header h kDefaultMaxPayloadBytes \<noteq> None"
proof -
  let ?h = "test_header cfg env V4L2_PIX_FMT_YUYV 0 (test_payload cfg 0)"
  obtain p where "make_test_yuyv_payload (tl_width cfg) (tl_height cfg) (int 0) = Inr p"
    using assms(5) by (auto split: sum.splits)
  then have ok: "make_test_yuyv_payload (tl_width cfg) (tl_height cfg) 0 = Inr (test_payload cfg 0)"
    and dims: "0 < tl_width cfg" "0 < tl_height cfg" "even (tl_width cfg)" by (auto simp: make_payload_ok [of cfg 0, simplified])
  obtain h where h: "apply_header_fault ?h (tl_header_fault cfg) = Inr h"
    using assms(3,5) by (auto simp: ok Let_def split: sum.splits)
  let ?r = "tool_send strerror fd (serialize_header h) (te_send_now env 0 + tl_send_timeout_ms cfg * 1000000) (te_script env 0)"
  have r: "status ?r = Returned \<and> out = wire ?r"
    using assms(3,5) h
    by (auto simp: ok Let_def send_all_with_timeout_def failed_send_def tool_send_def split: if_splits send_status.splits)
  then have "out = serialize_header h"
    using tool_send_all [of fd "serialize_header h" "te_script env 0" strerror] assms(1,2) by (simp add: tool_contract_def)
  moreover have "hdr_pixel_format ?h = V4L2_PIX_FMT_YUYV" by (simp add: test_header_def make_header_def)
  ultimately show ?thesis using header_fault_refused [OF h] test_header_valid(1) [OF assms(4) dims, of 0] by auto
qed

section \<open>Properties\<close>


definition sample_send :: "int \<Rightarrow> send_env" where
  "sample_send n = \<lparr>stop_at_top = False, now_at_top = 0, send_ret = n, send_errno = EAGAIN, stop_after_send = False,
     now_for_wait = 0, poll_ret = 1, poll_errno = EINTR, poll_revents = POLLOUT, getsockopt_ret = 0, so_error = None\<rparr>"

definition sample_tool_env :: tool_env where
  "sample_tool_env = \<lparr>te_now_ns = (\<lambda>i. 5000), te_send_now = (\<lambda>i. 0), te_script = (\<lambda>i. [sample_send 40, sample_send 4])\<rparr>"

definition sample_connect :: connect_env where
  "sample_connect = \<lparr>socket_ret = 3, socket_errno = EINTR, inet_pton_ret = 1, connect_ret = 0, connect_errno = EINTR\<rparr>"

lemma sample_tool_run:
  "\<exists>out. tool_main (\<lambda>n. ''error'') [''--header-fault'', ''bad-magic''] [sample_connect] sample_tool_env = (Some 0, out)"
proof -
  let ?cfg = "default_tool_config\<lparr>tl_header_fault := ''bad-magic''\<rparr>"
  have p: "make_test_yuyv_payload 640 360 0 = Inr (test_payload ?cfg 0)"
    using make_payload_ok [of ?cfg 0] by (simp add: default_tool_config_def)
  show ?thesis
    by (simp add: tool_main_def default_tool_config_def parse_format_def connect_to_server_with_retry_def
        server_attempts.simps sample_connect_def connect_to_server_def p apply_header_fault_def send_all_with_timeout_def
        send_all_until_def default_poll_slice_def sample_tool_env_def sample_send_def send_iter_def cancellation_requested_def
        kWireHeaderSize_def Let_def)
qed

lemma sample_tool_contract: "tool_contract strerror (default_tool_config\<lparr>tl_header_fault := f\<rparr>) sample_tool_env"
  by (auto simp: tool_contract_def sample_tool_env_def sample_send_def kWireHeaderSize_def tool_send_def send_all_until_def
      default_poll_slice_def send_iter_def cancellation_requested_def default_tool_config_def)


end
