(* ===== verification/Diagnostics_Node.thy ===== *)
theory Diagnostics_Node
  imports Tcp_Receiver Yuyv Stats_Json
begin

unbundle bit_operations_syntax

text \<open>
  The ROS 2 adapter, \<open>TcpDiagnosticsNode\<close> of \<open>tcp_diagnostics_node.cpp\<close>: a thread that accepts senders one after
  the other, reads and checks their frames and publishes them as images, a timer that publishes diagnostics,
  and the destructor that stops the thread.

  The members of the class are the record \<open>node\<close>; it also counts the reads of the environment (\<open>nd_tick\<close>), and
  the answer of every read is a function of that count: the stop flag, \<open>poll\<close>, \<open>recv\<close>, \<open>accept\<close>, the clock
  and the publishers. The loops run on fuel; \<open>ReadPending\<close>, \<open>ClientPending\<close> and \<open>LoopPending\<close> say that it was used
  up. The log output is left out. What the parameter server and the publishers do is an argument.
\<close>

section \<open>Parameters\<close>

text \<open>A \<open>double\<close> parameter may be any value the type has.\<close>

datatype ros_double = Fin real | PosInf | NegInf | NotANumber

fun positive_d :: "ros_double \<Rightarrow> bool" where
  "positive_d (Fin x) = (x > 0)"
| "positive_d PosInf = True"
| "positive_d _ = False"

fun negative_d :: "ros_double \<Rightarrow> bool" where
  "negative_d (Fin x) = (x < 0)"
| "negative_d NegInf = True"
| "negative_d _ = False"

fun isfinite :: "ros_double \<Rightarrow> bool" where
  "isfinite (Fin x) = True"
| "isfinite _ = False"

fun real_of_d :: "ros_double \<Rightarrow> real" where
  "real_of_d (Fin x) = x"
| "real_of_d _ = 0"

record node_config =
  nc_listen_address :: string
  nc_listen_port :: int
  nc_max_payload_bytes :: int
  nc_publish_period_ms :: int
  nc_socket_poll_timeout_ms :: int
  nc_max_frames :: int
  nc_max_sessions :: int
  nc_diagnostic_topic :: string
  nc_publish_images :: bool
  nc_image_topic :: string
  nc_camera_info_topic :: string
  nc_camera_frame_id :: string
  nc_output_encoding :: string
  nc_image_qos_reliability :: string
  nc_image_qos_depth :: int
  nc_fx :: ros_double
  nc_fy :: ros_double
  nc_cx :: ros_double
  nc_cy :: ros_double
  nc_k1 :: ros_double
  nc_k2 :: ros_double
  nc_p1 :: ros_double
  nc_p2 :: ros_double
  nc_k3 :: ros_double

text \<open>The defaults of the declared parameters.\<close>

definition default_node_config :: node_config where
  "default_node_config = \<lparr>nc_listen_address = ''0.0.0.0'', nc_listen_port = 9800,
     nc_max_payload_bytes = uint kDefaultMaxPayloadBytes, nc_publish_period_ms = 1000, nc_socket_poll_timeout_ms = 200,
     nc_max_frames = 0, nc_max_sessions = 0, nc_diagnostic_topic = ''/camera_link/diagnostics'',
     nc_publish_images = True, nc_image_topic = ''/camera/image_raw'', nc_camera_info_topic = ''/camera/camera_info'',
     nc_camera_frame_id = ''camera_optical_frame'', nc_output_encoding = ''rgb8'',
     nc_image_qos_reliability = ''best_effort'', nc_image_qos_depth = 5, nc_fx = Fin 0, nc_fy = Fin 0, nc_cx = Fin 0,
     nc_cy = Fin 0, nc_k1 = Fin 0, nc_k2 = Fin 0, nc_p1 = Fin 0, nc_p2 = Fin 0, nc_k3 = Fin 0\<rparr>"

definition camera_calibrated :: "node_config \<Rightarrow> bool" where
  "camera_calibrated cfg = (positive_d (nc_fx cfg) \<and> positive_d (nc_fy cfg))"

definition calibration_values :: "node_config \<Rightarrow> ros_double list" where
  "calibration_values cfg = [nc_fx cfg, nc_fy cfg, nc_cx cfg, nc_cy cfg, nc_k1 cfg, nc_k2 cfg, nc_p1 cfg, nc_p2 cfg, nc_k3 cfg]"

definition validate_parameters :: "node_config \<Rightarrow> unit result" where
  "validate_parameters cfg =
     throw_if (nc_listen_address cfg = []) (InvalidArgument ''listen_address must not be empty'')
     (throw_if (nc_listen_port cfg \<le> 0 \<or> nc_listen_port cfg > 65535)
        (InvalidArgument ''listen_port must be between 1 and 65535'')
     (throw_if (nc_max_payload_bytes cfg \<le> 0 \<or> nc_max_payload_bytes cfg > 2 ^ 32 - 1)
        (InvalidArgument ''max_payload_bytes must fit in a positive uint32 value'')
     (throw_if (nc_publish_period_ms cfg < 50 \<or> nc_publish_period_ms cfg > 60000)
        (InvalidArgument ''publish_period_ms must be between 50 and 60000'')
     (throw_if (nc_socket_poll_timeout_ms cfg < 10 \<or> nc_socket_poll_timeout_ms cfg > 5000)
        (InvalidArgument ''socket_poll_timeout_ms must be between 10 and 5000'')
     (throw_if (nc_max_frames cfg < 0) (InvalidArgument ''max_frames must be non-negative'')
     (throw_if (nc_max_sessions cfg < 0) (InvalidArgument ''max_sessions must be non-negative'')
     (throw_if (nc_diagnostic_topic cfg = []) (InvalidArgument ''diagnostic_topic must not be empty'')
     (throw_if (nc_publish_images cfg \<and> nc_image_topic cfg = []) (InvalidArgument ''image_topic must not be empty'')
     (throw_if (nc_publish_images cfg \<and> nc_camera_info_topic cfg = [])
        (InvalidArgument ''camera_info_topic must not be empty'')
     (throw_if (nc_publish_images cfg \<and> nc_camera_frame_id cfg = [])
        (InvalidArgument ''camera_frame_id must not be empty'')
     (throw_if (nc_publish_images cfg \<and> nc_output_encoding cfg \<noteq> ''rgb8'' \<and> nc_output_encoding cfg \<noteq> ''mono8'' \<and>
          nc_output_encoding cfg \<noteq> ''yuv422_yuy2'')
        (InvalidArgument ''output_encoding must be rgb8, mono8, or yuv422_yuy2'')
     (throw_if (nc_publish_images cfg \<and> nc_image_qos_reliability cfg \<noteq> ''best_effort'' \<and>
          nc_image_qos_reliability cfg \<noteq> ''reliable'')
        (InvalidArgument ''image_qos_reliability must be best_effort or reliable'')
     (throw_if (nc_publish_images cfg \<and> (nc_image_qos_depth cfg < 1 \<or> nc_image_qos_depth cfg > 1000))
        (InvalidArgument ''image_qos_depth must be between 1 and 1000'')
     (throw_if (positive_d (nc_fx cfg) \<noteq> positive_d (nc_fy cfg))
        (InvalidArgument ''camera_fx and camera_fy must both be positive or both be zero'')
     (throw_if (negative_d (nc_cx cfg) \<or> negative_d (nc_cy cfg))
        (InvalidArgument ''camera_cx and camera_cy must be non-negative'')
     (throw_if (\<exists>v \<in> set (calibration_values cfg). \<not> isfinite v)
        (InvalidArgument ''camera calibration parameters must be finite'')
     (Inr ())))))))))))))))))"

section \<open>The constructor\<close>

text \<open>What the constructor makes: the publishers with their quality of service, and the period of the timer.\<close>

record publisher_qos =
  qos_depth :: nat
  qos_reliable :: bool

record publisher =
  pub_topic :: string
  pub_qos :: publisher_qos

record node_parts =
  np_diagnostics :: publisher
  np_image :: "publisher option"
  np_camera_info :: "publisher option"
  np_period_ms :: int

definition image_qos :: "node_config \<Rightarrow> publisher_qos" where
  "image_qos cfg = \<lparr>qos_depth = nat (nc_image_qos_depth cfg), qos_reliable = (nc_image_qos_reliability cfg = ''reliable'')\<rparr>"

definition TcpDiagnosticsNode :: "node_config \<Rightarrow> node_parts result" where
  "TcpDiagnosticsNode cfg =
     bind_r (validate_parameters cfg) (\<lambda>_. Inr
       \<lparr>np_diagnostics = \<lparr>pub_topic = nc_diagnostic_topic cfg, pub_qos = \<lparr>qos_depth = 10, qos_reliable = True\<rparr>\<rparr>,
        np_image = (if nc_publish_images cfg then Some \<lparr>pub_topic = nc_image_topic cfg, pub_qos = image_qos cfg\<rparr> else None),
        np_camera_info =
          (if nc_publish_images cfg then Some \<lparr>pub_topic = nc_camera_info_topic cfg, pub_qos = image_qos cfg\<rparr> else None),
        np_period_ms = nc_publish_period_ms cfg\<rparr>)"

section \<open>Messages\<close>

record ros_time =
  rt_sec :: "32 word"
  rt_nanosec :: u32

record ros_image =
  img_stamp :: ros_time
  img_frame_id :: string
  img_height :: u32
  img_width :: u32
  img_encoding :: string
  img_is_bigendian :: u8
  img_step :: u32
  img_data :: bytes

record camera_info =
  nfo_stamp :: ros_time
  nfo_frame_id :: string
  nfo_width :: u32
  nfo_height :: u32
  nfo_distortion_model :: string
  nfo_d :: "real list"
  nfo_k :: "real list"
  nfo_r :: "real list"
  nfo_p :: "real list"

text \<open>\<open>sec\<close> is a signed 32-bit field; the word holds its two's complement.\<close>

definition to_ros_time :: "u64 \<Rightarrow> ros_time" where
  "to_ros_time timestamp_ns =
     \<lparr>rt_sec = ucast (timestamp_ns div 1000000000), rt_nanosec = ucast (timestamp_ns mod 1000000000)\<rparr>"

definition node_fourcc_to_string :: "u32 \<Rightarrow> string" where
  "node_fourcc_to_string fourcc = (if fourcc = 0 then ''unset'' else fourcc_to_string fourcc)"

definition make_camera_info :: "node_config \<Rightarrow> u32 \<Rightarrow> u32 \<Rightarrow> ros_time \<Rightarrow> camera_info" where
  "make_camera_info cfg w h stamp =
     (let info = \<lparr>nfo_stamp = stamp, nfo_frame_id = nc_camera_frame_id cfg, nfo_width = w, nfo_height = h,
            nfo_distortion_model = ''plumb_bob'', nfo_d = [], nfo_k = replicate 9 0,
            nfo_r = (replicate 9 0)[0 := 1, 4 := 1, 8 := 1], nfo_p = replicate 12 0\<rparr>
      in if camera_calibrated cfg then
           info\<lparr>nfo_d := map real_of_d [nc_k1 cfg, nc_k2 cfg, nc_p1 cfg, nc_p2 cfg, nc_k3 cfg],
             nfo_k := (nfo_k info)[0 := real_of_d (nc_fx cfg), 2 := real_of_d (nc_cx cfg), 4 := real_of_d (nc_fy cfg),
               5 := real_of_d (nc_cy cfg), 8 := 1],
             nfo_p := (nfo_p info)[0 := real_of_d (nc_fx cfg), 2 := real_of_d (nc_cx cfg), 5 := real_of_d (nc_fy cfg),
               6 := real_of_d (nc_cy cfg), 10 := 1]\<rparr>
         else info)"

section \<open>State and environment\<close>

text \<open>
  The members, the number of reads of the environment so far, and ghost logs: the frames counted in
  \<open>received_frames_\<close>, the messages handed to the two publishers, and after every operation on a descriptor the
  list of open descriptors with the two registered ones.
\<close>

record node =
  nd_listen_fd :: int
  nd_client_fd :: int
  nd_connection_state :: string
  nd_state_message :: string
  nd_last_error :: string
  nd_received_frames :: nat
  nd_received_bytes :: nat
  nd_crc_errors :: nat
  nd_header_errors :: nat
  nd_rejected_frames :: nat
  nd_accepted_sessions :: nat
  nd_completed_sessions :: nat
  nd_peer_disconnects :: nat
  nd_latency_clock_errors :: nat
  nd_published_images :: nat
  nd_image_publish_errors :: nat
  nd_last_frame_id :: u64
  nd_last_width :: u32
  nd_last_height :: u32
  nd_last_pixel_format :: u32
  nd_last_capture_timestamp_ns :: u64
  nd_last_receive_timestamp_ns :: u64
  nd_e2e_latency :: latency_stats
  nd_tick :: nat
  nd_frames :: "(frame_header \<times> bytes) list"
  nd_images :: "ros_image list"
  nd_infos :: "camera_info list"
  nd_open :: "int list"
  nd_fd_states :: "(int list \<times> int \<times> int) list"

definition new_node :: node where
  "new_node = \<lparr>nd_listen_fd = -1, nd_client_fd = -1, nd_connection_state = ''starting'',
     nd_state_message = ''initializing TCP camera adapter'', nd_last_error = [], nd_received_frames = 0,
     nd_received_bytes = 0, nd_crc_errors = 0, nd_header_errors = 0, nd_rejected_frames = 0, nd_accepted_sessions = 0,
     nd_completed_sessions = 0, nd_peer_disconnects = 0, nd_latency_clock_errors = 0, nd_published_images = 0,
     nd_image_publish_errors = 0, nd_last_frame_id = 0, nd_last_width = 0, nd_last_height = 0, nd_last_pixel_format = 0,
     nd_last_capture_timestamp_ns = 0, nd_last_receive_timestamp_ns = 0, nd_e2e_latency = LatencyStats, nd_tick = 0,
     nd_frames = [], nd_images = [], nd_infos = [], nd_open = [], nd_fd_states = []\<rparr>"

text \<open>An accepted connection: its descriptor, the bytes the peer sends before it closes, its address and port.\<close>

record node_client =
  cl_fd :: int
  cl_bytes :: bytes
  cl_address :: "string option"
  cl_port :: nat

text \<open>
  \<open>ne_host_header\<close> is \<open>sizeof(FrameHeader)\<close>: 48 where 64-bit integers are aligned to 8 bytes, 44 where they are
  aligned to 4 bytes.
\<close>

record node_env =
  ne_strerror :: "errno \<Rightarrow> string"
  ne_host_header :: nat
  ne_socket :: "errno + int"
  ne_setsockopt :: "errno option"
  ne_inet_pton :: int
  ne_bind :: "errno option"
  ne_listen :: "errno option"
  ne_stop :: "nat \<Rightarrow> bool"
  ne_poll :: "nat \<Rightarrow> poll_answer"
  ne_recv :: "nat \<Rightarrow> recv_event"
  ne_accept :: "nat \<Rightarrow> errno + node_client"
  ne_system_ns :: "nat \<Rightarrow> u64"
  ne_publish_image :: "nat \<Rightarrow> exn option"
  ne_publish_info :: "nat \<Rightarrow> exn option"

definition tick :: "node \<Rightarrow> node" where
  "tick s = s\<lparr>nd_tick := Suc (nd_tick s)\<rparr>"

definition set_connection_state :: "string \<Rightarrow> string \<Rightarrow> node \<Rightarrow> node" where
  "set_connection_state state message s = s\<lparr>nd_connection_state := state, nd_state_message := message\<rparr>"

definition set_last_error :: "string \<Rightarrow> node \<Rightarrow> node" where
  "set_last_error message s = s\<lparr>nd_last_error := message\<rparr>"

section \<open>Descriptors\<close>

definition note_fds :: "node \<Rightarrow> node" where
  "note_fds s = s\<lparr>nd_fd_states := nd_fd_states s @ [(nd_open s, nd_listen_fd s, nd_client_fd s)]\<rparr>"

definition open_fd :: "int \<Rightarrow> node \<Rightarrow> node" where
  "open_fd fd s = note_fds (s\<lparr>nd_open := fd # nd_open s\<rparr>)"

definition node_close_fd :: "int \<Rightarrow> node \<Rightarrow> node" where
  "node_close_fd fd s = note_fds (if fd \<ge> 0 then s\<lparr>nd_open := remove1 fd (nd_open s)\<rparr> else s)"

definition register_listen_fd :: "int \<Rightarrow> node \<Rightarrow> node" where
  "register_listen_fd fd s = note_fds (s\<lparr>nd_listen_fd := fd\<rparr>)"

definition register_client_fd :: "int \<Rightarrow> node \<Rightarrow> node" where
  "register_client_fd fd s = note_fds (s\<lparr>nd_client_fd := fd\<rparr>)"

definition clear_listen_fd :: "int \<Rightarrow> node \<Rightarrow> node" where
  "clear_listen_fd fd s = note_fds (if nd_listen_fd s = fd then s\<lparr>nd_listen_fd := -1\<rparr> else s)"

definition clear_client_fd :: "int \<Rightarrow> node \<Rightarrow> node" where
  "clear_client_fd fd s = note_fds (if nd_client_fd s = fd then s\<lparr>nd_client_fd := -1\<rparr> else s)"

text \<open>The descriptors \<open>interrupt_sockets\<close> shuts down, for given values of the two members.\<close>

definition interrupt_sockets :: "int \<Rightarrow> int \<Rightarrow> int list" where
  "interrupt_sockets listen_fd client_fd =
     (if client_fd \<ge> 0 then [client_fd] else []) @ (if listen_fd \<ge> 0 then [listen_fd] else [])"

section \<open>Reading\<close>

datatype node_read = ReadOk bytes | ReadPeerClosed | ReadStopped | ReadError string | ReadPending

text \<open>One turn of the loop: the result when it returns, otherwise \<open>None\<close>, with the buffer and the stream left.\<close>

definition read_turn ::
    "node_env \<Rightarrow> nat \<Rightarrow> nat \<Rightarrow> bytes \<Rightarrow> bytes \<Rightarrow> node_read option \<times> bytes \<times> bytes" where
  "read_turn env t size_n buf stream =
     (let p = ne_poll env t in
      if ne_stop env t then (Some ReadStopped, buf, stream)
      else if pa_ret p = 0 then (None, buf, stream)
      else if pa_ret p < 0 then
        (if pa_errno p = EINTR then (None, buf, stream)
         else (Some (ReadError (''client poll failed: '' @ ne_strerror env (pa_errno p))), buf, stream))
      else if pa_revents p AND POLLNVAL \<noteq> 0 then (Some (ReadError ''client socket became invalid''), buf, stream)
      else if pa_revents p AND POLLERR \<noteq> 0 then (Some (ReadError ''client socket reported a poll error''), buf, stream)
      else if pa_revents p AND (POLLIN OR POLLHUP) = 0 then (None, buf, stream)
      else case ne_recv env t of
        RecvError n \<Rightarrow>
          if n = EINTR then (None, buf, stream)
          else (Some (ReadError (''recv failed: '' @ ne_strerror env n)), buf, stream)
      | Ready k \<Rightarrow>
          (let count = min (Suc k) (min (size_n - length buf) (length stream)) in
           if count = 0 then
             (if buf = [] then (Some ReadPeerClosed, buf, stream)
              else (Some (ReadError (''peer closed after '' @ to_string (length buf) @ '' of '' @ to_string size_n @
                      '' requested bytes'')), buf, stream))
           else (None, buf @ take count stream, drop count stream)))"

fun read_exact_interruptible ::
    "node_env \<Rightarrow> nat \<Rightarrow> nat \<Rightarrow> nat \<Rightarrow> bytes \<Rightarrow> bytes \<Rightarrow> node_read \<times> bytes \<times> nat" where
  "read_exact_interruptible env 0 t size_n buf stream =
     (if length buf < size_n then (ReadPending, stream, t) else (ReadOk buf, stream, t))"
| "read_exact_interruptible env (Suc fuel) t size_n buf stream =
     (if length buf < size_n then
        (case read_turn env t size_n buf stream of
           (Some r, buf, stream) \<Rightarrow> (r, stream, Suc t)
         | (None, buf, stream) \<Rightarrow> read_exact_interruptible env fuel (Suc t) size_n buf stream)
      else (ReadOk buf, stream, t))"

definition node_read :: "node_env \<Rightarrow> nat \<Rightarrow> nat \<Rightarrow> bytes \<Rightarrow> node \<Rightarrow> node_read \<times> bytes \<times> node" where
  "node_read env fuel size_n stream s =
     (case read_exact_interruptible env fuel (nd_tick s) size_n [] stream of
        (r, stream, t) \<Rightarrow> (r, stream, s\<lparr>nd_tick := t\<rparr>))"

section \<open>Publishing a frame\<close>

definition node_image :: "node_config \<Rightarrow> frame_header \<Rightarrow> bytes \<Rightarrow> ros_image result" where
  "node_image cfg h payload =
     (let img = \<lparr>img_stamp = to_ros_time (hdr_capture_timestamp_ns h), img_frame_id = nc_camera_frame_id cfg,
            img_height = hdr_height h, img_width = hdr_width h, img_encoding = [], img_is_bigendian = 0, img_step = 0,
            img_data = []\<rparr>
      in if nc_output_encoding cfg = ''rgb8'' then
           bind_r (convert_yuyv_to_rgb8 payload (hdr_width h) (hdr_height h)) (\<lambda>d.
             Inr (img\<lparr>img_encoding := ''rgb8'', img_step := hdr_width h * 3, img_data := d\<rparr>))
         else if nc_output_encoding cfg = ''mono8'' then
           bind_r (convert_yuyv_to_mono8 payload (hdr_width h) (hdr_height h)) (\<lambda>d.
             Inr (img\<lparr>img_encoding := ''mono8'', img_step := hdr_width h, img_data := d\<rparr>))
         else Inr (img\<lparr>img_encoding := ''yuv422_yuy2'', img_step := hdr_width h * 2, img_data := payload\<rparr>))"

definition publish_failed :: "frame_header \<Rightarrow> exn \<Rightarrow> node \<Rightarrow> node" where
  "publish_failed h e s =
     set_last_error (''failed to publish ROS image for frame '' @ to_string (unat (hdr_frame_id h)) @ '': '' @ what e)
       (s\<lparr>nd_image_publish_errors := nd_image_publish_errors s + 1\<rparr>)"

definition publish_frame :: "node_config \<Rightarrow> node_env \<Rightarrow> frame_header \<Rightarrow> bytes \<Rightarrow> node \<Rightarrow> node" where
  "publish_frame cfg env h payload s =
     (if \<not> nc_publish_images cfg then s
      else if hdr_pixel_format h \<noteq> V4L2_PIX_FMT_YUYV then
        set_last_error (''ROS image publication supports only YUYV input, got '' @
            node_fourcc_to_string (hdr_pixel_format h))
          (s\<lparr>nd_image_publish_errors := nd_image_publish_errors s + 1\<rparr>)
      else case node_image cfg h payload of
        Inl e \<Rightarrow> publish_failed h e s
      | Inr img \<Rightarrow>
          (let info = make_camera_info cfg (hdr_width h) (hdr_height h) (img_stamp img);
               t = nd_tick s; s = tick s
           in case ne_publish_image env t of
                Some e \<Rightarrow> publish_failed h e s
              | None \<Rightarrow>
                  (let s = s\<lparr>nd_images := nd_images s @ [img]\<rparr> in
                   case ne_publish_info env t of
                     Some e \<Rightarrow> publish_failed h e s
                   | None \<Rightarrow> s\<lparr>nd_infos := nd_infos s @ [info], nd_published_images := nd_published_images s + 1\<rparr>)))"

section \<open>One client\<close>

datatype client_end = ClientNext | ClientReturn | ClientPending

definition limit_reached :: "int \<Rightarrow> nat \<Rightarrow> bool" where
  "limit_reached limit n = (limit > 0 \<and> int n \<ge> limit)"

definition node_latency :: "frame_header \<Rightarrow> u64 \<Rightarrow> node \<Rightarrow> node" where
  "node_latency h now s =
     (if now \<ge> hdr_capture_timestamp_ns h
      then s\<lparr>nd_e2e_latency :=
             add_sample_us (Finite (real (unat (now - hdr_capture_timestamp_ns h)) / 1000)) (nd_e2e_latency s)\<rparr>
      else set_last_error (''receive clock was earlier than capture timestamp for frame '' @ to_string (unat (hdr_frame_id h)))
             (s\<lparr>nd_latency_clock_errors := nd_latency_clock_errors s + 1\<rparr>))"

definition take_over :: "node_config \<Rightarrow> node_env \<Rightarrow> frame_header \<Rightarrow> bytes \<Rightarrow> node \<Rightarrow> node" where
  "take_over cfg env h payload s =
     (let now = ne_system_ns env (nd_tick s);
          s = node_latency h now (tick s)
      in publish_frame cfg env h payload
           (s\<lparr>nd_received_frames := nd_received_frames s + 1,
              nd_received_bytes := nd_received_bytes s + unat (hdr_payload_size h),
              nd_last_frame_id := hdr_frame_id h, nd_last_width := hdr_width h, nd_last_height := hdr_height h,
              nd_last_pixel_format := hdr_pixel_format h,
              nd_last_capture_timestamp_ns := hdr_capture_timestamp_ns h,
              nd_last_receive_timestamp_ns := now,
              nd_frames := nd_frames s @ [(h, payload)]\<rparr>))"

text \<open>
  One turn of \<open>handle_client\<close>. The header is read into the structure as it lies in memory; on a little-endian
  host its fields are where the wire format has them, and what follows them is padding.
\<close>

definition node_client_turn ::
    "node_config \<Rightarrow> node_env \<Rightarrow> nat \<Rightarrow> bytes \<Rightarrow> node \<Rightarrow> client_end \<times> bytes \<times> node" where
  "node_client_turn cfg env fuel stream s =
     (let stop = ne_stop env (nd_tick s); s = tick s in
      if stop then (ClientReturn, stream, s)
      else if limit_reached (nc_max_frames cfg) (nd_received_frames s) then (ClientReturn, stream, s)
      else case node_read env fuel (ne_host_header env) stream s of
        (ReadPending, stream, s) \<Rightarrow> (ClientPending, stream, s)
      | (ReadPeerClosed, stream, s) \<Rightarrow> (ClientReturn, stream, s\<lparr>nd_peer_disconnects := nd_peer_disconnects s + 1\<rparr>)
      | (ReadStopped, stream, s) \<Rightarrow> (ClientReturn, stream, s)
      | (ReadError msg, stream, s) \<Rightarrow>
          (ClientReturn, stream, set_last_error msg (s\<lparr>nd_peer_disconnects := nd_peer_disconnects s + 1\<rparr>))
      | (ReadOk raw, stream, s) \<Rightarrow>
          (let h = decode_header raw in
           case validate_header h (word_of_int (nc_max_payload_bytes cfg)) of
             Some reason \<Rightarrow>
               (ClientReturn, stream, set_last_error reason
                  (s\<lparr>nd_header_errors := nd_header_errors s + 1, nd_rejected_frames := nd_rejected_frames s + 1\<rparr>))
           | None \<Rightarrow>
               (case node_read env fuel (unat (hdr_payload_size h)) stream s of
                  (ReadPending, stream, s) \<Rightarrow> (ClientPending, stream, s)
                | (ReadPeerClosed, stream, s) \<Rightarrow>
                    (ClientReturn, stream, set_last_error ''peer closed while receiving frame payload''
                       (s\<lparr>nd_peer_disconnects := nd_peer_disconnects s + 1\<rparr>))
                | (ReadError msg, stream, s) \<Rightarrow>
                    (ClientReturn, stream, set_last_error msg (s\<lparr>nd_peer_disconnects := nd_peer_disconnects s + 1\<rparr>))
                | (ReadStopped, stream, s) \<Rightarrow> (ClientReturn, stream, s)
                | (ReadOk payload, stream, s) \<Rightarrow>
                    if compute_crc32 payload \<noteq> hdr_payload_crc32 h then
                      (ClientNext, stream, set_last_error (''CRC mismatch for frame '' @ to_string (unat (hdr_frame_id h)))
                         (s\<lparr>nd_crc_errors := nd_crc_errors s + 1, nd_rejected_frames := nd_rejected_frames s + 1\<rparr>))
                    else (ClientNext, stream, take_over cfg env h payload s))))"

fun handle_client :: "node_config \<Rightarrow> node_env \<Rightarrow> nat \<Rightarrow> nat \<Rightarrow> bytes \<Rightarrow> node \<Rightarrow> bool \<times> bytes \<times> node" where
  "handle_client cfg env inner 0 stream s = (False, stream, s)"
| "handle_client cfg env inner (Suc fuel) stream s =
     (case node_client_turn cfg env inner stream s of
        (ClientNext, stream, s) \<Rightarrow> handle_client cfg env inner fuel stream s
      | (ClientReturn, stream, s) \<Rightarrow> (True, stream, s)
      | (ClientPending, stream, s) \<Rightarrow> (False, stream, s))"

section \<open>The receiver thread\<close>

definition listen_setup :: "node_config \<Rightarrow> node_env \<Rightarrow> node \<Rightarrow> exn option \<times> int \<times> node" where
  "listen_setup cfg env s =
     (case ne_socket env of
        Inl n \<Rightarrow> (Some (RuntimeError (''socket failed: '' @ ne_strerror env n)), -1, s)
      | Inr fd \<Rightarrow>
          (let s = register_listen_fd fd (open_fd fd s);
               failed = (\<lambda>call n. Some (RuntimeError (call @ '' failed: '' @ ne_strerror env n)))
           in ((case ne_setsockopt env of
                  Some n \<Rightarrow> failed ''setsockopt(SO_REUSEADDR)'' n
                | None \<Rightarrow>
                    if ne_inet_pton env \<noteq> 1 then Some (InvalidArgument ''listen_address must be a valid IPv4 address'')
                    else (case ne_bind env of
                        Some n \<Rightarrow> failed ''bind'' n
                      | None \<Rightarrow> (case ne_listen env of Some n \<Rightarrow> failed ''listen'' n | None \<Rightarrow> None))), fd, s)))"

datatype node_loop = LoopNext | LoopLeft | NodeThrew exn | LoopPending

text \<open>Serving an accepted client, from \<open>register_client_fd\<close> to the end of the turn.\<close>

definition begin_session :: "node_client \<Rightarrow> node \<Rightarrow> node" where
  "begin_session client s =
     (let s = register_client_fd (cl_fd client) (open_fd (cl_fd client) s);
          s = s\<lparr>nd_accepted_sessions := nd_accepted_sessions s + 1\<rparr>;
          peer_address = (case cl_address client of Some a \<Rightarrow> a | None \<Rightarrow> ''unknown'')
      in set_connection_state ''connected''
           (''receiving frames from '' @ peer_address @ '':'' @ to_string (cl_port client)) s)"

definition end_session :: "node_env \<Rightarrow> node_client \<Rightarrow> node \<Rightarrow> node" where
  "end_session env client s =
     (let s = s\<lparr>nd_completed_sessions := nd_completed_sessions s + 1\<rparr>;
          s = node_close_fd (cl_fd client) (clear_client_fd (cl_fd client) s);
          stop = ne_stop env (nd_tick s); s = tick s
      in if stop then s else set_connection_state ''listening'' ''waiting for the next TCP frame sender'' s)"

definition serve_client :: "node_config \<Rightarrow> node_env \<Rightarrow> nat \<Rightarrow> node_client \<Rightarrow> node \<Rightarrow> node_loop \<times> node" where
  "serve_client cfg env fuel client s =
     (case handle_client cfg env fuel fuel (cl_bytes client) (begin_session client s) of
        (False, stream, s) \<Rightarrow> (LoopPending, s)
      | (True, stream, s) \<Rightarrow> (LoopNext, end_session env client s))"

text \<open>A failed call ends the loop, silently when the node is being stopped.\<close>

definition fail_unless_stopped :: "node_env \<Rightarrow> exn \<Rightarrow> node \<Rightarrow> node_loop \<times> node" where
  "fail_unless_stopped env e s = (if ne_stop env (nd_tick s) then LoopLeft else NodeThrew e, tick s)"

definition node_accept_turn :: "node_config \<Rightarrow> node_env \<Rightarrow> nat \<Rightarrow> node \<Rightarrow> node_loop \<times> node" where
  "node_accept_turn cfg env fuel s =
     (let t = nd_tick s; p = ne_poll env t; s = tick s in
      if ne_stop env t then (LoopLeft, s)
      else if limit_reached (nc_max_frames cfg) (nd_received_frames s) then
        (LoopLeft, set_connection_state ''stopped'' ''configured frame limit reached'' s)
      else if limit_reached (nc_max_sessions cfg) (nd_accepted_sessions s) then
        (LoopLeft, set_connection_state ''stopped'' ''configured session limit reached'' s)
      else if pa_ret p = 0 then (LoopNext, s)
      else if pa_ret p < 0 then
        (if pa_errno p = EINTR then (LoopNext, s)
         else fail_unless_stopped env (RuntimeError (''listen poll failed: '' @ ne_strerror env (pa_errno p))) s)
      else if pa_revents p AND POLLNVAL \<noteq> 0 then
        fail_unless_stopped env (RuntimeError ''listening socket became invalid'') s
      else if pa_revents p AND POLLIN = 0 then (LoopNext, s)
      else case ne_accept env t of
        Inl n \<Rightarrow>
          if n = EINTR then (LoopNext, s)
          else fail_unless_stopped env (RuntimeError (''accept failed: '' @ ne_strerror env n)) s
      | Inr client \<Rightarrow> serve_client cfg env fuel client s)"

fun node_accept_loop :: "node_config \<Rightarrow> node_env \<Rightarrow> nat \<Rightarrow> nat \<Rightarrow> node \<Rightarrow> node_loop \<times> node" where
  "node_accept_loop cfg env inner 0 s = (LoopPending, s)"
| "node_accept_loop cfg env inner (Suc fuel) s =
     (case node_accept_turn cfg env inner s of
        (LoopNext, s) \<Rightarrow> node_accept_loop cfg env inner fuel s
      | r \<Rightarrow> r)"

text \<open>\<open>receiver_loop\<close>: whether it has returned, and the state.\<close>

definition receiver_loop :: "node_config \<Rightarrow> node_env \<Rightarrow> nat \<Rightarrow> node \<Rightarrow> bool \<times> node" where
  "receiver_loop cfg env fuel s =
     (case listen_setup cfg env s of
        (failed, fd, s) \<Rightarrow>
          (let r = (case failed of
                 Some e \<Rightarrow> (NodeThrew e, s)
               | None \<Rightarrow>
                   node_accept_loop cfg env fuel fuel
                     (set_connection_state ''listening'' ''waiting for a protocol v3 TCP frame sender'' s))
           in case r of
                (LoopPending, s) \<Rightarrow> (False, s)
              | (NodeThrew e, s) \<Rightarrow>
                  (let stop = ne_stop env (nd_tick s); s = tick s;
                       s = (if stop then s else set_connection_state ''error'' (what e) (set_last_error (what e) s))
                   in (True, node_close_fd fd (clear_listen_fd fd s)))
              | (_, s) \<Rightarrow> (True, node_close_fd fd (clear_listen_fd fd s))))"

end
