(* ===== verification/Diagnostics_Safety.thy ===== *)
theory Diagnostics_Safety
  imports Diagnostics_Node
begin

text \<open>
  What the receiver thread of the ROS 2 adapter keeps: the counters agree with each other and with the frames taken
  over, every published image belongs to a frame that passed the checks, and the registered descriptors are open
  whenever the destructor may shut them down. Then its termination after a stop request.
\<close>

section \<open>Counters and images\<close>

definition is_yuyv :: "frame_header \<times> bytes \<Rightarrow> bool" where
  "is_yuyv f \<longleftrightarrow> hdr_pixel_format (fst f) = V4L2_PIX_FMT_YUYV"

definition node_inv :: "node_config \<Rightarrow> node \<Rightarrow> bool" where
  "node_inv cfg s \<longleftrightarrow>
     nd_rejected_frames s = nd_crc_errors s + nd_header_errors s \<and>
     nd_received_frames s = length (nd_frames s) \<and>
     nd_received_bytes s = sum_list (map (length \<circ> snd) (nd_frames s)) \<and>
     length (samples_us (nd_e2e_latency s)) + nd_latency_clock_errors s = nd_received_frames s \<and>
     nd_published_images s + nd_image_publish_errors s = (if nc_publish_images cfg then nd_received_frames s else 0) \<and>
     nd_published_images s = length (nd_infos s) \<and> nd_published_images s \<le> length (nd_images s) \<and>
     (\<forall>f \<in> set (nd_frames s). good_frame (word_of_int (nc_max_payload_bytes cfg)) f) \<and>
     subseq (map Inr (nd_images s)) (map (\<lambda>(h, p). node_image cfg h p) (filter is_yuyv (nd_frames s))) \<and>
     (0 < nc_max_frames cfg \<longrightarrow> int (nd_received_frames s) \<le> nc_max_frames cfg)"

definition node_counts :: "node_config \<Rightarrow> node \<Rightarrow> bool" where
  "node_counts cfg s \<longleftrightarrow> nd_completed_sessions s \<le> nd_accepted_sessions s \<and>
     nd_peer_disconnects s + nd_header_errors s \<le> nd_accepted_sessions s \<and>
     (0 < nc_max_sessions cfg \<longrightarrow> int (nd_accepted_sessions s) \<le> nc_max_sessions cfg)"

lemma new_node_inv: "node_inv cfg new_node" "node_counts cfg new_node"
  by (simp_all add: node_inv_def node_counts_def new_node_def LatencyStats_def)

lemma node_simps [simp]:
  "nd_tick (tick s) = Suc (nd_tick s)" "node_inv cfg (tick s) = node_inv cfg s"
  "node_counts cfg (tick s) = node_counts cfg s"
  "nd_fd_states (tick s) = nd_fd_states s" "nd_open (tick s) = nd_open s"
  "nd_listen_fd (tick s) = nd_listen_fd s" "nd_client_fd (tick s) = nd_client_fd s"
  "nd_received_frames (tick s) = nd_received_frames s" "nd_accepted_sessions (tick s) = nd_accepted_sessions s"
  by (simp_all add: tick_def node_inv_def node_counts_def)

lemma node_inv_messages [simp]:
  "node_inv cfg (set_last_error m s) = node_inv cfg s"
  "node_inv cfg (set_connection_state st m s) = node_inv cfg s"
  "node_inv cfg (note_fds s) = node_inv cfg s"
  "node_inv cfg (s\<lparr>nd_tick := t\<rparr>) = node_inv cfg s"
  "node_inv cfg (s\<lparr>nd_peer_disconnects := n\<rparr>) = node_inv cfg s"
  "node_inv cfg (s\<lparr>nd_accepted_sessions := n\<rparr>) = node_inv cfg s"
  "node_inv cfg (s\<lparr>nd_completed_sessions := n\<rparr>) = node_inv cfg s"
  "node_inv cfg (s\<lparr>nd_listen_fd := fd\<rparr>) = node_inv cfg s"
  "node_inv cfg (s\<lparr>nd_client_fd := fd\<rparr>) = node_inv cfg s"
  "node_inv cfg (s\<lparr>nd_open := fds\<rparr>) = node_inv cfg s"
  by (simp_all add: node_inv_def set_last_error_def set_connection_state_def note_fds_def)

lemma node_inv_rejected:
  "node_inv cfg s \<Longrightarrow> node_inv cfg (s\<lparr>nd_header_errors := Suc (nd_header_errors s), nd_rejected_frames := Suc (nd_rejected_frames s)\<rparr>)"
  "node_inv cfg s \<Longrightarrow> node_inv cfg (s\<lparr>nd_crc_errors := Suc (nd_crc_errors s), nd_rejected_frames := Suc (nd_rejected_frames s)\<rparr>)"
  by (auto simp: node_inv_def)

lemma node_inv_fds [simp]:
  "node_inv cfg (open_fd fd s) = node_inv cfg s" "node_inv cfg (node_close_fd fd s) = node_inv cfg s"
  "node_inv cfg (register_listen_fd fd s) = node_inv cfg s" "node_inv cfg (register_client_fd fd s) = node_inv cfg s"
  "node_inv cfg (clear_listen_fd fd s) = node_inv cfg s" "node_inv cfg (clear_client_fd fd s) = node_inv cfg s"
  by (simp_all add: open_fd_def node_close_fd_def register_listen_fd_def register_client_fd_def clear_listen_fd_def
      clear_client_fd_def)

text \<open>What taking over a frame and publishing it does to the logs.\<close>

lemma publish_frame_effect:
  obtains (off) "\<not> nc_publish_images cfg" "publish_frame cfg env h p s = s"
  | (failed) m t where "nc_publish_images cfg"
      "publish_frame cfg env h p s =
        s\<lparr>nd_image_publish_errors := nd_image_publish_errors s + 1, nd_last_error := m, nd_tick := t\<rparr>" "nd_tick s \<le> t"
  | (half) m img where "nc_publish_images cfg" "is_yuyv (h, p)" "node_image cfg h p = Inr img"
      "publish_frame cfg env h p s =
        s\<lparr>nd_image_publish_errors := nd_image_publish_errors s + 1, nd_last_error := m, nd_tick := Suc (nd_tick s),
          nd_images := nd_images s @ [img]\<rparr>"
  | (published) img where "nc_publish_images cfg" "is_yuyv (h, p)" "node_image cfg h p = Inr img"
      "publish_frame cfg env h p s =
        s\<lparr>nd_images := nd_images s @ [img], nd_tick := Suc (nd_tick s), nd_published_images := nd_published_images s + 1,
          nd_infos := nd_infos s @ [make_camera_info cfg (hdr_width h) (hdr_height h) (img_stamp img)]\<rparr>"
proof (cases "nc_publish_images cfg \<and> hdr_pixel_format h = V4L2_PIX_FMT_YUYV")
  case False
  show thesis
  proof (cases "nc_publish_images cfg")
    case True
    with False show thesis
      by (intro failed [where m = "''ROS image publication supports only YUYV input, got '' @ node_fourcc_to_string (hdr_pixel_format h)" and t = "nd_tick s"])
         (simp_all add: publish_frame_def set_last_error_def)
  qed (auto intro: off simp: publish_frame_def)
next
  case True
  show thesis
  proof (cases "node_image cfg h p")
    case (Inl e)
    with True show thesis
      by (intro failed [where m = "''failed to publish ROS image for frame '' @ to_string (unat (hdr_frame_id h)) @ '': '' @ what e" and t = "nd_tick s"])
         (simp_all add: publish_frame_def publish_failed_def set_last_error_def)
  next
    case (Inr img)
    show thesis
    proof (cases "ne_publish_image env (nd_tick s)")
      case (Some e)
      with True Inr show thesis
        by (intro failed [where m = "''failed to publish ROS image for frame '' @ to_string (unat (hdr_frame_id h)) @ '': '' @ what e" and t = "Suc (nd_tick s)"])
           (simp_all add: publish_frame_def publish_failed_def set_last_error_def tick_def Let_def)
    next
      case None
      show thesis
      proof (cases "ne_publish_info env (nd_tick s)")
        case (Some e)
        with True Inr None show thesis
          by (intro half [where img = img and m = "''failed to publish ROS image for frame '' @ to_string (unat (hdr_frame_id h)) @ '': '' @ what e"])
             (simp_all add: publish_frame_def publish_failed_def set_last_error_def tick_def Let_def is_yuyv_def)
      next
        case None2: None
        with True Inr None show thesis
          by (intro published [where img = img]) (simp_all add: publish_frame_def tick_def Let_def is_yuyv_def)
      qed
    qed
  qed
qed

lemma add_sample_nat: "add_sample_us (Finite (real n / 1000)) st = st\<lparr>samples_us := samples_us st @ [real n / 1000]\<rparr>"
  by (simp add: add_sample_us_def)

lemma node_latency_effect:
  obtains m where "node_latency h now s = s\<lparr>nd_latency_clock_errors := Suc (nd_latency_clock_errors s), nd_last_error := m\<rparr>"
  | v where "node_latency h now s = s\<lparr>nd_e2e_latency := (nd_e2e_latency s)\<lparr>samples_us := samples_us (nd_e2e_latency s) @ [v]\<rparr>\<rparr>"
proof (cases "hdr_capture_timestamp_ns h \<le> now")
  case True
  then show thesis
    by (intro that(2) [of "real (unat (now - hdr_capture_timestamp_ns h)) / 1000"])
       (simp only: node_latency_def add_sample_nat if_True)
next
  case False
  then show thesis by (intro that(1)) (simp add: node_latency_def set_last_error_def)
qed

lemma subseq_snoc_same: "subseq xs ys \<Longrightarrow> subseq (xs @ [x]) (ys @ [x])"
  by (simp add: list_emb_append_mono)

lemma subseq_snoc_more: "subseq xs ys \<Longrightarrow> subseq xs (ys @ [y])"
  using list_emb_append_mono [of "(=)" xs ys "[]" "[y]"] by simp

lemma take_over_inv:
  assumes "node_inv cfg s" and "good_frame (word_of_int (nc_max_payload_bytes cfg)) (h, p)"
    and "0 < nc_max_frames cfg \<longrightarrow> int (nd_received_frames s) < nc_max_frames cfg"
  shows "node_inv cfg (take_over cfg env h p s)"
proof -
  let ?now = "ne_system_ns env (nd_tick s)"
  have len: "unat (hdr_payload_size h) = length p" using assms(2) by (simp add: good_frame_def)
  define s1 where "s1 = (node_latency h ?now (tick s))\<lparr>nd_received_frames := nd_received_frames s + 1,
     nd_received_bytes := nd_received_bytes s + length p,
     nd_last_frame_id := hdr_frame_id h, nd_last_width := hdr_width h, nd_last_height := hdr_height h,
     nd_last_pixel_format := hdr_pixel_format h, nd_last_capture_timestamp_ns := hdr_capture_timestamp_ns h,
     nd_last_receive_timestamp_ns := ?now, nd_frames := nd_frames s @ [(h, p)]\<rparr>"
  have flds: "nd_received_frames (node_latency h ?now (tick s)) = nd_received_frames s"
    "nd_received_bytes (node_latency h ?now (tick s)) = nd_received_bytes s" "nd_frames (node_latency h ?now (tick s)) = nd_frames s"
    by (cases h ?now "tick s" rule: node_latency_effect; simp add: tick_def)+
  then have t: "take_over cfg env h p s = publish_frame cfg env h p s1"
    by (simp add: take_over_def s1_def Let_def len tick_def)
  have s1: "nd_rejected_frames s1 = nd_crc_errors s1 + nd_header_errors s1" "nd_received_frames s1 = length (nd_frames s1)"
    "nd_received_bytes s1 = sum_list (map (length \<circ> snd) (nd_frames s1))"
    "length (samples_us (nd_e2e_latency s1)) + nd_latency_clock_errors s1 = nd_received_frames s1"
    "nd_received_frames s1 = Suc (nd_received_frames s)" "nd_frames s1 = nd_frames s @ [(h, p)]"
    "nd_published_images s1 = nd_published_images s" "nd_image_publish_errors s1 = nd_image_publish_errors s"
    "nd_infos s1 = nd_infos s" "nd_images s1 = nd_images s"
    using assms(1) unfolding s1_def node_inv_def
    by (cases h ?now "tick s" rule: node_latency_effect; simp add: tick_def)+
  note old = assms(1) [unfolded node_inv_def]
  show ?thesis unfolding t
    by (cases cfg env h p s1 rule: publish_frame_effect)
       (use s1 old assms(2,3) in \<open>auto simp: node_inv_def intro: subseq_snoc_same subseq_snoc_more\<close>)
qed

section \<open>A session\<close>

text \<open>The members a session does not touch.\<close>

definition fd_view :: "node \<Rightarrow> (int list \<times> int \<times> int) \<times> (int list \<times> int \<times> int) list \<times> nat \<times> nat" where
  "fd_view s = ((nd_open s, nd_listen_fd s, nd_client_fd s), nd_fd_states s, nd_accepted_sessions s, nd_completed_sessions s)"

lemma fd_view_simps [simp]:
  "fd_view (tick s) = fd_view s" "fd_view (set_last_error m s) = fd_view s"
  "fd_view (set_connection_state st m s) = fd_view s" "fd_view (s\<lparr>nd_tick := t\<rparr>) = fd_view s"
  "fd_view (s\<lparr>nd_peer_disconnects := n\<rparr>) = fd_view s"
  "fd_view (s\<lparr>nd_header_errors := n, nd_rejected_frames := n'\<rparr>) = fd_view s"
  "fd_view (s\<lparr>nd_crc_errors := n, nd_rejected_frames := n'\<rparr>) = fd_view s"
  by (simp_all add: fd_view_def tick_def set_last_error_def set_connection_state_def)

text \<open>The number of sessions that ended with an error or because the peer closed.\<close>

definition ended :: "node \<Rightarrow> nat" where
  "ended s = nd_peer_disconnects s + nd_header_errors s"

lemma ended_simps [simp]:
  "ended (tick s) = ended s" "ended (set_last_error m s) = ended s" "ended (set_connection_state st m s) = ended s"
  "ended (s\<lparr>nd_tick := t\<rparr>) = ended s" "ended (s\<lparr>nd_peer_disconnects := Suc (nd_peer_disconnects s)\<rparr>) = Suc (ended s)"
  "ended (s\<lparr>nd_header_errors := Suc (nd_header_errors s), nd_rejected_frames := n\<rparr>) = Suc (ended s)"
  "ended (s\<lparr>nd_crc_errors := n, nd_rejected_frames := n'\<rparr>) = ended s"
  by (simp_all add: ended_def tick_def set_last_error_def set_connection_state_def)

lemma take_over_view:
  "fd_view (take_over cfg env h p s) = fd_view s" "ended (take_over cfg env h p s) = ended s"
  "nd_tick s < nd_tick (take_over cfg env h p s)"
proof -
  let ?now = "ne_system_ns env (nd_tick s)"
  have l: "fd_view (node_latency h ?now (tick s)) = fd_view s" "ended (node_latency h ?now (tick s)) = ended s"
    "nd_tick (node_latency h ?now (tick s)) = Suc (nd_tick s)"
    by (cases h ?now "tick s" rule: node_latency_effect; simp add: fd_view_def ended_def tick_def)+
  have "fd_view (publish_frame cfg env h p s') = fd_view s' \<and> ended (publish_frame cfg env h p s') = ended s' \<and>
      nd_tick s' \<le> nd_tick (publish_frame cfg env h p s')" for s'
    by (cases cfg env h p s' rule: publish_frame_effect) (auto simp: fd_view_def ended_def)
  moreover obtain s1 where "take_over cfg env h p s = publish_frame cfg env h p s1" "fd_view s1 = fd_view s"
      "ended s1 = ended s" "nd_tick s1 = Suc (nd_tick s)"
    using l by (simp add: take_over_def Let_def fd_view_def ended_def)
  ultimately show "fd_view (take_over cfg env h p s) = fd_view s" "ended (take_over cfg env h p s) = ended s"
    "nd_tick s < nd_tick (take_over cfg env h p s)"
    by (metis Suc_le_eq)+
qed

lemma read_turn_length: "read_turn env t n buf st = (None, buf', st') \<Longrightarrow> length buf \<le> n \<Longrightarrow> length buf' \<le> n"
  by (auto simp: read_turn_def Let_def split: if_splits recv_event.splits)

lemma read_ok_length:
  "read_exact_interruptible env fuel t n buf st = (ReadOk bs, st', t') \<Longrightarrow> length buf \<le> n \<Longrightarrow> length bs = n"
proof (induction fuel arbitrary: t buf st)
  case (Suc fuel)
  then show ?case
    by (auto dest: read_turn_length split: if_splits prod.splits option.splits)
       (auto simp: read_turn_def Let_def split: if_splits recv_event.splits)
qed (auto split: if_splits)

lemma read_tick: "read_exact_interruptible env fuel t n buf st = (r, st', t') \<Longrightarrow> t \<le> t'"
  by (induction fuel arbitrary: t buf st) (fastforce split: if_splits prod.splits option.splits)+

lemma node_read_cases:
  assumes "node_read env fuel n stream s = (r, stream', s')"
  shows "\<exists>t. s' = s\<lparr>nd_tick := t\<rparr> \<and> nd_tick s \<le> t" and "r = ReadOk bs \<Longrightarrow> length bs = n"
  using assms read_tick [of env fuel "nd_tick s" n "[]" stream] read_ok_length [of env fuel "nd_tick s" n "[]" stream bs]
  by (auto simp: node_read_def split: prod.splits)

lemma node_client_turn_stop:
  "ne_stop env (nd_tick s) \<or> limit_reached (nc_max_frames cfg) (nd_received_frames s) \<Longrightarrow>
     node_client_turn cfg env fuel stream s = (ClientReturn, stream, tick s)"
  by (auto simp: node_client_turn_def Let_def)

text \<open>The outcomes of a turn of \<open>handle_client\<close>.\<close>

lemma node_client_turn_cases:
  assumes "node_client_turn cfg env fuel stream s = (r, stream', s')"
  obtains (left) t where "s' = s\<lparr>nd_tick := t\<rparr>" "nd_tick s < t" "r \<noteq> ClientNext"
  | (lost) t m where "s' = s\<lparr>nd_tick := t, nd_peer_disconnects := Suc (nd_peer_disconnects s), nd_last_error := m\<rparr>"
      "nd_tick s < t" "r = ClientReturn"
  | (bad_header) t m where "s' = s\<lparr>nd_tick := t, nd_header_errors := Suc (nd_header_errors s),
        nd_rejected_frames := Suc (nd_rejected_frames s), nd_last_error := m\<rparr>" "nd_tick s < t" "r = ClientReturn"
  | (bad_crc) t m where "s' = s\<lparr>nd_tick := t, nd_crc_errors := Suc (nd_crc_errors s),
        nd_rejected_frames := Suc (nd_rejected_frames s), nd_last_error := m\<rparr>" "nd_tick s < t" "r = ClientNext"
  | (taken) t h p where "s' = take_over cfg env h p (s\<lparr>nd_tick := t\<rparr>)" "nd_tick s < t" "r = ClientNext"
      "good_frame (word_of_int (nc_max_payload_bytes cfg)) (h, p)"
      "\<not> limit_reached (nc_max_frames cfg) (nd_received_frames s)"
proof (cases "ne_stop env (nd_tick s) \<or> limit_reached (nc_max_frames cfg) (nd_received_frames s)")
  case True
  with assms show thesis by (intro left [of "Suc (nd_tick s)"]) (auto simp: node_client_turn_stop, simp_all add: tick_def)
next
  case False
  obtain r1 st1 s1 where r1: "node_read env fuel (ne_host_header env) stream (tick s) = (r1, st1, s1)" by (metis prod_cases3)
  from node_read_cases(1) [OF r1] obtain t1 where s1: "s1 = s\<lparr>nd_tick := t1\<rparr>" "nd_tick s < t1" by (auto simp: tick_def)
  note first = assms [unfolded node_client_turn_def Let_def] False r1 s1(1)
  show thesis
  proof (cases r1)
    case ReadPeerClosed
    with first s1(2) show thesis by (intro lost [where t = t1 and m = "nd_last_error s"]) auto
  next
    case (ReadError m)
    with first s1(2) show thesis by (intro lost [where t = t1 and m = m]) (auto simp: set_last_error_def)
  next
    case (ReadOk raw)
    let ?h = "decode_header raw"
    show thesis
    proof (cases "validate_header ?h (word_of_int (nc_max_payload_bytes cfg))")
      case (Some m)
      with ReadOk first s1(2) show thesis by (intro bad_header [where t = t1 and m = m]) (auto simp: set_last_error_def)
    next
      case None
      obtain r2 st2 s2 where r2: "node_read env fuel (unat (hdr_payload_size ?h)) st1 s1 = (r2, st2, s2)" by (metis prod_cases3)
      from node_read_cases(1) [OF r2] s1 obtain t2 where s2: "s2 = s\<lparr>nd_tick := t2\<rparr>" "nd_tick s < t2" by auto
      show thesis
      proof (cases r2)
        case ReadPeerClosed
        with ReadOk None first r2 s2 show thesis
          by (intro lost [where t = t2 and m = "''peer closed while receiving frame payload''"]) (auto simp: set_last_error_def)
      next
        case (ReadError m)
        with ReadOk None first r2 s2 show thesis by (intro lost [where t = t2 and m = m]) (auto simp: set_last_error_def)
      next
        case (ReadOk p)
        with node_read_cases(2) [OF r2] have l: "length p = unat (hdr_payload_size ?h)" by simp
        show thesis
        proof (cases "compute_crc32 p = hdr_payload_crc32 ?h")
          case True
          with None ReadOk \<open>r1 = ReadOk raw\<close> first r2 s2 l show thesis
            by (intro taken [where h = ?h and p = p and t = t2]) (auto simp: good_frame_def)
        next
          case crc: False
          with None ReadOk \<open>r1 = ReadOk raw\<close> first r2 s2 show thesis
            by (intro bad_crc [where t = t2 and m = "''CRC mismatch for frame '' @ to_string (unat (hdr_frame_id ?h))"]) (auto simp: set_last_error_def)
        qed
      qed (use ReadOk None first r2 s2 in \<open>auto intro!: left [where t = t2]\<close>)
    qed
  qed (use first s1(2) in \<open>auto intro!: left [where t = t1]\<close>)
qed

lemma node_client_turn_effect:
  assumes "node_client_turn cfg env fuel stream s = (r, stream', s')"
  shows "node_inv cfg s \<Longrightarrow> node_inv cfg s'" and "fd_view s' = fd_view s" and "nd_tick s < nd_tick s'"
    and "ended s' \<le> ended s + (if r = ClientReturn then 1 else 0)"
proof -
  have "(node_inv cfg s \<longrightarrow> node_inv cfg s') \<and> fd_view s' = fd_view s \<and> nd_tick s < nd_tick s' \<and>
      ended s' \<le> ended s + (if r = ClientReturn then 1 else 0)"
    using assms
  proof (cases rule: node_client_turn_cases)
    case (taken t h p)
    then have "node_inv cfg s \<longrightarrow> node_inv cfg s'"
      using take_over_inv [where s = "s\<lparr>nd_tick := t\<rparr>" and cfg = cfg and h = h and p = p and env = env] by (auto simp: limit_reached_def)
    with taken take_over_view [where cfg = cfg and env = env and h = h and p = p and s = "s\<lparr>nd_tick := t\<rparr>"] show ?thesis by simp
  qed (auto simp: node_inv_def fd_view_def ended_def)
  then show "node_inv cfg s \<Longrightarrow> node_inv cfg s'" "fd_view s' = fd_view s" "nd_tick s < nd_tick s'"
    "ended s' \<le> ended s + (if r = ClientReturn then 1 else 0)" by auto
qed

lemma handle_client_effect:
  assumes "handle_client cfg env inner fuel stream s = (finished, stream', s')"
  shows "(node_inv cfg s \<longrightarrow> node_inv cfg s') \<and> fd_view s' = fd_view s \<and> nd_tick s \<le> nd_tick s' \<and>
    ended s' \<le> ended s + (if finished then 1 else 0)"
  using assms
proof (induction fuel arbitrary: stream s)
  case (Suc fuel)
  obtain r st1 s1 where t: "node_client_turn cfg env inner stream s = (r, st1, s1)" by (metis prod_cases3)
  note e = node_client_turn_effect [OF t]
  show ?case
  proof (cases r)
    case ClientNext
    with Suc.prems t have "handle_client cfg env inner fuel st1 s1 = (finished, stream', s')" by simp
    from Suc.IH [OF this] e ClientNext show ?thesis by auto
  qed (use Suc.prems t e in auto)
qed auto

section \<open>Descriptors\<close>

text \<open>Whenever the destructor looks, it shuts down open descriptors only.\<close>

definition fds_ok :: "node \<Rightarrow> bool" where
  "fds_ok s \<longleftrightarrow> (\<forall>(fds, listen_fd, client_fd) \<in> set (nd_fd_states s). set (interrupt_sockets listen_fd client_fd) \<subseteq> set fds)"

text \<open>Between two clients only the listening socket is open, and it is registered.\<close>

definition fds_idle :: "int \<Rightarrow> node \<Rightarrow> bool" where
  "fds_idle fd s \<longleftrightarrow> 0 \<le> fd \<and> nd_open s = [fd] \<and> nd_listen_fd s = fd \<and> nd_client_fd s = -1 \<and> fds_ok s"

lemma fds_simps [simp]:
  "fds_ok (tick s) = fds_ok s" "fds_ok (set_connection_state st m s) = fds_ok s" "fds_ok (set_last_error m s) = fds_ok s"
  "fds_idle fd (tick s) = fds_idle fd s" "fds_idle fd (set_connection_state st m s) = fds_idle fd s"
  "fds_idle fd (set_last_error m s) = fds_idle fd s"
  "node_counts cfg (set_connection_state st m s) = node_counts cfg s" "node_counts cfg (set_last_error m s) = node_counts cfg s"
  by (simp_all add: fds_ok_def fds_idle_def node_counts_def tick_def set_connection_state_def set_last_error_def)

definition accept_contract :: "node_env \<Rightarrow> bool" where
  "accept_contract env \<longleftrightarrow> (\<forall>fd. ne_socket env = Inr fd \<longrightarrow> 0 \<le> fd \<and>
     (\<forall>t c. ne_accept env t = Inr c \<longrightarrow> 0 \<le> cl_fd c \<and> cl_fd c \<noteq> fd))"

definition thread_inv :: "node_config \<Rightarrow> int \<Rightarrow> node \<Rightarrow> bool" where
  "thread_inv cfg fd s \<longleftrightarrow> node_inv cfg s \<and> node_counts cfg s \<and> fds_idle fd s"

text \<open>What holds when a call has not returned yet.\<close>

definition waiting_inv :: "node_config \<Rightarrow> node \<Rightarrow> bool" where
  "waiting_inv cfg s \<longleftrightarrow> node_inv cfg s \<and> node_counts cfg s \<and> fds_ok s"

lemma thread_inv_simps [simp]:
  "thread_inv cfg fd (tick s) = thread_inv cfg fd s"
  "thread_inv cfg fd (set_connection_state st m s) = thread_inv cfg fd s"
  "thread_inv cfg fd (set_last_error m s) = thread_inv cfg fd s"
  by (simp_all add: thread_inv_def)

lemma thread_waiting: "thread_inv cfg fd s \<Longrightarrow> waiting_inv cfg s"
  by (simp add: thread_inv_def waiting_inv_def fds_idle_def)

lemma serve_client_inv:
  assumes "serve_client cfg env fuel client s = (r, s')" and "thread_inv cfg fd s"
    and "0 \<le> cl_fd client" and "cl_fd client \<noteq> fd"
    and "\<not> limit_reached (nc_max_sessions cfg) (nd_accepted_sessions s)"
  shows "r = LoopNext \<and> thread_inv cfg fd s' \<or> r = LoopPending \<and> waiting_inv cfg s'"
proof -
  let ?c = "cl_fd client"
  note inv = assms(2) [unfolded thread_inv_def fds_idle_def]
  let ?s1 = "begin_session client s"
  obtain finished stream s2 where h: "handle_client cfg env fuel fuel (cl_bytes client) ?s1 = (finished, stream, s2)" by (metis prod_cases3)
  have v: "fd_view ?s1 = (([?c, fd], fd, ?c), nd_fd_states s @ [([?c, fd], fd, -1), ([?c, fd], fd, ?c)],
      Suc (nd_accepted_sessions s), nd_completed_sessions s)" and e: "ended ?s1 = ended s"
    using inv by (simp_all add: fd_view_def ended_def begin_session_def register_client_fd_def open_fd_def note_fds_def
        set_connection_state_def Let_def)
  have "node_inv cfg ?s1" using inv by (simp add: begin_session_def Let_def)
  then have s2: "node_inv cfg s2" "fd_view s2 = fd_view ?s1" "ended s2 \<le> Suc (ended ?s1)"
    using handle_client_effect [OF h] by (auto split: if_splits)
  have ok: "fds_ok s2" and counts: "node_counts cfg s2"
    using s2(2,3) inv assms(3,5) v e
    by (auto simp: fds_ok_def fd_view_def interrupt_sockets_def node_counts_def ended_def limit_reached_def)
  show ?thesis
  proof (cases finished)
    case True
    let ?s3 = "node_close_fd ?c (clear_client_fd ?c (s2\<lparr>nd_completed_sessions := nd_completed_sessions s2 + 1\<rparr>))"
    have "node_counts cfg ?s3 \<and> fds_idle fd ?s3"
      using s2(2) ok counts inv assms(3,4) v
      by (auto simp: fds_idle_def fds_ok_def fd_view_def node_counts_def node_close_fd_def clear_client_fd_def
          note_fds_def interrupt_sockets_def)
    then have "thread_inv cfg fd ?s3" using s2(1) by (simp add: thread_inv_def)
    with True h assms(1) show ?thesis by (auto simp: serve_client_def end_session_def Let_def split: if_splits)
  next
    case False
    with h assms(1) s2 ok counts show ?thesis by (auto simp: serve_client_def waiting_inv_def)
  qed
qed

section \<open>The receiver thread\<close>

lemma fail_unless_stopped_cases:
  "fail_unless_stopped env e s = (r, s') \<Longrightarrow> s' = tick s \<and> (r = LoopLeft \<and> ne_stop env (nd_tick s) \<or> r = NodeThrew e)"
  by (auto simp: fail_unless_stopped_def split: if_splits)

lemma node_accept_turn_cases:
  assumes "node_accept_turn cfg env fuel s = (r, s')"
  obtains (left) "r = LoopLeft" "s' = tick s \<and> ne_stop env (nd_tick s) \<or> s' = tick (tick s) \<and> ne_stop env (Suc (nd_tick s))"
  | (limit) m where "r = LoopLeft" "s' = set_connection_state ''stopped'' m (tick s)"
  | (failed) e where "r = NodeThrew e" "s' = tick (tick s)"
  | (again) "r = LoopNext" "s' = tick s" "\<not> ne_stop env (nd_tick s)"
  | (serve) client where "serve_client cfg env fuel client (tick s) = (r, s')" "ne_accept env (nd_tick s) = Inr client"
      "\<not> limit_reached (nc_max_sessions cfg) (nd_accepted_sessions s)" "\<not> ne_stop env (nd_tick s)"
proof (cases "ne_stop env (nd_tick s) \<or> limit_reached (nc_max_frames cfg) (nd_received_frames s) \<or>
    limit_reached (nc_max_sessions cfg) (nd_accepted_sessions s)")
  case True
  show thesis
  proof (cases "ne_stop env (nd_tick s)")
    case True
    with assms show thesis by (intro left) (simp_all add: node_accept_turn_def Let_def)
  next
    case False
    with assms True show thesis
      by (cases "limit_reached (nc_max_frames cfg) (nd_received_frames s)")
         (auto simp: node_accept_turn_def Let_def intro: limit)
  qed
next
  case False
  let ?p = "ne_poll env (nd_tick s)"
  have run: "\<not> ne_stop env (nd_tick s)" "\<not> limit_reached (nc_max_frames cfg) (nd_received_frames s)"
    "\<not> limit_reached (nc_max_sessions cfg) (nd_accepted_sessions s)" using False by auto
  have fails: thesis if "fail_unless_stopped env e (tick s) = (r, s')" for e
    using fail_unless_stopped_cases [OF that] left failed [of e] by auto
  note turn = assms [unfolded node_accept_turn_def Let_def]
  consider (again) "pa_ret ?p = 0 \<or> pa_ret ?p < 0 \<and> pa_errno ?p = EINTR"
    | (bad_poll) "pa_ret ?p < 0" "pa_errno ?p \<noteq> EINTR" | (invalid) "0 < pa_ret ?p" "pa_revents ?p AND POLLNVAL \<noteq> 0"
    | (idle) "0 < pa_ret ?p" "pa_revents ?p AND POLLNVAL = 0" "pa_revents ?p AND POLLIN = 0"
    | (ready) "0 < pa_ret ?p" "pa_revents ?p AND POLLNVAL = 0" "pa_revents ?p AND POLLIN \<noteq> 0" by linarith
  then show thesis
  proof cases
    case again
    with turn run show thesis by (intro that(4)) auto
  next
    case bad_poll
    with turn run show thesis by (intro fails) simp
  next
    case invalid
    with turn run show thesis by (intro fails) simp
  next
    case idle
    with turn run show thesis by (intro that(4)) auto
  next
    case ready
    show thesis
    proof (cases "ne_accept env (nd_tick s)")
      case (Inl n)
      show thesis
      proof (cases "n = EINTR")
        case True
        with ready turn run Inl show thesis by (intro that(4)) auto
      next
        case False
        with ready turn run Inl show thesis by (intro fails) simp
      qed
    next
      case (Inr client)
      with ready turn run show thesis by (intro serve) simp_all
    qed
  qed
qed

lemma node_accept_turn_inv:
  assumes "node_accept_turn cfg env fuel s = (r, s')" and "thread_inv cfg fd s"
    and "\<forall>t c. ne_accept env t = Inr c \<longrightarrow> 0 \<le> cl_fd c \<and> cl_fd c \<noteq> fd"
  shows "if r = LoopPending then waiting_inv cfg s' else thread_inv cfg fd s'"
  using assms(1)
proof (cases rule: node_accept_turn_cases)
  case (serve client)
  with serve_client_inv [OF serve(1), of fd] assms(2,3) show ?thesis by auto
qed (use assms(2) in auto)

lemma node_accept_loop_inv:
  assumes "node_accept_loop cfg env inner fuel s = (r, s')" and "thread_inv cfg fd s"
    and "\<forall>t c. ne_accept env t = Inr c \<longrightarrow> 0 \<le> cl_fd c \<and> cl_fd c \<noteq> fd"
  shows "if r = LoopPending then waiting_inv cfg s' else thread_inv cfg fd s'"
  using assms(1,2)
proof (induction fuel arbitrary: s)
  case (Suc fuel)
  obtain r1 s1 where t: "node_accept_turn cfg env inner s = (r1, s1)" by fastforce
  note i = node_accept_turn_inv [OF t Suc.prems(2) assms(3)]
  show ?case
  proof (cases r1)
    case LoopNext
    with Suc.prems(1) t i show ?thesis by (intro Suc.IH [of s1]) simp_all
  qed (use Suc.prems(1) t i in auto)
qed (simp add: thread_waiting)

text \<open>The loop only ends on a stop request, an error, or in the state \<open>stopped\<close>.\<close>

lemma node_accept_loop_left:
  assumes "node_accept_loop cfg env inner fuel s = (LoopLeft, s')"
  shows "(\<exists>t. ne_stop env t) \<or> nd_connection_state s' = ''stopped''"
  using assms
proof (induction fuel arbitrary: s)
  case (Suc fuel)
  obtain r1 s1 where t: "node_accept_turn cfg env inner s = (r1, s1)" by fastforce
  from t have "r1 = LoopLeft \<Longrightarrow> (\<exists>t. ne_stop env t) \<or> nd_connection_state s1 = ''stopped''"
    by (cases rule: node_accept_turn_cases)
       (auto simp: set_connection_state_def serve_client_def split: prod.splits bool.splits)
  with Suc t show ?case by (cases r1) auto
qed simp

lemma listen_setup_inv:
  assumes "listen_setup cfg env new_node = (failed, fd, s)" and "accept_contract env"
  shows "case ne_socket env of Inl n \<Rightarrow> failed \<noteq> None \<and> fd = -1 \<and> s = new_node | Inr fd' \<Rightarrow> fd = fd' \<and> thread_inv cfg fd s"
proof (cases "ne_socket env")
  case (Inr fd')
  then have "0 \<le> fd'" using assms(2) by (auto simp: accept_contract_def)
  moreover have "fd = fd'" "s = register_listen_fd fd' (open_fd fd' new_node)"
    using assms(1) Inr by (auto simp: listen_setup_def Let_def)
  moreover have "nd_open new_node = []" "nd_listen_fd new_node = -1" "nd_client_fd new_node = -1" "nd_fd_states new_node = []"
    by (simp_all add: new_node_def)
  moreover have "node_counts cfg (register_listen_fd fd' (open_fd fd' new_node))"
    using new_node_inv(2) [of cfg] by (simp add: node_counts_def register_listen_fd_def open_fd_def note_fds_def)
  ultimately show ?thesis using Inr new_node_inv(1)
    by (simp add: thread_inv_def fds_idle_def fds_ok_def interrupt_sockets_def) 
       (simp add: register_listen_fd_def open_fd_def note_fds_def)
qed (use assms(1) in \<open>auto simp: listen_setup_def\<close>)

lemma close_listen_inv:
  assumes "thread_inv cfg fd s"
  shows "waiting_inv cfg (node_close_fd fd (clear_listen_fd fd s)) \<and> nd_open (node_close_fd fd (clear_listen_fd fd s)) = []"
  using assms
  by (auto simp: thread_inv_def waiting_inv_def fds_idle_def fds_ok_def node_counts_def interrupt_sockets_def)
     (auto simp: node_close_fd_def clear_listen_fd_def note_fds_def)

section \<open>Stopping\<close>

lemma read_stops:
  assumes "\<forall>t \<ge> T. ne_stop env t"
  shows "0 < fuel \<Longrightarrow> T < t + fuel \<Longrightarrow> fst (read_exact_interruptible env fuel t n buf st) \<noteq> ReadPending"
proof (induction fuel arbitrary: t buf st)
  case (Suc fuel)
  show ?case
  proof (cases "read_turn env t n buf st")
    case (fields res buf' st')
    have "res \<noteq> Some ReadPending" using fields by (auto simp: read_turn_def Let_def split: if_splits recv_event.splits)
    moreover have "res = None \<Longrightarrow> t < T" using fields assms by (auto simp: read_turn_def Let_def not_le [symmetric] split: if_splits)
    ultimately show ?thesis using fields Suc.IH [of "Suc t" buf' st'] Suc.prems by (auto split: option.split)
  qed
qed simp

lemma client_turn_stops:
  assumes "\<forall>t \<ge> T. ne_stop env t" and "T < fuel" and "node_client_turn cfg env fuel stream s = (r, stream', s')"
  shows "r \<noteq> ClientPending" and "r = ClientNext \<Longrightarrow> nd_tick s < T"
proof -
  have r: "node_read env fuel n st x = (q, st', x') \<Longrightarrow> q \<noteq> ReadPending" for n st x q st' x'
    using read_stops [OF assms(1), of fuel "nd_tick x" n "[]" st] assms(2) by (auto simp: node_read_def split: prod.splits)
  show "r \<noteq> ClientPending"
    using assms(3) r
    by (auto simp: node_client_turn_def Let_def split: if_splits prod.splits node_read.splits option.splits) blast+
  show "r = ClientNext \<Longrightarrow> nd_tick s < T"
    using assms(1,3) node_client_turn_stop [of env s cfg fuel stream] by (auto simp: not_le [symmetric])
qed

lemma handle_client_stops:
  assumes "\<forall>t \<ge> T. ne_stop env t" and "T < inner"
  shows "0 < fuel \<Longrightarrow> T < nd_tick s + fuel \<Longrightarrow> fst (handle_client cfg env inner fuel stream s)"
proof (induction fuel arbitrary: stream s)
  case (Suc fuel)
  obtain r st1 s1 where t: "node_client_turn cfg env inner stream s = (r, st1, s1)" by (metis prod_cases3)
  note c = client_turn_stops [OF assms t] node_client_turn_effect(3) [OF t]
  show ?case
  proof (cases r)
    case ClientNext
    with c have "0 < fuel" "T < nd_tick s1 + fuel" using Suc.prems by linarith+
    with Suc.IH t ClientNext show ?thesis by simp
  qed (use t c in auto)
qed simp

lemma serve_client_stops:
  assumes "\<forall>t \<ge> T. ne_stop env t" and "T < fuel" and "serve_client cfg env fuel client s = (r, s')"
  shows "r \<noteq> LoopPending" and "nd_tick s < nd_tick s'"
proof -
  have b: "nd_tick (begin_session client s) = nd_tick s"
    by (simp add: begin_session_def register_client_fd_def open_fd_def note_fds_def set_connection_state_def Let_def)
  have e: "nd_tick (end_session env client x) = Suc (nd_tick x)" for x
    by (simp add: end_session_def node_close_fd_def clear_client_fd_def note_fds_def set_connection_state_def Let_def)
  obtain f st x where h: "handle_client cfg env fuel fuel (cl_bytes client) (begin_session client s) = (f, st, x)" by (metis prod_cases3)
  have f using handle_client_stops [OF assms(1,2), of fuel "begin_session client s" cfg "cl_bytes client"] assms(2) h by simp
  with h assms(3) handle_client_effect [OF h] b e show "r \<noteq> LoopPending" "nd_tick s < nd_tick s'"
    by (auto simp: serve_client_def)
qed

lemma node_accept_loop_stops:
  assumes "\<forall>t \<ge> T. ne_stop env t" and "T < inner"
  shows "0 < fuel \<Longrightarrow> T < nd_tick s + fuel \<Longrightarrow> fst (node_accept_loop cfg env inner fuel s) \<noteq> LoopPending"
proof (induction fuel arbitrary: s)
  case (Suc fuel)
  obtain r s1 where t: "node_accept_turn cfg env inner s = (r, s1)" by fastforce
  have c: "r \<noteq> LoopPending \<and> (r = LoopNext \<longrightarrow> nd_tick s < T \<and> nd_tick s < nd_tick s1)"
    using t
  proof (cases rule: node_accept_turn_cases)
    case again
    with assms(1) show ?thesis by (auto simp: not_le [symmetric])
  next
    case (serve client)
    with serve_client_stops [OF assms serve(1)] assms(1) show ?thesis by (auto simp: not_le [symmetric])
  qed auto
  show ?case
  proof (cases r)
    case LoopNext
    with c have "0 < fuel" "T < nd_tick s1 + fuel" using Suc.prems by linarith+
    with Suc.IH t LoopNext show ?thesis by simp
  qed (use t c in auto)
qed simp

end
