(* ===== verification/Diagnostics_Delivery.thy ===== *)
theory Diagnostics_Delivery
  imports Diagnostics_Safety
begin

text \<open>
  What the ROS 2 adapter makes of a sender's stream, depending on the size of the structure it reads headers
  into, and the properties of its receiver thread.
\<close>

section \<open>A readable connection\<close>

text \<open>No stop request, and every \<open>poll\<close> reports data, of which \<open>recv\<close> hands out any positive number of bytes.\<close>

definition readable :: "node_env \<Rightarrow> bool" where
  "readable env \<longleftrightarrow> (\<forall>t. \<not> ne_stop env t \<and> 0 < pa_ret (ne_poll env t) \<and> pa_revents (ne_poll env t) = POLLIN \<and>
     (\<exists>k. ne_recv env t = Ready k))"

lemma read_turn_readable:
  assumes "readable env"
  shows "read_turn env t n buf st =
    (case ne_recv env t of Ready k \<Rightarrow>
       (let count = min (Suc k) (min (n - length buf) (length st)) in
        if count = 0 then
          (if buf = [] then (Some ReadPeerClosed, buf, st)
           else (Some (ReadError (''peer closed after '' @ to_string (length buf) @ '' of '' @ to_string n @
                   '' requested bytes'')), buf, st))
        else (None, buf @ take count st, drop count st)))"
proof -
  obtain k where "ne_recv env t = Ready k" and "\<not> ne_stop env t" and "0 < pa_ret (ne_poll env t)"
    and "pa_revents (ne_poll env t) = POLLIN" using assms unfolding readable_def by blast
  moreover have "POLLIN AND POLLNVAL = 0" "POLLIN AND POLLERR = 0" "POLLIN AND (POLLIN OR POLLHUP) \<noteq> 0"
    by (simp_all add: POLLIN_def POLLNVAL_def POLLERR_def POLLHUP_def)
  ultimately show ?thesis by (simp add: read_turn_def Let_def)
qed

lemma read_readable:
  assumes "readable env"
  shows "length buf \<le> n \<Longrightarrow> n - length buf \<le> length st \<Longrightarrow> n - length buf \<le> fuel \<Longrightarrow>
    \<exists>t'. read_exact_interruptible env fuel t n buf st = (ReadOk (buf @ take (n - length buf) st), drop (n - length buf) st, t')"
proof (induction fuel arbitrary: t buf st)
  case (Suc fuel)
  show ?case
  proof (cases "length buf < n")
    case True
    obtain k where k: "ne_recv env t = Ready k" using assms unfolding readable_def by blast
    define d where "d = min (Suc k) (min (n - length buf) (length st))"
    have d: "0 < d" "d \<le> n - length buf" "d \<le> length st" using True Suc.prems by (auto simp: d_def)
    have "\<exists>t'. read_exact_interruptible env fuel (Suc t) n (buf @ take d st) (drop d st) =
        (ReadOk ((buf @ take d st) @ take (n - length (buf @ take d st)) (drop d st)),
         drop (n - length (buf @ take d st)) (drop d st), t')"
      using Suc.prems d by (intro Suc.IH) auto
    moreover have "read_turn env t n buf st = (None, buf @ take d st, drop d st)"
      using d(1) k by (auto simp: read_turn_readable [OF assms] Let_def d_def)
    moreover have "d + (n - (length buf + d)) = n - length buf" using d(2) True by linarith
    then have "take d st @ take (n - (length buf + d)) (drop d st) = take (n - length buf) st"
      by (simp only: slices_join_end)
    moreover have "length (buf @ take d st) = length buf + d" "n - (length buf + d) + d = n - length buf" using d(2,3) by simp_all
    ultimately show ?thesis using True by simp
  qed (use Suc.prems in simp)
qed simp

lemma read_short:
  assumes "readable env"
  shows "length buf + length st < n \<Longrightarrow> length st < fuel \<Longrightarrow>
    \<exists>r t'. read_exact_interruptible env fuel t n buf st = (r, [], t') \<and>
      (if buf = [] \<and> st = [] then r = ReadPeerClosed else \<exists>m. r = ReadError m)"
proof (induction fuel arbitrary: t buf st)
  case (Suc fuel)
  obtain k where k: "ne_recv env t = Ready k" using assms unfolding readable_def by blast
  show ?case
  proof (cases "st = []")
    case True
    then show ?thesis using Suc.prems k by (simp add: read_turn_readable [OF assms])
  next
    case False
    define d where "d = min (Suc k) (min (n - length buf) (length st))"
    have d: "0 < d" "d \<le> length st" using False Suc.prems by (auto simp: d_def)
    have "\<exists>r t'. read_exact_interruptible env fuel (Suc t) n (buf @ take d st) (drop d st) = (r, [], t') \<and>
      (if buf @ take d st = [] \<and> drop d st = [] then r = ReadPeerClosed else \<exists>m. r = ReadError m)"
      using Suc.prems d by (intro Suc.IH) auto
    moreover have "read_turn env t n buf st = (None, buf @ take d st, drop d st)"
      using d(1) k by (auto simp: read_turn_readable [OF assms] Let_def d_def)
    ultimately show ?thesis using False Suc.prems d(1) by auto
  qed
qed simp

lemma node_read_ready:
  assumes "readable env" and "length xs \<le> fuel"
  shows "\<exists>t. node_read env fuel (length xs) (xs @ rest) s = (ReadOk xs, rest, s\<lparr>nd_tick := t\<rparr>)"
  using read_readable [OF assms(1), of "[]" "length xs" "xs @ rest" fuel "nd_tick s"] assms(2)
  by (auto simp: node_read_def)

lemma node_read_short:
  assumes "readable env" and "length st < n" and "length st < fuel"
  shows "\<exists>r t. node_read env fuel n st s = (r, [], s\<lparr>nd_tick := t\<rparr>) \<and>
    (if st = [] then r = ReadPeerClosed else \<exists>m. r = ReadError m)"
proof -
  obtain r t' where "read_exact_interruptible env fuel (nd_tick s) n [] st = (r, [], t')"
      "if st = [] then r = ReadPeerClosed else \<exists>m. r = ReadError m"
    using read_short [OF assms(1), of "[]" st n fuel "nd_tick s"] assms(2,3) by auto
  then show ?thesis by (intro exI [of _ r] exI [of _ t']) (simp add: node_read_def)
qed

section \<open>Headers in memory\<close>

text \<open>The bytes after the last field do not matter.\<close>

lemma decode_padded: "decode_header (serialize_header h @ padding) = h"
  by (simp add: serialize_header_layout decode_header_def header_layout_def wire_read wire_dec_enc)

text \<open>Four bytes too late, the size and version of a valid header stand where the magic number is expected.\<close>

lemma decode_shifted:
  assumes "validate_header h m = None"
  shows "validate_header (decode_header (drop 4 (serialize_header h) @ tail)) m' = Some ''invalid magic'' \<or> m' = 0"
proof -
  have "unat (hdr_header_size h) = 44" and v: "hdr_version h = 3"
    using assms by (auto simp: validate_header_iff header_acceptable_def kWireHeaderSize_def kVersion_def)
  then have sv: "hdr_header_size h = 44" "hdr_version h = 3" by (simp_all add: word_unat_eq_iff)
  have "hdr_magic (decode_header (drop 4 (serialize_header h) @ tail)) =
      le_word (take 4 (le_bytes 2 (hdr_header_size h) @ le_bytes 2 (hdr_version h)))"
    by (simp add: serialize_header_layout decode_header_def header_layout_def wire_read)
  also have "\<dots> \<noteq> kMagic" unfolding sv by code_simp
  finally show ?thesis by (simp add: validate_header_def)
qed

section \<open>Images\<close>

lemma node_image_ok:
  assumes "good_frame m (h, p)" and "hdr_pixel_format h = V4L2_PIX_FMT_YUYV"
  obtains img where "node_image cfg h p = Inr img" and "length (img_data img) = unat (img_step img) * unat (img_height img)"
    and "img_width img = hdr_width h" and "img_height img = hdr_height h" and "img_stamp img = to_ros_time (hdr_capture_timestamp_ns h)"
    and "img_encoding img = (if nc_output_encoding cfg \<in> {''rgb8'', ''mono8''} then nc_output_encoding cfg else ''yuv422_yuy2'')"
    and "img_frame_id img = nc_camera_frame_id cfg"
proof -
  let ?w = "hdr_width h" and ?h = "hdr_height h"
  have acc: "header_acceptable h (unat m)" and lp: "length p = unat (hdr_payload_size h)"
    using assms(1) by (simp_all add: good_frame_def validate_header_iff)
  have w: "unat ?w \<le> 16384" and ev: "?w mod 2 = 0" and len: "length p = unat ?w * unat ?h * 2"
    using acc lp assms(2) by (auto simp: header_acceptable_def word_mod_2_unat)
  have step: "unat (?w * 3) = unat ?w * 3" "unat (?w * 2) = unat ?w * 2"
    using w by (subst unat_mult_lem [THEN iffD1]; simp)+
  obtain n where n: "length p = 4 * n" "unat ?w * unat ?h = 2 * n" using len ev by (rule even_width_blocks)
  have n': "unat ?h * unat ?w = 2 * n" using n(2) by (simp add: mult.commute)
  consider "nc_output_encoding cfg = ''rgb8''" | "nc_output_encoding cfg = ''mono8''"
    | "nc_output_encoding cfg \<noteq> ''rgb8''" "nc_output_encoding cfg \<noteq> ''mono8''" by blast
  then show thesis
  proof cases
    case 1
    then show thesis
      using len ev step rgb8_macropixels [OF len ev] rgb8.length_macropixels [OF n(1)] n n'
      by (intro that) (auto simp: node_image_def convert_yuyv_to_rgb8_def)
  next
    case 2
    then show thesis
      using len ev step mono8_macropixels [OF len ev] mono8.length_macropixels [OF n(1)] n n'
      by (intro that) (auto simp: node_image_def convert_yuyv_to_mono8_def)
  next
    case 3
    then show thesis using len step by (intro that) (auto simp: node_image_def)
  qed
qed

text \<open>The publishers do not throw and images are published.\<close>

definition publishing :: "node_config \<Rightarrow> node_env \<Rightarrow> bool" where
  "publishing cfg env \<longleftrightarrow> nc_publish_images cfg \<and> (\<forall>t. ne_publish_image env t = None \<and> ne_publish_info env t = None)"

definition shown :: "node_config \<Rightarrow> node \<Rightarrow> (exn + ros_image) list" where
  "shown cfg s = map Inr (nd_images s)"

lemma take_over_fields:
  "nd_frames (take_over cfg env h p s) = nd_frames s @ [(h, p)]"
  "nd_crc_errors (take_over cfg env h p s) = nd_crc_errors s"
  "nd_header_errors (take_over cfg env h p s) = nd_header_errors s"
  "nd_peer_disconnects (take_over cfg env h p s) = nd_peer_disconnects s"
proof -
  let ?now = "ne_system_ns env (nd_tick s)"
  have l: "nd_frames (node_latency h ?now (tick s)) = nd_frames s" "nd_crc_errors (node_latency h ?now (tick s)) = nd_crc_errors s"
    "nd_header_errors (node_latency h ?now (tick s)) = nd_header_errors s"
    "nd_peer_disconnects (node_latency h ?now (tick s)) = nd_peer_disconnects s"
    by (cases h ?now "tick s" rule: node_latency_effect; simp add: tick_def)+
  have "nd_frames (publish_frame cfg env h p x) = nd_frames x \<and> nd_crc_errors (publish_frame cfg env h p x) = nd_crc_errors x \<and>
      nd_header_errors (publish_frame cfg env h p x) = nd_header_errors x \<and>
      nd_peer_disconnects (publish_frame cfg env h p x) = nd_peer_disconnects x" for x
    by (cases cfg env h p x rule: publish_frame_effect) simp_all
  with l show "nd_frames (take_over cfg env h p s) = nd_frames s @ [(h, p)]"
    "nd_crc_errors (take_over cfg env h p s) = nd_crc_errors s"
    "nd_header_errors (take_over cfg env h p s) = nd_header_errors s"
    "nd_peer_disconnects (take_over cfg env h p s) = nd_peer_disconnects s"
    by (simp_all add: take_over_def Let_def)
qed

lemma take_over_shown:
  assumes "publishing cfg env" and "good_frame m (h, p)" and "hdr_pixel_format h = V4L2_PIX_FMT_YUYV"
  shows "shown cfg (take_over cfg env h p s) = shown cfg s @ [node_image cfg h p]"
proof -
  have l: "nd_images (node_latency h now x) = nd_images x" for now x
    by (cases h now x rule: node_latency_effect) simp_all
  obtain img where "node_image cfg h p = Inr img" using assms(2,3) by (rule node_image_ok)
  with assms(1,3) show ?thesis
    by (simp add: take_over_def publish_frame_def publishing_def shown_def Let_def l) (simp add: tick_def l)
qed

section \<open>Turns of a readable session\<close>

lemma turn_taken:
  assumes "readable env" and "ne_host_header env = kWireHeaderSize" and "nc_max_frames cfg \<le> 0"
    and "good_frame (word_of_int (nc_max_payload_bytes cfg)) (h, p)" and "length (frame_bytes (h, p)) \<le> fuel"
  shows "\<exists>t. node_client_turn cfg env fuel (frame_bytes (h, p) @ rest) s = (ClientNext, rest, take_over cfg env h p (s\<lparr>nd_tick := t\<rparr>))"
proof -
  have g: "validate_header h (word_of_int (nc_max_payload_bytes cfg)) = None" "length p = unat (hdr_payload_size h)"
    "compute_crc32 p = hdr_payload_crc32 h" using assms(4) by (simp_all add: good_frame_def)
  have len: "length (serialize_header h) \<le> fuel" "length p \<le> fuel" using assms(5) by (simp_all add: frame_bytes_def)
  obtain t1 where r1: "node_read env fuel kWireHeaderSize (serialize_header h @ p @ rest) (tick s) =
      (ReadOk (serialize_header h), p @ rest, (tick s)\<lparr>nd_tick := t1\<rparr>)"
    using node_read_ready [OF assms(1) len(1), of "p @ rest" "tick s"] by auto
  obtain t2 where r2: "node_read env fuel (unat (hdr_payload_size h)) (p @ rest) ((tick s)\<lparr>nd_tick := t1\<rparr>) =
      (ReadOk p, rest, (tick s)\<lparr>nd_tick := t2\<rparr>)"
    using node_read_ready [OF assms(1) len(2), of rest "(tick s)\<lparr>nd_tick := t1\<rparr>"] g(2) by auto
  have "\<not> ne_stop env (nd_tick s)" using assms(1) by (simp add: readable_def)
  moreover have "\<not> limit_reached (nc_max_frames cfg) n" for n using assms(3) by (simp add: limit_reached_def)
  moreover have "decode_header (serialize_header h) = h" using decode_padded [of h "[]"] by simp
  moreover have "(tick s)\<lparr>nd_tick := t2\<rparr> = s\<lparr>nd_tick := t2\<rparr>" by (simp add: tick_def)
  ultimately show ?thesis
    using r1 r2 g assms(2) by (intro exI [of _ t2]) (simp add: node_client_turn_def frame_bytes_def Let_def)
qed

lemma turn_short:
  assumes "readable env" and "nc_max_frames cfg \<le> 0" and "length stream < ne_host_header env" and "length stream < fuel"
  shows "\<exists>t m. node_client_turn cfg env fuel stream s =
    (ClientReturn, [], s\<lparr>nd_tick := t, nd_peer_disconnects := Suc (nd_peer_disconnects s), nd_last_error := m\<rparr>)"
proof -
  obtain r t where r: "node_read env fuel (ne_host_header env) stream (tick s) = (r, [], (tick s)\<lparr>nd_tick := t\<rparr>)"
    "if stream = [] then r = ReadPeerClosed else \<exists>m. r = ReadError m"
    using node_read_short [OF assms(1,3,4), of "tick s"] by blast
  have "\<not> ne_stop env (nd_tick s)" using assms(1) by (simp add: readable_def)
  moreover have "\<not> limit_reached (nc_max_frames cfg) n" for n using assms(2) by (simp add: limit_reached_def)
  moreover have "(tick s)\<lparr>nd_tick := t\<rparr> = s\<lparr>nd_tick := t\<rparr>" by (simp add: tick_def)
  ultimately have turn: "r = ReadPeerClosed \<Longrightarrow> node_client_turn cfg env fuel stream s =
      (ClientReturn, [], s\<lparr>nd_tick := t, nd_peer_disconnects := Suc (nd_peer_disconnects s)\<rparr>)"
    "\<And>m. r = ReadError m \<Longrightarrow> node_client_turn cfg env fuel stream s =
      (ClientReturn, [], s\<lparr>nd_tick := t, nd_peer_disconnects := Suc (nd_peer_disconnects s), nd_last_error := m\<rparr>)"
    using r(1) by (simp_all add: node_client_turn_def Let_def set_last_error_def)
  show ?thesis
  proof (cases "stream = []")
    case True
    with r(2) turn(1) show ?thesis by (intro exI [of _ t] exI [of _ "nd_last_error s"]) simp
  next
    case False
    with r(2) turn(2) show ?thesis by auto
  qed
qed

lemma session_frames:
  assumes "readable env" and "ne_host_header env = kWireHeaderSize" and "nc_max_frames cfg \<le> 0"
  shows "\<forall>f \<in> set fs. good_frame (word_of_int (nc_max_payload_bytes cfg)) f \<Longrightarrow>
    length (concat (map frame_bytes fs)) < inner \<Longrightarrow> length fs < fuel \<Longrightarrow>
    \<exists>s'. handle_client cfg env inner fuel (concat (map frame_bytes fs)) s = (True, [], s') \<and>
      nd_frames s' = nd_frames s @ fs \<and> nd_crc_errors s' = nd_crc_errors s \<and> nd_header_errors s' = nd_header_errors s \<and>
      nd_peer_disconnects s' = Suc (nd_peer_disconnects s) \<and>
      (publishing cfg env \<and> (\<forall>(h, p) \<in> set fs. hdr_pixel_format h = V4L2_PIX_FMT_YUYV) \<longrightarrow>
         shown cfg s' = shown cfg s @ map (\<lambda>(h, p). node_image cfg h p) fs)"
proof (induction fs arbitrary: fuel s)
  case Nil
  then obtain n where n: "fuel = Suc n" by (cases fuel) auto
  have "length ([] :: bytes) < ne_host_header env" using assms(2) by (simp add: kWireHeaderSize_def)
  from turn_short [OF assms(1,3) this, of inner s] Nil n show ?case
    by (auto simp: shown_def)
next
  case (Cons f fs)
  then obtain n where n: "fuel = Suc n" by (cases fuel) auto
  obtain h p where f: "f = (h, p)" by fastforce
  have g: "good_frame (word_of_int (nc_max_payload_bytes cfg)) (h, p)" "length (frame_bytes (h, p)) \<le> inner"
    using Cons.prems f by auto
  from turn_taken [OF assms g, of "concat (map frame_bytes fs)" s] obtain t where
    t: "node_client_turn cfg env inner (concat (map frame_bytes (f # fs))) s =
      (ClientNext, concat (map frame_bytes fs), take_over cfg env h p (s\<lparr>nd_tick := t\<rparr>))" by (auto simp: f)
  let ?s1 = "take_over cfg env h p (s\<lparr>nd_tick := t\<rparr>)"
  have "shown cfg (s\<lparr>nd_tick := t\<rparr>) = shown cfg s" by (simp add: shown_def)
  with Cons.IH [of n ?s1] Cons.prems n t take_over_shown [OF _ g(1), of cfg env "s\<lparr>nd_tick := t\<rparr>"]
  show ?case by (auto simp: take_over_fields f)
qed

lemma session_frames_fuel:
  assumes "readable env" and "ne_host_header env = kWireHeaderSize" and "nc_max_frames cfg \<le> 0"
    and "\<forall>f \<in> set fs. good_frame (word_of_int (nc_max_payload_bytes cfg)) f" and "length (concat (map frame_bytes fs)) < fuel"
  shows "\<exists>s'. handle_client cfg env fuel fuel (concat (map frame_bytes fs)) s = (True, [], s') \<and>
      nd_frames s' = nd_frames s @ fs \<and> nd_crc_errors s' = nd_crc_errors s \<and> nd_header_errors s' = nd_header_errors s \<and>
      (publishing cfg env \<and> (\<forall>(h, p) \<in> set fs. hdr_pixel_format h = V4L2_PIX_FMT_YUYV) \<longrightarrow>
         shown cfg s' = shown cfg s @ map (\<lambda>(h, p). node_image cfg h p) fs)"
proof -
  have "length fs \<le> length (concat (map frame_bytes fs))"
    by (induction fs) (auto simp: frame_bytes_def kWireHeaderSize_def)
  then have "length fs < fuel" using assms(5) by simp
  with session_frames [of env cfg fs fuel fuel s] assms show ?thesis by auto
qed

section \<open>Headers read with padding\<close>

text \<open>A turn that starts four bytes inside a header ends the session.\<close>

lemma turn_shifted:
  assumes "readable env" and "ne_host_header env = 48" and "nc_max_frames cfg \<le> 0"
    and "validate_header h (word_of_int (nc_max_payload_bytes cfg)) = None"
    and stream: "stream = drop 4 (serialize_header h) @ rest" and "length stream < fuel"
  shows "\<exists>s' st. node_client_turn cfg env fuel stream s = (ClientReturn, st, s') \<and> nd_frames s' = nd_frames s \<and> ended s' = Suc (ended s)"
proof (cases "length stream < 48")
  case True
  then show ?thesis using turn_short [OF assms(1,3) _ assms(6), of s] assms(2) by (auto simp: ended_def)
next
  case False
  let ?raw = "take 48 stream"
  have raw: "stream = ?raw @ drop 48 stream" "length ?raw = 48" using False by simp_all
  have "length ?raw \<le> fuel" using False assms(6) by simp
  from node_read_ready [OF assms(1) this, of "drop 48 stream" "tick s"] raw obtain t where
    r: "node_read env fuel 48 stream (tick s) = (ReadOk ?raw, drop 48 stream, (tick s)\<lparr>nd_tick := t\<rparr>)" by auto
  have "?raw = drop 4 (serialize_header h) @ take 8 rest" by (simp add: stream kWireHeaderSize_def)
  moreover have "word_of_int (nc_max_payload_bytes cfg) \<noteq> (0 :: u32)" using assms(4) by (auto simp: validate_header_iff)
  ultimately have "validate_header (decode_header ?raw) (word_of_int (nc_max_payload_bytes cfg)) = Some ''invalid magic''"
    using decode_shifted [OF assms(4)] by metis
  moreover have "\<not> ne_stop env (nd_tick s)" using assms(1) by (simp add: readable_def)
  moreover have "\<not> limit_reached (nc_max_frames cfg) n" for n using assms(3) by (simp add: limit_reached_def)
  ultimately show ?thesis using r assms(2)
    by (simp add: node_client_turn_def Let_def ended_def set_last_error_def) (simp add: tick_def)
qed

text \<open>The first turn takes four bytes of the payload for padding and misses them at the end.\<close>

lemma turn_padded:
  assumes "readable env" and "ne_host_header env = 48" and "nc_max_frames cfg \<le> 0"
    and good: "good_frame (word_of_int (nc_max_payload_bytes cfg)) (h, p)" and "4 \<le> length p"
    and "length (frame_bytes (h, p) @ rest) < fuel"
  shows "\<exists>r s'. node_client_turn cfg env fuel (frame_bytes (h, p) @ rest) s = (r, drop 4 rest, s') \<and>
    (if length rest < 4 then r = ClientReturn \<and> nd_frames s' = nd_frames s \<and> ended s' = Suc (ended s)
     else r = ClientNext \<and> ended s' = ended s \<and>
       nd_frames s' = nd_frames s @
         (if compute_crc32 (drop 4 p @ take 4 rest) = hdr_payload_crc32 h then [(h, drop 4 p @ take 4 rest)] else []))"
proof -
  let ?raw = "serialize_header h @ take 4 p" and ?data = "drop 4 p @ take 4 rest"
  have g: "validate_header h (word_of_int (nc_max_payload_bytes cfg)) = None" "length p = unat (hdr_payload_size h)"
    using good by (simp_all add: good_frame_def)
  have lr: "length ?raw = 48" using assms(5) by (simp add: kWireHeaderSize_def)
  then have "length ?raw \<le> fuel" using assms(5,6) by (simp add: frame_bytes_def kWireHeaderSize_def)
  from node_read_ready [OF assms(1) this, of "drop 4 p @ rest" "tick s"] obtain t where
    "node_read env fuel 48 (?raw @ drop 4 p @ rest) (tick s) = (ReadOk ?raw, drop 4 p @ rest, (tick s)\<lparr>nd_tick := t\<rparr>)"
    unfolding lr by blast
  moreover have "frame_bytes (h, p) @ rest = ?raw @ drop 4 p @ rest"
    by (simp add: frame_bytes_def)
  ultimately have r: "node_read env fuel 48 (frame_bytes (h, p) @ rest) (tick s) =
      (ReadOk ?raw, drop 4 p @ rest, (tick s)\<lparr>nd_tick := t\<rparr>)" by metis
  have run: "\<not> ne_stop env (nd_tick s)" "\<And>n. \<not> limit_reached (nc_max_frames cfg) n"
    using assms(1,3) by (simp_all add: readable_def limit_reached_def)
  have tk: "(tick s)\<lparr>nd_tick := t\<rparr> = s\<lparr>nd_tick := t\<rparr>" for t by (simp add: tick_def)
  show ?thesis
  proof (cases "length rest < 4")
    case True
    have l: "length (drop 4 p @ rest) < length p" "length (drop 4 p @ rest) < fuel"
      using True assms(5,6) by (simp_all add: frame_bytes_def)
    let ?left = "drop 4 p @ rest"
    obtain q t2 where q: "node_read env fuel (length p) ?left (s\<lparr>nd_tick := t\<rparr>) = (q, [], s\<lparr>nd_tick := t\<rparr>\<lparr>nd_tick := t2\<rparr>)"
      and c: "if ?left = [] then q = ReadPeerClosed else \<exists>m. q = ReadError m"
      using node_read_short [OF assms(1) l, of "s\<lparr>nd_tick := t\<rparr>"] by blast
    have "q = ReadPeerClosed \<or> (\<exists>m. q = ReadError m)" using c by (meson)
    moreover have "node_read env fuel (unat (hdr_payload_size h)) ?left (s\<lparr>nd_tick := t\<rparr>) = (q, [], s\<lparr>nd_tick := t2\<rparr>)"
      using q g(2) by simp
    ultimately show ?thesis
      using r run g(1) True assms(2)
      by (auto simp: node_client_turn_def Let_def decode_padded tk ended_def set_last_error_def)
  next
    case False
    have l: "length ?data = unat (hdr_payload_size h)" using False assms(5) g(2) by simp
    have "length ?data \<le> fuel" using assms(6) by (simp add: frame_bytes_def)
    from node_read_ready [OF assms(1) this, of "drop 4 rest" "s\<lparr>nd_tick := t\<rparr>"] obtain t2 where
      e: "node_read env fuel (length ?data) (?data @ drop 4 rest) (s\<lparr>nd_tick := t\<rparr>) = (ReadOk ?data, drop 4 rest, s\<lparr>nd_tick := t\<rparr>\<lparr>nd_tick := t2\<rparr>)"
      by blast
    have "drop 4 p @ rest = ?data @ drop 4 rest" by simp
    then have "node_read env fuel (unat (hdr_payload_size h)) (drop 4 p @ rest) (s\<lparr>nd_tick := t\<rparr>) = (ReadOk ?data, drop 4 rest, s\<lparr>nd_tick := t2\<rparr>)"
      using e unfolding l by (simp only:) simp
    then show ?thesis
      using r run g(1) False assms(2) take_over_view(2) [of cfg env h ?data "s\<lparr>nd_tick := t2\<rparr>"]
      by (auto simp: node_client_turn_def Let_def decode_padded tk ended_def set_last_error_def take_over_fields)
  qed
qed

lemma padded_session:
  assumes "readable env" and "ne_host_header env = 48" and "nc_max_frames cfg \<le> 0"
    and "\<forall>f \<in> set (f # fs). good_frame (word_of_int (nc_max_payload_bytes cfg)) f \<and> 4 \<le> length (snd f)"
    and "length (concat (map frame_bytes (f # fs))) < fuel"
  shows "\<exists>st s'. handle_client cfg env fuel fuel (concat (map frame_bytes (f # fs))) s = (True, st, s') \<and> ended s' = Suc (ended s) \<and>
    (case fs of [] \<Rightarrow> nd_frames s' = nd_frames s
     | g # gs \<Rightarrow> (let data = drop 4 (snd f) @ take 4 (serialize_header (fst g)) in
         nd_frames s' = nd_frames s @ (if compute_crc32 data = hdr_payload_crc32 (fst f) then [(fst f, data)] else [])))"
proof -
  obtain h p where f: "f = (h, p)" by fastforce
  let ?rest = "concat (map frame_bytes fs)"
  obtain n where n: "fuel = Suc (Suc n)" using assms(5) f
    by (cases fuel; cases "fuel - 1") (auto simp: frame_bytes_def kWireHeaderSize_def)
  have "length (frame_bytes (h, p) @ ?rest) < fuel" using assms(5) f by simp
  from turn_padded [OF assms(1-3) _ _ this, of s] assms(4) f obtain r s1 where
    t: "node_client_turn cfg env fuel (frame_bytes (h, p) @ ?rest) s = (r, drop 4 ?rest, s1)"
    "if length ?rest < 4 then r = ClientReturn \<and> nd_frames s1 = nd_frames s \<and> ended s1 = Suc (ended s)
     else r = ClientNext \<and> ended s1 = ended s \<and> nd_frames s1 = nd_frames s @
       (if compute_crc32 (drop 4 p @ take 4 ?rest) = hdr_payload_crc32 h then [(h, drop 4 p @ take 4 ?rest)] else [])" by auto
  show ?thesis
  proof (cases fs)
    case Nil
    with t n f show ?thesis by auto
  next
    case (Cons g gs)
    let ?more = "snd g @ concat (map frame_bytes gs)"
    have rest: "?rest = serialize_header (fst g) @ ?more" by (simp add: Cons frame_bytes_def)
    then have four: "\<not> length ?rest < 4" "take 4 ?rest = take 4 (serialize_header (fst g))"
      "drop 4 ?rest = drop 4 (serialize_header (fst g)) @ ?more" by (simp_all add: kWireHeaderSize_def)
    have "validate_header (fst g) (word_of_int (nc_max_payload_bytes cfg)) = None"
      using assms(4) Cons by (simp add: good_frame_def)
    moreover have "length (drop 4 ?rest) < fuel" using assms(5) by simp
    ultimately obtain s2 st where "node_client_turn cfg env fuel (drop 4 ?rest) s1 = (ClientReturn, st, s2)"
      "nd_frames s2 = nd_frames s1" "ended s2 = Suc (ended s1)"
      using turn_shifted [OF assms(1-3) _ four(3)] by blast
    with t n f four(1,2) Cons show ?thesis by (simp add: Let_def)
  qed
qed

section \<open>The whole thread\<close>

lemma receiver_thread_inv:
  assumes "receiver_loop cfg env fuel new_node = (returned, s)" and "accept_contract env"
  shows "waiting_inv cfg s \<and> (returned \<longrightarrow> nd_open s = [] \<and>
      ((\<exists>t. ne_stop env t) \<or> nd_connection_state s \<in> {''stopped'', ''error''}))"
proof -
  obtain failed fd s0 where l: "listen_setup cfg env new_node = (failed, fd, s0)" by (metis prod_cases3)
  note inv0 = listen_setup_inv [OF l assms(2)]
  have state: "nd_connection_state (node_close_fd a (clear_listen_fd a x)) = nd_connection_state x" for a x
    by (simp add: node_close_fd_def clear_listen_fd_def note_fds_def)
  have set_state: "nd_connection_state (set_connection_state st m x) = st" for st m x by (simp add: set_connection_state_def)
  let ?closed = "\<lambda>x. node_close_fd fd (clear_listen_fd fd x)"
  let ?failure = "\<lambda>e x. if ne_stop env (nd_tick x) then tick x
      else set_connection_state ''error'' (what e) (set_last_error (what e) (tick x))"
  show ?thesis
  proof (cases "ne_socket env")
    case (Inl n)
    with inv0 obtain e where "failed = Some e" "fd = -1" "s0 = new_node" by auto
    moreover have "waiting_inv cfg (?closed (?failure e new_node)) \<and> nd_open (?closed (?failure e new_node)) = []"
      if "fd = -1" for e
      using that new_node_inv [of cfg]
      by (auto simp: waiting_inv_def fds_ok_def interrupt_sockets_def node_counts_def)
         (simp_all add: node_close_fd_def clear_listen_fd_def note_fds_def new_node_def tick_def set_connection_state_def
           set_last_error_def)
    ultimately show ?thesis
      using assms(1) l by (auto simp: receiver_loop_def Let_def state set_state split: if_splits)
  next
    case (Inr fd')
    with inv0 have i0: "fd = fd'" "thread_inv cfg fd s0" by auto
    have contract: "\<forall>t c. ne_accept env t = Inr c \<longrightarrow> 0 \<le> cl_fd c \<and> cl_fd c \<noteq> fd"
      using assms(2) Inr i0(1) by (auto simp: accept_contract_def)
    let ?s1 = "set_connection_state ''listening'' ''waiting for a protocol v3 TCP frame sender'' s0"
    obtain r x where run: "(case failed of Some e \<Rightarrow> (NodeThrew e, s0) | None \<Rightarrow> node_accept_loop cfg env fuel fuel ?s1) = (r, x)"
      by fastforce
    then have inv: "if r = LoopPending then waiting_inv cfg x else thread_inv cfg fd x"
      using node_accept_loop_inv [OF _ _ contract, of cfg fuel fuel ?s1 r x] i0(2) by (auto split: option.splits)
    have left: "r = LoopLeft \<Longrightarrow> (\<exists>t. ne_stop env t) \<or> nd_connection_state x = ''stopped''"
      using run node_accept_loop_left [of cfg env fuel fuel ?s1 x] by (auto split: option.splits)
    have next_no: "r \<noteq> LoopNext"
    proof -
      have "fst (node_accept_loop cfg env inner fuel y) \<noteq> LoopNext" for inner y
        by (induction fuel arbitrary: y) (auto split: prod.splits node_loop.splits)
      with run show ?thesis by (auto split: option.splits) (metis fst_conv)
    qed
    have e: "receiver_loop cfg env fuel new_node = (case (r, x) of
          (LoopPending, s) \<Rightarrow> (False, s) | (NodeThrew e, s) \<Rightarrow> (True, ?closed (?failure e s)) | (_, s) \<Rightarrow> (True, ?closed s))"
      using l run by (cases r) (simp_all add: receiver_loop_def Let_def)
    show ?thesis
    proof (cases r)
      case (NodeThrew ex)
      with inv have "thread_inv cfg fd (?failure ex x)" by simp
      from close_listen_inv [OF this] e assms(1) NodeThrew show ?thesis
        by (auto simp: state set_state)
    qed (use e assms(1) inv left next_no state close_listen_inv [of cfg fd x] in auto)+
  qed
qed

section \<open>Properties\<close>

text \<open>
  C14: the adapter's counters and images are consistent, whatever the peers send and however the system calls
  answer. Every frame it counts passed the header validation with the configured limit and its CRC; the published
  images are conversions of such frames, in their order; every received frame has either a latency sample or a
  clock error, and, when images are published, either an image message or a publish error; rejected frames are the
  header and CRC errors; the configured limits hold. At every moment the destructor may interrupt the thread, the
  descriptors it would shut down are open, and when the thread has returned all descriptors are closed and it was
  asked to stop or shows the state \<open>stopped\<close> or \<open>error\<close>.
\<close>

theorem receiver_thread_consistent:
  assumes "receiver_loop cfg env fuel new_node = (returned, s)" and "accept_contract env"
  shows "node_inv cfg s \<and> node_counts cfg s \<and>
    (\<forall>(fds, listen_fd, client_fd) \<in> set (nd_fd_states s). set (interrupt_sockets listen_fd client_fd) \<subseteq> set fds) \<and>
    (returned \<longrightarrow> nd_open s = [] \<and> ((\<exists>t. ne_stop env t) \<or> nd_connection_state s \<in> {''stopped'', ''error''}))"
  using receiver_thread_inv [OF assms] by (simp add: waiting_inv_def fds_ok_def)

text \<open>An environment with the given header size that hands out everything it has and stops after a while.\<close>

definition demo_node_env :: "nat \<Rightarrow> (nat \<Rightarrow> bool) \<Rightarrow> node_env" where
  "demo_node_env header_size stop = \<lparr>ne_strerror = (\<lambda>n. ''error''), ne_host_header = header_size, ne_socket = Inr 3,
     ne_setsockopt = None, ne_inet_pton = 1, ne_bind = None, ne_listen = None, ne_stop = stop,
     ne_poll = (\<lambda>t. \<lparr>pa_ret = 1, pa_errno = EINTR, pa_revents = POLLIN\<rparr>), ne_recv = (\<lambda>t. Ready 30),
     ne_accept = (\<lambda>t. Inr \<lparr>cl_fd = 4, cl_bytes = frame_bytes (sample_header, sample_payload), cl_address = Some ''10.0.0.1'',
       cl_port = 5000\<rparr>), ne_system_ns = (\<lambda>t. 2000), ne_publish_image = (\<lambda>t. None), ne_publish_info = (\<lambda>t. None)\<rparr>"

lemma demo_contract: "accept_contract (demo_node_env n stop)"
  by (simp add: accept_contract_def demo_node_env_def)

lemma demo_readable: "readable (demo_node_env n (\<lambda>t. False))"
  by (simp add: readable_def demo_node_env_def)

lemma sample_wire: "length (frame_bytes (sample_header, sample_payload)) = 48"
  by (simp add: frame_bytes_def kWireHeaderSize_def sample_payload_def)

lemma sample_node_frame: "good_frame (word_of_int (nc_max_payload_bytes default_node_config)) (sample_header, sample_payload)"
  using sample_frame_good by (simp add: default_node_config_def)

theorem receiver_thread_consistent_witness:
  "\<exists>returned s. receiver_loop default_node_config (demo_node_env 48 (\<lambda>t. 20 \<le> t)) 30 new_node = (returned, s) \<and>
     length (nd_frames s) = nd_received_frames s \<and> (returned \<longrightarrow> nd_open s = [])"
proof -
  obtain returned s where e: "receiver_loop default_node_config (demo_node_env 48 (\<lambda>t. 20 \<le> t)) 30 new_node = (returned, s)"
    by fastforce
  from receiver_thread_consistent [OF e demo_contract] e show ?thesis by (auto simp: node_inv_def)
qed

text \<open>
  C17: the destructor's request ends the receiver thread. When the stop flag is set from some moment on, the
  thread returns, wherever it was and whatever the system calls answer, after at most that many more turns of its
  loops.
\<close>

theorem receiver_thread_stops:
  assumes "\<forall>t \<ge> T. ne_stop env t" and "T < fuel"
  shows "fst (receiver_loop cfg env fuel s)"
proof -
  obtain failed fd s0 where l: "listen_setup cfg env s = (failed, fd, s0)" by (metis prod_cases3)
  let ?s1 = "set_connection_state ''listening'' ''waiting for a protocol v3 TCP frame sender'' s0"
  obtain r x where run: "node_accept_loop cfg env fuel fuel ?s1 = (r, x)" by fastforce
  have "r \<noteq> LoopPending" using node_accept_loop_stops [OF assms, of fuel ?s1 cfg] assms(2) run by simp
  with l run show ?thesis
    by (auto simp: receiver_loop_def Let_def split: option.split node_loop.split)
qed

theorem receiver_thread_stops_witness:
  "fst (receiver_loop default_node_config (demo_node_env 48 (\<lambda>t. 5 \<le> t)) 6 new_node)"
  by (rule receiver_thread_stops [of 5]) (simp_all add: demo_node_env_def)

text \<open>
  C16: on a host whose header structure has the size of the wire header the adapter delivers a stream. It takes over
  all frames of a complete stream of valid frames, however the bytes are cut, without errors, and when
  images are published and all frames are YUYV it publishes the conversion of every frame, in order.
\<close>

theorem node_delivers_all:
  assumes "readable env" and "ne_host_header env = 44" and "nc_max_frames cfg \<le> 0"
    and "\<forall>f \<in> set fs. good_frame (word_of_int (nc_max_payload_bytes cfg)) f"
    and "length (concat (map frame_bytes fs)) < fuel"
  shows "\<exists>s'. handle_client cfg env fuel fuel (concat (map frame_bytes fs)) s = (True, [], s') \<and>
    nd_frames s' = nd_frames s @ fs \<and> nd_crc_errors s' = nd_crc_errors s \<and> nd_header_errors s' = nd_header_errors s \<and>
    (publishing cfg env \<and> (\<forall>(h, p) \<in> set fs. hdr_pixel_format h = V4L2_PIX_FMT_YUYV) \<longrightarrow>
       map Inr (nd_images s') = map Inr (nd_images s) @ map (\<lambda>(h, p). node_image cfg h p) fs)"
  using session_frames_fuel [of env cfg fs fuel s] assms by (auto simp: kWireHeaderSize_def shown_def)

theorem node_delivers_all_witness:
  "\<exists>s' img. handle_client default_node_config (demo_node_env 44 (\<lambda>t. False)) 60 60 (frame_bytes (sample_header, sample_payload)) new_node =
      (True, [], s') \<and> nd_frames s' = [(sample_header, sample_payload)] \<and> nd_images s' = [img] \<and>
      node_image default_node_config sample_header sample_payload = Inr img"
proof -
  let ?env = "demo_node_env 44 (\<lambda>t. False)"
  have "publishing default_node_config ?env" by (simp add: publishing_def demo_node_env_def default_node_config_def)
  moreover have "hdr_pixel_format sample_header = V4L2_PIX_FMT_YUYV" by (simp add: sample_header_def make_header_def)
  moreover have "ne_host_header ?env = 44" "nc_max_frames default_node_config \<le> 0"
    by (simp_all add: demo_node_env_def default_node_config_def)
  moreover have "nd_frames new_node = []" "nd_images new_node = []" by (simp_all add: new_node_def)
  ultimately show ?thesis
    using node_delivers_all [OF demo_readable, of 44 default_node_config "[(sample_header, sample_payload)]" 60 new_node]
      sample_node_frame sample_wire by auto
qed



end
