(* ===== verification/Diagnostics_Report.thy ===== *)
theory Diagnostics_Report
  imports Diagnostics_Delivery
begin

text \<open>
  The timer of the ROS 2 adapter, \<open>publish_diagnostics\<close>: the rate since the last report, the level and the list of
  keys and values. It reads one state of the node; in the program the receiver thread may change a counter
  between two of the reads.
\<close>

section \<open>The diagnostics message\<close>

datatype diag_level = DiagOk | DiagWarn | DiagError

record diagnostic_status =
  ds_level :: diag_level
  ds_name :: string
  ds_message :: string
  ds_hardware_id :: string
  ds_values :: "(string \<times> string) list"

record diagnostic_array =
  da_stamp :: ros_time
  da_status :: "diagnostic_status list"

record rate_state =
  last_rate_frame_count :: nat
  last_rate_time :: int

definition to_string_bool :: "bool \<Rightarrow> string" where
  "to_string_bool v = (if v then ''true'' else ''false'')"

definition format_double :: "cpp_double \<Rightarrow> string" where
  "format_double v = (case v of NonFinite \<Rightarrow> ''0.000'' | Finite x \<Rightarrow> fixed3 x)"

definition add_value :: "diagnostic_status \<Rightarrow> string \<Rightarrow> string \<Rightarrow> diagnostic_status" where
  "add_value status key val = status\<lparr>ds_values := ds_values status @ [(key, val)]\<rparr>"

text \<open>The frames per second since the last report; the clock counts nanoseconds.\<close>

definition receive_rate :: "int \<Rightarrow> nat \<Rightarrow> rate_state \<Rightarrow> real" where
  "receive_rate now frame_count r =
     (let interval_seconds = real_of_int (now - last_rate_time r) / 1000000000 in
      if interval_seconds > 0 then real (frame_count - last_rate_frame_count r) / interval_seconds else 0)"

definition diagnostic_level :: "node \<Rightarrow> diag_level" where
  "diagnostic_level s =
     (let total_errors = nd_crc_errors s + nd_header_errors s + nd_latency_clock_errors s + nd_image_publish_errors s in
      if nd_connection_state s = ''error'' then DiagError
      else if total_errors > 0 \<or> nd_rejected_frames s > 0 then DiagWarn
      else DiagOk)"

definition diagnostic_values :: "node_config \<Rightarrow> string option \<Rightarrow> real \<Rightarrow> node \<Rightarrow> (string \<times> string) list" where
  "diagnostic_values cfg rmw_environment receive_fps s =
     (let latency = latency_snapshot (nd_e2e_latency s);
          state = nd_connection_state s
      in [(''rmw_implementation'', case rmw_environment of Some e \<Rightarrow> e | None \<Rightarrow> ''runtime-default''),
          (''protocol_version'', to_string (unat kVersion)),
          (''connection_state'', state),
          (''connected'', to_string_bool (state = ''connected'')),
          (''listen_address'', nc_listen_address cfg),
          (''listen_port'', to_string_int (nc_listen_port cfg)),
          (''publish_images'', to_string_bool (nc_publish_images cfg)),
          (''image_topic'', nc_image_topic cfg),
          (''camera_info_topic'', nc_camera_info_topic cfg),
          (''camera_frame_id'', nc_camera_frame_id cfg),
          (''output_encoding'', nc_output_encoding cfg),
          (''image_qos_reliability'', nc_image_qos_reliability cfg),
          (''image_qos_depth'', to_string_int (nc_image_qos_depth cfg)),
          (''camera_calibrated'', to_string_bool (camera_calibrated cfg)),
          (''receive_fps'', format_double (Finite receive_fps)),
          (''received_frames'', to_string (nd_received_frames s)),
          (''received_bytes'', to_string (nd_received_bytes s)),
          (''accepted_sessions'', to_string (nd_accepted_sessions s)),
          (''completed_sessions'', to_string (nd_completed_sessions s)),
          (''peer_disconnects'', to_string (nd_peer_disconnects s)),
          (''header_errors'', to_string (nd_header_errors s)),
          (''crc_errors'', to_string (nd_crc_errors s)),
          (''rejected_frames'', to_string (nd_rejected_frames s)),
          (''published_images'', to_string (nd_published_images s)),
          (''image_publish_errors'', to_string (nd_image_publish_errors s)),
          (''latency_clock_errors'', to_string (nd_latency_clock_errors s)),
          (''e2e_latency_samples'', to_string (sample_count latency)),
          (''e2e_latency_mean_us'', format_double (Finite (mean_us latency))),
          (''e2e_latency_p50_us'', format_double (Finite (p50_us latency))),
          (''e2e_latency_p95_us'', format_double (Finite (p95_us latency))),
          (''e2e_latency_p99_us'', format_double (Finite (p99_us latency))),
          (''e2e_latency_max_us'', format_double (Finite (max_us latency))),
          (''e2e_latency_jitter_us'', format_double (Finite (jitter_us latency))),
          (''last_frame_id'', to_string (unat (nd_last_frame_id s))),
          (''last_width'', to_string (unat (nd_last_width s))),
          (''last_height'', to_string (unat (nd_last_height s))),
          (''last_pixel_format'', node_fourcc_to_string (nd_last_pixel_format s)),
          (''last_capture_timestamp_ns'', to_string (unat (nd_last_capture_timestamp_ns s))),
          (''last_receive_timestamp_ns'', to_string (unat (nd_last_receive_timestamp_ns s))),
          (''last_error'', nd_last_error s)])"

definition publish_diagnostics ::
    "node_config \<Rightarrow> string option \<Rightarrow> int \<Rightarrow> ros_time \<Rightarrow> node \<Rightarrow> rate_state \<Rightarrow> diagnostic_array \<times> rate_state" where
  "publish_diagnostics cfg rmw_environment now_steady stamp s r =
     (let receive_fps = receive_rate now_steady (nd_received_frames s) r;
          status = \<lparr>ds_level = diagnostic_level s, ds_name = ''v4l2_capture/camera_link'', ds_message = nd_state_message s,
             ds_hardware_id = ''tcp://'' @ nc_listen_address cfg @ '':'' @ to_string_int (nc_listen_port cfg), ds_values = []\<rparr>;
          status = foldl (\<lambda>st (key, val). add_value st key val) status (diagnostic_values cfg rmw_environment receive_fps s)
      in (\<lparr>da_stamp = stamp, da_status = [status]\<rparr>,
          \<lparr>last_rate_frame_count = nd_received_frames s, last_rate_time = now_steady\<rparr>))"

section \<open>Lemmas\<close>

lemma add_values:
  "foldl (\<lambda>st (key, val). add_value st key val) status vs = status\<lparr>ds_values := ds_values status @ vs\<rparr>"
proof (induction vs arbitrary: status)
  case (Cons v vs)
  then show ?case by (cases v) (simp add: add_value_def)
qed simp

lemma distinct_diagnostic_keys: "distinct (map fst (diagnostic_values cfg rmw fps s))"
proof -
  have "map fst (diagnostic_values cfg rmw fps s) = map fst (diagnostic_values default_node_config None 0 new_node)"
    by (simp add: diagnostic_values_def Let_def)
  moreover have "distinct (map fst (diagnostic_values default_node_config None 0 new_node))"
    by (simp add: diagnostic_values_def Let_def)
  ultimately show ?thesis by simp
qed

lemma status_published:
  "fst (publish_diagnostics cfg rmw now stamp s r) = \<lparr>da_stamp = stamp, da_status =
     [\<lparr>ds_level = diagnostic_level s, ds_name = ''v4l2_capture/camera_link'', ds_message = nd_state_message s,
       ds_hardware_id = ''tcp://'' @ nc_listen_address cfg @ '':'' @ to_string_int (nc_listen_port cfg),
       ds_values = diagnostic_values cfg rmw (receive_rate now (nd_received_frames s) r) s\<rparr>]\<rparr>"
  by (simp add: publish_diagnostics_def Let_def add_values)

section \<open>Properties\<close>



text \<open>
  The time stamps of images and camera infos are exact until 2038. The seconds and nanoseconds of
  \<open>to_ros_time\<close> give the time stamp back exactly as long as the seconds fit into the signed field, and never after
  that; the nanoseconds are always below one second.
\<close>

theorem to_ros_time_exact:
  "(sint (rt_sec (to_ros_time ts)) * 1000000000 + uint (rt_nanosec (to_ros_time ts)) = uint ts \<longleftrightarrow>
      uint ts < 2 ^ 31 * 1000000000) \<and>
   uint (rt_nanosec (to_ros_time ts)) < 1000000000"
proof -
  let ?s = "ucast (ts div 1000000000) :: 32 word"
  have n: "uint (ucast (ts mod 1000000000) :: u32) = uint ts mod 1000000000"
    by (simp add: uint_mod unsigned_ucast_eq take_bit_int_eq_self)
  have d: "uint (ts div 1000000000) = uint ts div 1000000000" by (simp add: uint_div)
  have "0 \<le> uint ts div 1000000000" by (simp add: pos_imp_zdiv_nonneg_iff)
  then have lo: "- (2 ^ 31) \<le> uint ts div 1000000000" by (rule order_trans [rotated]) simp
  have s: "uint ts div 1000000000 < 2 ^ 31 \<Longrightarrow> sint ?s = uint ts div 1000000000"
    using lo by (simp add: signed_ucast_eq d signed_take_bit_int_eq_self)
  have top: "sint ?s < 2 ^ 31" using sint_lt [of ?s] by simp
  show ?thesis
  proof (cases "uint ts < 2 ^ 31 * 1000000000")
    case True
    then have "uint ts div 1000000000 < 2 ^ 31" by linarith
    with s True n show ?thesis by (simp add: to_ros_time_def)
  next
    case False
    have "uint ts mod 1000000000 < 1000000000" by simp
    with False top n show ?thesis by (simp add: to_ros_time_def)
  qed
qed

end
