(* ===== verification/Throughput_Check.thy ===== *)
theory Throughput_Check
  imports Diagnostics_Delivery Protocol_Fixture
begin

text \<open>
  The measuring node \<open>ImageThroughputCheck\<close> of \<open>image_throughput_check.cpp\<close>: it counts the images of a topic during
  a window after a warm-up, writes a JSON report and ends with an exit code. The executor calls the two callbacks
  one after the other; a run is the sequence of these calls with the time each reads. Times are nanoseconds;
  the durations given in seconds are real numbers.
\<close>

section \<open>State\<close>

record check_config =
  ck_topic :: string
  ck_warmup_seconds :: real
  ck_measurement_seconds :: real
  ck_expected_width :: int
  ck_expected_height :: int
  ck_expected_encoding :: string
  ck_output_path :: string

definition default_check_config :: check_config where
  "default_check_config = \<lparr>ck_topic = ''/camera/image_raw'', ck_warmup_seconds = 2, ck_measurement_seconds = 15,
     ck_expected_width = 640, ck_expected_height = 360, ck_expected_encoding = ''rgb8'', ck_output_path = []\<rparr>"

record check_state =
  ck_warmup_end :: int
  ck_measurement_end :: int
  ck_warmup_images :: nat
  ck_measured_images :: nat
  ck_valid_images :: nat
  ck_invalid_images :: nat
  ck_total_bytes :: nat
  ck_finished :: bool
  ck_exit_code :: int
  ck_first_receive :: int
  ck_last_receive :: int

text \<open>\<open>duration_cast\<close> from seconds to nanoseconds rounds towards zero.\<close>

definition seconds_to_ns :: "real \<Rightarrow> int" where
  "seconds_to_ns x = (if x \<ge> 0 then \<lfloor>x * 1000000000\<rfloor> else \<lceil>x * 1000000000\<rceil>)"

definition ImageThroughputCheck :: "check_config \<Rightarrow> int \<Rightarrow> check_state" where
  "ImageThroughputCheck cfg start_time =
     (let warmup_end = start_time + seconds_to_ns (ck_warmup_seconds cfg) in
      \<lparr>ck_warmup_end = warmup_end, ck_measurement_end = warmup_end + seconds_to_ns (ck_measurement_seconds cfg),
       ck_warmup_images = 0, ck_measured_images = 0, ck_valid_images = 0, ck_invalid_images = 0, ck_total_bytes = 0,
       ck_finished = False, ck_exit_code = 1, ck_first_receive = 0, ck_last_receive = 0\<rparr>)"

section \<open>Images\<close>

definition image_valid :: "check_config \<Rightarrow> ros_image \<Rightarrow> bool" where
  "image_valid cfg img \<longleftrightarrow>
     img_width img = word_of_int (ck_expected_width cfg) \<and> img_height img = word_of_int (ck_expected_height cfg) \<and>
     img_encoding img = ck_expected_encoding cfg \<and>
     length (img_data img) = unat (img_step img) * unat (img_height img)"

definition on_image :: "check_config \<Rightarrow> int \<Rightarrow> ros_image \<Rightarrow> check_state \<Rightarrow> check_state" where
  "on_image cfg now message s =
     (if now < ck_warmup_end s then s\<lparr>ck_warmup_images := ck_warmup_images s + 1\<rparr>
      else if now \<ge> ck_measurement_end s \<or> ck_finished s then s
      else
        (let s = (if ck_measured_images s = 0 then s\<lparr>ck_first_receive := now\<rparr> else s);
             s = s\<lparr>ck_last_receive := now, ck_measured_images := ck_measured_images s + 1,
                   ck_total_bytes := ck_total_bytes s + length (img_data message)\<rparr>
         in if image_valid cfg message then s\<lparr>ck_valid_images := ck_valid_images s + 1\<rparr>
            else s\<lparr>ck_invalid_images := ck_invalid_images s + 1\<rparr>))"

section \<open>The report\<close>

definition check_escape_char :: "char \<Rightarrow> string" where
  "check_escape_char ch =
     (if ch = CHR 0x5C then [CHR 0x5C, CHR 0x5C]
      else if ch = CHR 0x22 then [CHR 0x5C, CHR 0x22]
      else if ch = CHR 0x0A then [CHR 0x5C, CHR ''n'']
      else if ch = CHR 0x0D then [CHR 0x5C, CHR ''r'']
      else if ch = CHR 0x09 then [CHR 0x5C, CHR ''t'']
      else [ch])"

definition check_json_escape :: "string \<Rightarrow> string" where
  "check_json_escape input = concat (map check_escape_char input)"

definition pad6 :: "nat \<Rightarrow> string" where
  "pad6 n = pad3 (n div 1000) @ pad3 (n mod 1000)"

definition fixed6 :: "real \<Rightarrow> string" where
  "fixed6 x =
     (let m = round_half_even (1000000 * \<bar>x\<bar>) in
      (if x < 0 then ''-'' else []) @ to_string (m div 1000000) @ ''.'' @ pad6 (m mod 1000000))"

definition check_line :: "string \<Rightarrow> string \<Rightarrow> string" where
  "check_line key val = ''  '' @ quoted key @ '': '' @ val @ '','' @ [CHR 0x0A]"

definition check_report :: "check_config \<Rightarrow> check_state \<Rightarrow> real \<Rightarrow> real \<Rightarrow> real \<Rightarrow> bool \<Rightarrow> string" where
  "check_report cfg s receive_rate_hz window_rate_hz callback_span_seconds passed =
     ''{'' @ [CHR 0x0A] @
     check_line ''topic'' (quoted (check_json_escape (ck_topic cfg))) @
     check_line ''qos_reliability'' (quoted ''BEST_EFFORT'') @
     check_line ''qos_depth'' ''1'' @
     check_line ''warmup_seconds'' (fixed6 (ck_warmup_seconds cfg)) @
     check_line ''measurement_seconds'' (fixed6 (ck_measurement_seconds cfg)) @
     check_line ''warmup_images'' (to_string (ck_warmup_images s)) @
     check_line ''measured_images'' (to_string (ck_measured_images s)) @
     check_line ''valid_images'' (to_string (ck_valid_images s)) @
     check_line ''invalid_images'' (to_string (ck_invalid_images s)) @
     check_line ''total_bytes'' (to_string (ck_total_bytes s)) @
     check_line ''callback_span_seconds'' (fixed6 callback_span_seconds) @
     check_line ''receive_rate_hz'' (fixed6 receive_rate_hz) @
     check_line ''window_rate_hz'' (fixed6 window_rate_hz) @
     check_line ''expected_width'' (to_string_int (ck_expected_width cfg)) @
     check_line ''expected_height'' (to_string_int (ck_expected_height cfg)) @
     check_line ''expected_encoding'' (quoted (check_json_escape (ck_expected_encoding cfg))) @
     ''  '' @ quoted ''passed'' @ '': '' @ (if passed then ''true'' else ''false'') @ [CHR 0x0A] @
     ''}'' @ [CHR 0x0A]"

text \<open>
  What the file system answers: the exception of \<open>create_directories\<close>, whether the temporary file opens, how much
  of the text arrives in it (the code does not look), and whether \<open>remove\<close> and \<open>rename\<close> work.
\<close>

record check_env =
  ce_create_dirs :: "exn option"
  ce_open :: bool
  ce_written :: "string \<Rightarrow> string"
  ce_remove :: bool
  ce_rename :: bool

definition write_json :: "check_config \<Rightarrow> check_env \<Rightarrow> string \<Rightarrow> files \<Rightarrow> exn option \<times> files" where
  "write_json cfg env text fs =
     (let out = ck_output_path cfg; temporary = out @ ''.tmp'' in
      if out = [] then (None, fs)
      else if CHR ''/'' \<in> set out \<and> ce_create_dirs env \<noteq> None then (ce_create_dirs env, fs)
      else if \<not> ce_open env then (None, fs)
      else
        (let fs = fs(temporary \<mapsto> ce_written env text);
             fs = (if ce_remove env then fs(out := None) else fs)
         in (None, if ce_rename env then rename_file temporary out fs else fs)))"

section \<open>Finishing\<close>

definition callback_span :: "check_state \<Rightarrow> real" where
  "callback_span s =
     (if ck_measured_images s \<ge> 2 then real_of_int (ck_last_receive s - ck_first_receive s) / 1000000000 else 0)"

definition check_rate :: "check_state \<Rightarrow> real" where
  "check_rate s =
     (if ck_measured_images s \<ge> 2 \<and> callback_span s > 0 then real (ck_measured_images s - 1) / callback_span s else 0)"

definition check_passed :: "check_state \<Rightarrow> bool" where
  "check_passed s \<longleftrightarrow> ck_measured_images s \<ge> 2 \<and> ck_valid_images s = ck_measured_images s \<and> ck_invalid_images s = 0"

definition window_rate :: "check_config \<Rightarrow> check_state \<Rightarrow> real" where
  "window_rate cfg s =
     (if ck_measurement_seconds cfg > 0 then real (ck_measured_images s) / ck_measurement_seconds cfg else 0)"

definition finish_check :: "check_config \<Rightarrow> check_env \<Rightarrow> check_state \<Rightarrow> files \<Rightarrow> exn option \<times> check_state \<times> files" where
  "finish_check cfg env s fs =
     (let s = s\<lparr>ck_finished := True, ck_exit_code := (if check_passed s then 0 else 1)\<rparr>;
          text = check_report cfg s (check_rate s) (window_rate cfg s) (callback_span s) (check_passed s)
      in case write_json cfg env text fs of (e, fs) \<Rightarrow> (e, s, fs))"

text \<open>The summary on the console; a newline before the first line.\<close>

definition check_summary :: "check_config \<Rightarrow> check_state \<Rightarrow> string list" where
  "check_summary cfg s =
     [[], ''========== C++ Image Throughput =========='',
      ''topic                : '' @ ck_topic cfg,
      ''warmup images        : '' @ to_string (ck_warmup_images s),
      ''measured images      : '' @ to_string (ck_measured_images s),
      ''valid images         : '' @ to_string (ck_valid_images s),
      ''invalid images       : '' @ to_string (ck_invalid_images s),
      ''callback span        : '' @ fixed3 (callback_span s) @ '' s'',
      ''receive rate         : '' @ fixed3 (check_rate s) @ '' Hz'',
      ''fixed-window rate    : '' @ fixed3 (window_rate cfg s) @ '' Hz'',
      ''QoS                   : '' @ ''BEST_EFFORT / KEEP_LAST(1)'',
      ''result                : '' @ (if check_passed s then ''PASS'' else ''FAIL''),
      ''=========================================='']"

section \<open>The run of the node\<close>

datatype check_event = ImageAt int ros_image | TimerAt int | Interrupted

datatype check_end = CheckExit int | CheckThrew exn | CheckWaiting

text \<open>
  \<open>spin\<close> until the node or the user shuts it down; an exception of a callback leaves \<open>main\<close>.
\<close>

fun spin_check :: "check_config \<Rightarrow> check_env \<Rightarrow> check_event list \<Rightarrow> check_state \<Rightarrow> files \<Rightarrow> check_end \<times> check_state \<times> files" where
  "spin_check cfg env [] s fs = (CheckWaiting, s, fs)"
| "spin_check cfg env (ImageAt now message # es) s fs = spin_check cfg env es (on_image cfg now message s) fs"
| "spin_check cfg env (TimerAt now # es) s fs =
     (if \<not> ck_finished s \<and> now \<ge> ck_measurement_end s then
        (case finish_check cfg env s fs of
           (Some e, s, fs) \<Rightarrow> (CheckThrew e, s, fs)
         | (None, s, fs) \<Rightarrow> (CheckExit (ck_exit_code s), s, fs))
      else spin_check cfg env es s fs)"
| "spin_check cfg env (Interrupted # es) s fs = (CheckExit (ck_exit_code s), s, fs)"

text \<open>The program: the node is made at the time \<open>start\<close> and run to its end.\<close>

definition check_main :: "check_config \<Rightarrow> check_env \<Rightarrow> check_event list \<Rightarrow> int \<Rightarrow> files \<Rightarrow> check_end \<times> check_state \<times> files" where
  "check_main cfg env es start fs = spin_check cfg env es (ImageThroughputCheck cfg start) fs"

section \<open>Lemmas\<close>

text \<open>The images received in the window, and before it.\<close>

fun window_images :: "int \<Rightarrow> int \<Rightarrow> check_event list \<Rightarrow> ros_image list" where
  "window_images a b [] = []"
| "window_images a b (ImageAt now img # es) = (if a \<le> now \<and> now < b then img # window_images a b es else window_images a b es)"
| "window_images a b (e # es) = window_images a b es"

definition early_images :: "int \<Rightarrow> check_event list \<Rightarrow> nat" where
  "early_images a es = length (filter (\<lambda>e. case e of ImageAt now img \<Rightarrow> now < a | _ \<Rightarrow> False) es)"

text \<open>No interrupt and no timer call after the window.\<close>

definition undisturbed :: "int \<Rightarrow> check_event list \<Rightarrow> bool" where
  "undisturbed b es \<longleftrightarrow> (\<forall>e \<in> set es. case e of ImageAt now img \<Rightarrow> True | TimerAt now \<Rightarrow> now < b | Interrupted \<Rightarrow> False)"

lemma on_image_fields [simp]:
  "ck_warmup_end (on_image cfg now img s) = ck_warmup_end s" "ck_measurement_end (on_image cfg now img s) = ck_measurement_end s"
  "ck_finished (on_image cfg now img s) = ck_finished s"
  by (simp_all add: on_image_def Let_def)

text \<open>What a part of a run before the deadline adds to the counters.\<close>

lemma spin_undisturbed:
  assumes "undisturbed (ck_measurement_end s) es" and "\<not> ck_finished s"
  shows "\<exists>s'. spin_check cfg env (es @ rest) s fs = spin_check cfg env rest s' fs \<and>
    \<not> ck_finished s' \<and> ck_measurement_end s' = ck_measurement_end s \<and> ck_exit_code s' = ck_exit_code s \<and>
    ck_warmup_images s' = ck_warmup_images s + early_images (ck_warmup_end s) es \<and>
    (let w = window_images (ck_warmup_end s) (ck_measurement_end s) es in
       ck_measured_images s' = ck_measured_images s + length w \<and>
       ck_valid_images s' = ck_valid_images s + length (filter (image_valid cfg) w) \<and>
       ck_invalid_images s' = ck_invalid_images s + length (filter (\<lambda>i. \<not> image_valid cfg i) w) \<and>
       ck_total_bytes s' = ck_total_bytes s + (\<Sum>i\<leftarrow>w. length (img_data i)))"
  using assms
proof (induction es arbitrary: s)
  case Nil
  then show ?case by (auto simp: early_images_def)
next
  case (Cons e es)
  then have u: "undisturbed (ck_measurement_end s) es" by (simp add: undisturbed_def)
  show ?case
  proof (cases e)
    case (ImageAt now img)
    let ?s = "on_image cfg now img s"
    have "ck_exit_code ?s = ck_exit_code s"
      "ck_warmup_images ?s = ck_warmup_images s + (if now < ck_warmup_end s then 1 else 0)"
      "ck_measured_images ?s = ck_measured_images s + (if ck_warmup_end s \<le> now \<and> now < ck_measurement_end s then 1 else 0)"
      "ck_valid_images ?s = ck_valid_images s +
         (if ck_warmup_end s \<le> now \<and> now < ck_measurement_end s \<and> image_valid cfg img then 1 else 0)"
      "ck_invalid_images ?s = ck_invalid_images s +
         (if ck_warmup_end s \<le> now \<and> now < ck_measurement_end s \<and> \<not> image_valid cfg img then 1 else 0)"
      "ck_total_bytes ?s = ck_total_bytes s +
         (if ck_warmup_end s \<le> now \<and> now < ck_measurement_end s then length (img_data img) else 0)"
      using Cons.prems(2) by (simp_all add: on_image_def Let_def)
    with Cons.IH [of ?s] u Cons.prems(2) ImageAt show ?thesis
      by (auto simp: early_images_def Let_def)
  next
    case (TimerAt now)
    with Cons.prems have "now < ck_measurement_end s" by (simp add: undisturbed_def)
    with Cons.IH [OF u Cons.prems(2)] TimerAt show ?thesis by (auto simp: early_images_def)
  next
    case Interrupted
    with Cons.prems show ?thesis by (simp add: undisturbed_def)
  qed
qed

lemma all_valid_count: "length (filter p w) = length w \<and> length (filter (\<lambda>i. \<not> p i) w) = 0 \<longleftrightarrow> (\<forall>i \<in> set w. p i)"
  using sum_length_filter_compl [of p w] by (auto simp: filter_empty_conv)

section \<open>Properties\<close>

text \<open>
  C28: the verdict. When the first timer call at or after the end of the window comes without an interrupt before it,
  the node ends (unless the directory of the report cannot be created) with exit code 0 exactly when at least two
  images arrived in the window and all images in it are valid; the counters it reports are the numbers of images and
  bytes in the window, and images during the warm-up are counted apart.
\<close>

theorem throughput_verdict:
  assumes "ck_warmup_end (ImageThroughputCheck cfg start) = a" and "ck_measurement_end (ImageThroughputCheck cfg start) = b"
    and "undisturbed b es" and "b \<le> t" and "ce_create_dirs env = None"
  shows "\<exists>s fs'. check_main cfg env (es @ TimerAt t # rest) start fs =
      (CheckExit (if 2 \<le> length (window_images a b es) \<and> (\<forall>i \<in> set (window_images a b es). image_valid cfg i) then 0 else 1), s, fs') \<and>
    ck_measured_images s = length (window_images a b es) \<and>
    ck_valid_images s + ck_invalid_images s = length (window_images a b es) \<and>
    ck_total_bytes s = (\<Sum>i\<leftarrow>window_images a b es. length (img_data i)) \<and>
    ck_warmup_images s = early_images a es \<and> ck_finished s"
proof -
  let ?w = "window_images a b es" and ?s0 = "ImageThroughputCheck cfg start"
  have init: "ck_warmup_images ?s0 = 0" "ck_measured_images ?s0 = 0" "ck_valid_images ?s0 = 0" "ck_invalid_images ?s0 = 0"
    "ck_total_bytes ?s0 = 0" "\<not> ck_finished ?s0" "ck_exit_code ?s0 = 1"
    by (simp_all add: ImageThroughputCheck_def Let_def)
  obtain s where s: "spin_check cfg env (es @ TimerAt t # rest) ?s0 fs = spin_check cfg env (TimerAt t # rest) s fs"
    "\<not> ck_finished s" "ck_measurement_end s = b" "ck_warmup_images s = early_images a es" "ck_measured_images s = length ?w"
    "ck_valid_images s = length (filter (image_valid cfg) ?w)" "ck_invalid_images s = length (filter (\<lambda>i. \<not> image_valid cfg i) ?w)"
    "ck_total_bytes s = (\<Sum>i\<leftarrow>?w. length (img_data i))"
    using spin_undisturbed [of ?s0 es cfg env "TimerAt t # rest" fs] assms(1-3) init by (auto simp: Let_def)
  obtain e s' fs' where f: "finish_check cfg env s fs = (e, s', fs')" by (metis prod_cases3)
  have "e = None" using f assms(5) by (auto simp: finish_check_def write_json_def Let_def split: if_splits)
  moreover have "s' = s\<lparr>ck_finished := True, ck_exit_code := (if check_passed s then 0 else 1)\<rparr>"
    using f by (auto simp: finish_check_def Let_def split: prod.splits)
  moreover have "check_passed s \<longleftrightarrow> 2 \<le> length ?w \<and> (\<forall>i \<in> set ?w. image_valid cfg i)"
    using all_valid_count [of "image_valid cfg" ?w] s by (auto simp: check_passed_def)
  ultimately show ?thesis
    using s f assms(4) sum_length_filter_compl [of "image_valid cfg" ?w] by (simp add: check_main_def)
qed

definition demo_image :: ros_image where
  "demo_image = \<lparr>img_stamp = to_ros_time 0, img_frame_id = ''cam'', img_height = 1, img_width = 2, img_encoding = ''mono8'',
     img_is_bigendian = 0, img_step = 2, img_data = [1, 2]\<rparr>"

definition demo_check_config :: check_config where
  "demo_check_config = default_check_config\<lparr>ck_expected_width := 2, ck_expected_height := 1, ck_expected_encoding := ''mono8'',
     ck_warmup_seconds := 0, ck_measurement_seconds := 1\<rparr>"

definition demo_check_env :: check_env where
  "demo_check_env = \<lparr>ce_create_dirs = None, ce_open = True, ce_written = (\<lambda>t. t), ce_remove = True, ce_rename = True\<rparr>"

theorem throughput_verdict_witness:
  "\<exists>s fs'. check_main demo_check_config demo_check_env [ImageAt 5 demo_image, ImageAt 9 demo_image, TimerAt 2000000000]
      0 Map.empty = (CheckExit 0, s, fs') \<and> ck_measured_images s = 2"
proof -
  let ?s = "ImageThroughputCheck demo_check_config 0"
  have ab: "ck_warmup_end ?s = 0" "ck_measurement_end ?s = 1000000000"
    by (simp_all add: ImageThroughputCheck_def demo_check_config_def seconds_to_ns_def Let_def)
  have "image_valid demo_check_config demo_image"
    by (simp add: image_valid_def demo_check_config_def default_check_config_def demo_image_def)
  moreover have "undisturbed 1000000000 [ImageAt 5 demo_image, ImageAt 9 demo_image]" by (simp add: undisturbed_def)
  moreover have "ce_create_dirs demo_check_env = None" by (simp add: demo_check_env_def)
  moreover have w: "window_images 0 1000000000 [ImageAt 5 demo_image, ImageAt 9 demo_image] = [demo_image, demo_image]"
    by simp
  ultimately obtain s fs' where
    "check_main demo_check_config demo_check_env ([ImageAt 5 demo_image, ImageAt 9 demo_image] @ [TimerAt 2000000000]) 0 Map.empty =
      (CheckExit 0, s, fs')" "ck_measured_images s = 2"
    using throughput_verdict [OF ab, of "[ImageAt 5 demo_image, ImageAt 9 demo_image]" 2000000000 demo_check_env "[]" Map.empty]
    by (auto simp: w)
  then show ?thesis by simp
qed

lemma accepted_encoding:
  assumes "TcpDiagnosticsNode cfg = Inr parts" and "nc_publish_images cfg"
  shows "nc_output_encoding cfg \<in> {''rgb8'', ''mono8'', ''yuv422_yuy2''}"
  using assms unfolding TcpDiagnosticsNode_def validate_parameters_def bind_r_eq_Inr throw_if_eq_Inr by blast

lemma good_image_valid:
  assumes "good_frame m (h, p)" and "hdr_pixel_format h = V4L2_PIX_FMT_YUYV" and "node_image cfg h p = Inr img"
    and "TcpDiagnosticsNode cfg = Inr parts" and "nc_publish_images cfg" and "ck_expected_encoding chk = nc_output_encoding cfg"
    and "hdr_width h = word_of_int (ck_expected_width chk)" and "hdr_height h = word_of_int (ck_expected_height chk)"
  shows "image_valid chk img"
proof -
  from node_image_ok [OF assms(1,2), of cfg] assms(3)
  have "length (img_data img) = unat (img_step img) * unat (img_height img)" "img_width img = hdr_width h"
    "img_height img = hdr_height h"
    "img_encoding img = (if nc_output_encoding cfg \<in> {''rgb8'', ''mono8''} then nc_output_encoding cfg else ''yuv422_yuy2'')"
    by (metis sum.inject(2))+
  with accepted_encoding [OF assms(4,5)] assms(6-8) show ?thesis by (auto simp: image_valid_def)
qed

lemma default_accepted: "\<exists>parts. TcpDiagnosticsNode default_node_config = Inr parts"
  by (simp add: TcpDiagnosticsNode_def validate_parameters_def default_node_config_def calibration_values_def kDefaultMaxPayloadBytes_def)

lemma demo_accepted: "\<exists>parts. TcpDiagnosticsNode (default_node_config\<lparr>nc_max_sessions := 1\<rparr>) = Inr parts"
  by (simp add: TcpDiagnosticsNode_def validate_parameters_def default_node_config_def calibration_values_def kDefaultMaxPayloadBytes_def)

text \<open>
  C29: the adapter's images pass the check. Every image the diagnostics node publishes, whatever its clients send,
  is valid for a check that expects the node's encoding and the dimensions of the frames: its data has the size its
  step and height announce.
\<close>

theorem node_images_pass_check:
  assumes "receiver_loop cfg env fuel new_node = (returned, s)" and "accept_contract env"
    and "TcpDiagnosticsNode cfg = Inr parts" and "nc_publish_images cfg" and "ck_expected_encoding chk = nc_output_encoding cfg"
    and "\<forall>(h, p) \<in> set (nd_frames s). hdr_width h = word_of_int (ck_expected_width chk) \<and> hdr_height h = word_of_int (ck_expected_height chk)"
  shows "\<forall>img \<in> set (nd_images s). image_valid chk img"
proof
  fix img assume img: "img \<in> set (nd_images s)"
  have inv: "node_inv cfg s" using receiver_thread_inv [OF assms(1,2)] by (simp add: waiting_inv_def)
  then have "subseq (map Inr (nd_images s)) (map (\<lambda>(h, p). node_image cfg h p) (filter is_yuyv (nd_frames s)))"
    by (simp add: node_inv_def)
  from subseq_set [OF this] img
  have "Inr img \<in> set (map (\<lambda>(h, p). node_image cfg h p) (filter is_yuyv (nd_frames s)))" by fastforce
  then obtain h p where hp: "(h, p) \<in> set (nd_frames s)" "hdr_pixel_format h = V4L2_PIX_FMT_YUYV" "node_image cfg h p = Inr img"
    by (auto simp: is_yuyv_def)
  with inv have "good_frame (word_of_int (nc_max_payload_bytes cfg)) (h, p)" by (auto simp: node_inv_def)
  from good_image_valid [OF this hp(2,3) assms(3-5)] assms(6) hp(1) show "image_valid chk img" by auto
qed

lemma demo_thread_run:
  fixes cfg env
  defines "cfg \<equiv> default_node_config\<lparr>nc_max_sessions := 1\<rparr>" and "env \<equiv> demo_node_env 44 (\<lambda>t. False)"
  shows "\<exists>s. receiver_loop cfg env (Suc (Suc 58)) new_node = (True, s) \<and> nd_frames s = [(sample_header, sample_payload)] \<and>
    nd_images s \<noteq> []"
proof -
  let ?fuel = "Suc (Suc 58) :: nat"
  let ?client = "\<lparr>cl_fd = 4, cl_bytes = frame_bytes (sample_header, sample_payload), cl_address = Some ''10.0.0.1'', cl_port = 5000\<rparr>"
  let ?s0 = "set_connection_state ''listening'' ''waiting for a protocol v3 TCP frame sender'' (register_listen_fd 3 (open_fd 3 new_node))"
  let ?s1 = "begin_session ?client (tick ?s0)"
  have new: "nd_frames ?s1 = []" "nd_images ?s1 = []" "nd_accepted_sessions ?s1 = 1" "nd_accepted_sessions ?s0 = 0"
    by (simp_all add: begin_session_def register_client_fd_def register_listen_fd_def open_fd_def note_fds_def tick_def
        set_connection_state_def new_node_def Let_def)
  have env: "readable env" "ne_host_header env = 44" "publishing cfg env" "nc_max_frames cfg \<le> 0" "nc_max_sessions cfg = 1"
    "good_frame (word_of_int (nc_max_payload_bytes cfg)) (sample_header, sample_payload)"
    "hdr_pixel_format sample_header = V4L2_PIX_FMT_YUYV"
    using demo_readable [of 44] sample_node_frame
    by (simp_all add: env_def cfg_def demo_node_env_def default_node_config_def publishing_def sample_header_def make_header_def)
  have "\<exists>s'. handle_client cfg env ?fuel ?fuel (concat (map frame_bytes [(sample_header, sample_payload)])) ?s1 = (True, [], s') \<and>
      nd_frames s' = nd_frames ?s1 @ [(sample_header, sample_payload)] \<and>
      shown cfg s' = shown cfg ?s1 @ [node_image cfg sample_header sample_payload]"
    using session_frames [OF env(1) _ env(4), of "[(sample_header, sample_payload)]" ?fuel ?fuel ?s1] env sample_wire
    by (auto simp: kWireHeaderSize_def)
  then obtain s2 where s2: "handle_client cfg env ?fuel ?fuel (cl_bytes ?client) ?s1 = (True, [], s2)"
    "nd_frames s2 = [(sample_header, sample_payload)]" "nd_images s2 \<noteq> []"
    using new by (auto simp: shown_def)
  have acc: "nd_accepted_sessions s2 = 1" using handle_client_effect [OF s2(1)] new(3) by (simp add: fd_view_def)
  let ?s3 = "end_session env ?client s2"
  have s3: "nd_frames ?s3 = nd_frames s2" "nd_images ?s3 = nd_images s2" "nd_accepted_sessions ?s3 = 1"
    using acc by (simp_all add: end_session_def node_close_fd_def clear_client_fd_def note_fds_def tick_def set_connection_state_def Let_def)
  have stop: "\<not> ne_stop env t" and poll: "ne_poll env t = \<lparr>pa_ret = 1, pa_errno = EINTR, pa_revents = POLLIN\<rparr>"
    and acc: "ne_accept env t = Inr ?client" for t by (simp_all add: env_def demo_node_env_def)
  have lim: "\<not> limit_reached (nc_max_frames cfg) n" for n using env(4) by (simp add: limit_reached_def)
  have "POLLIN AND POLLNVAL = 0" "POLLIN AND POLLIN \<noteq> 0" by (simp_all add: POLLIN_def POLLNVAL_def)
  then have bits: "POLLIN AND POLLNVAL = 0" "POLLIN \<noteq> 0" by auto
  have ses: "\<not> limit_reached (nc_max_sessions cfg) (nd_accepted_sessions ?s0)" "limit_reached (nc_max_sessions cfg) (nd_accepted_sessions ?s3)"
    using new(4) env(5) s3(3) by (simp_all only: limit_reached_def) simp_all
  let ?s4 = "set_connection_state ''stopped'' ''configured session limit reached'' (tick ?s3)"
  have t1: "node_accept_turn cfg env ?fuel ?s0 = (LoopNext, ?s3)"
    using s2(1) ses(1) by (simp add: node_accept_turn_def serve_client_def Let_def stop poll acc lim bits del: Suc_numeral)
  have t2: "node_accept_turn cfg env ?fuel ?s3 = (LoopLeft, ?s4)"
    using ses(2) by (simp add: node_accept_turn_def Let_def stop lim)
  have "node_accept_loop cfg env ?fuel ?fuel ?s0 = (LoopLeft, ?s4)"
    by (simp only: node_accept_loop.simps t1 t2 prod.case node_loop.case)
  moreover have "listen_setup cfg env new_node = (None, 3, register_listen_fd 3 (open_fd 3 new_node))"
    by (simp add: listen_setup_def env_def demo_node_env_def)
  ultimately have "receiver_loop cfg env ?fuel new_node = (True, node_close_fd 3 (clear_listen_fd 3 ?s4))"
    by (simp only: receiver_loop_def Let_def prod.case option.case node_loop.case)
  then show ?thesis using s2 s3
    by (simp add: node_close_fd_def clear_listen_fd_def note_fds_def tick_def set_connection_state_def)
qed

theorem node_images_pass_check_witness:
  "\<exists>s. receiver_loop (default_node_config\<lparr>nc_max_sessions := 1\<rparr>) (demo_node_env 44 (\<lambda>t. False)) (Suc (Suc 58)) new_node = (True, s) \<and>
     nd_images s \<noteq> [] \<and>
     (\<forall>img \<in> set (nd_images s). image_valid (default_check_config\<lparr>ck_expected_width := 2, ck_expected_height := 1\<rparr>) img)"
proof -
  obtain s where s: "receiver_loop (default_node_config\<lparr>nc_max_sessions := 1\<rparr>) (demo_node_env 44 (\<lambda>t. False)) (Suc (Suc 58)) new_node = (True, s)"
    "nd_frames s = [(sample_header, sample_payload)]" "nd_images s \<noteq> []" using demo_thread_run by blast
  obtain parts where "TcpDiagnosticsNode (default_node_config\<lparr>nc_max_sessions := 1\<rparr>) = Inr parts" using demo_accepted by blast
  moreover have "hdr_width sample_header = 2" "hdr_height sample_header = 1" by (simp_all add: sample_header_def make_header_def)
  ultimately show ?thesis
    using node_images_pass_check [OF s(1) demo_contract, of parts "default_check_config\<lparr>ck_expected_width := 2, ck_expected_height := 1\<rparr>"] s
    by (simp add: default_node_config_def default_check_config_def)
qed

text \<open>The report replaces the old one by removing it first: when \<open>rename\<close> fails then, neither is left.\<close>

lemma write_json_loses_report:
  "snd (write_json (default_check_config\<lparr>ck_output_path := ''r.json''\<rparr>) (demo_check_env\<lparr>ce_rename := False\<rparr>) ''new'' [''r.json'' \<mapsto> ''old''])
     ''r.json'' = None"
  by (simp add: write_json_def demo_check_env_def default_check_config_def Let_def)

end
