(* ===== verification/Console_Reports.thy ===== *)
theory Console_Reports
  imports Logger App_Config Stats_Reports Camera_Reports Tcp_Sender
begin

unbundle bit_operations_syntax

text \<open>
  What the programs tell their user: the effective configuration (\<open>print_app_config\<close> of \<open>src/app_config.cpp\<close>), the
  announcement and the statistics of \<open>run_pipeline\<close> (\<open>src/main.cpp\<close>), the capabilities of the device and the statistics
  of a measurement (\<open>src/camera_device.cpp\<close>), and the statistics of the receiver and the sender. A message is the text
  after the module name; the messages of the capture program go through the logger, with a time stamp each.
\<close>

section \<open>Values\<close>

definition yes_no :: "bool \<Rightarrow> string" where
  "yes_no b = (if b then ''yes'' else ''no'')"

definition enabled_disabled :: "bool \<Rightarrow> string" where
  "enabled_disabled b = (if b then ''enabled'' else ''disabled'')"

definition optional_u32_to_string :: "u32 option \<Rightarrow> string" where
  "optional_u32_to_string v = (case v of Some n \<Rightarrow> to_string (unat n) | None \<Rightarrow> ''unset'')"

definition optional_string_to_string :: "string option \<Rightarrow> string" where
  "optional_string_to_string v = (case v of Some s \<Rightarrow> s | None \<Rightarrow> ''unset'')"

text \<open>\<open>std::hex\<close>: lower case digits, no leading zeros.\<close>

definition hex_digit :: "nat \<Rightarrow> char" where
  "hex_digit d = (if d < 10 then digit_char d else char_of (87 + d))"

fun to_hex :: "nat \<Rightarrow> string" where
  "to_hex n = (if n < 16 then [hex_digit n] else to_hex (n div 16) @ [hex_digit (n mod 16)])"

declare to_hex.simps [simp del]

text \<open>A character array printed as a C string.\<close>

definition c_string :: "string \<Rightarrow> string" where
  "c_string s = takeWhile (\<lambda>ch. ch \<noteq> CHR 0x00) s"

definition text_lines :: "string list \<Rightarrow> string" where
  "text_lines ls = concat (map (\<lambda>l. l @ [CHR 0x0A]) ls)"

text \<open>A sequence of calls of \<open>log_info\<close> with one module; call \<open>i\<close> reads the time stamp \<open>stamps i\<close>.\<close>

definition log_infos :: "(nat \<Rightarrow> string) \<Rightarrow> string \<Rightarrow> string list \<Rightarrow> logger \<Rightarrow> logger" where
  "log_infos stamps module_name messages l =
     log_calls (map (\<lambda>(i, m). (stamps i, INFO, module_name, m)) (enumerate 0 messages)) l"

section \<open>The configuration\<close>

definition config_messages :: "app_config \<Rightarrow> string list" where
  "config_messages cfg =
     [''========== Effective AppConfig =========='',
      ''config path        : '' @ config_path cfg,
      ''device             : '' @ device cfg,
      ''list formats       : '' @ yes_no (App_Config.list_formats cfg),
      ''width              : '' @ optional_u32_to_string (width cfg),
      ''height             : '' @ optional_u32_to_string (height cfg),
      ''format             : '' @ optional_string_to_string (pixel_format cfg),
      ''mmap buffers       : '' @ optional_u32_to_string (mmap_buffers cfg),
      ''capture one        : '' @ yes_no (capture_one cfg),
      ''save one           : '' @ yes_no (save_one cfg),
      ''capture frames     : '' @ to_string_int (capture_frames cfg),
      ''pipeline frames    : '' @ to_string_int (pipeline_frames cfg),
      ''ring capacity      : '' @ to_string_int (ring_capacity cfg),
      ''tcp queue capacity : '' @ to_string_int (tcp_queue_capacity cfg),
      ''tcp connect attempts: '' @ to_string_int (tcp_connect_max_attempts cfg),
      ''tcp retry delay ms  : '' @ to_string_int (tcp_connect_retry_delay_ms cfg),
      ''tcp send timeout ms : '' @ to_string_int (tcp_send_timeout_ms cfg),
      ''camera recovery    : '' @ enabled_disabled (camera_recovery_enabled cfg),
      ''camera timeout threshold: '' @ to_string_int (camera_timeout_recovery_threshold cfg),
      ''camera invalid threshold: '' @ to_string_int (camera_invalid_frame_recovery_threshold cfg),
      ''camera invalid cooldown frames: '' @ to_string_int (camera_invalid_frame_recovery_cooldown_frames cfg),
      ''camera invalid recovery budget: '' @ to_string_int (camera_invalid_frame_recovery_max_count cfg),
      ''camera recovery attempts: '' @ to_string_int (camera_recovery_max_attempts cfg),
      ''camera recovery delay ms: '' @ to_string_int (camera_recovery_retry_delay_ms cfg),
      ''consumer delay ms  : '' @ to_string_int (consumer_delay_ms cfg),
      ''pipeline save      : '' @ yes_no (pipeline_save cfg),
      ''save limit         : '' @ to_string_int (save_limit cfg),
      ''output dir         : '' @ app_config.output_dir cfg,
      ''stats output       : '' @ app_config.stats_output cfg,
      ''tcp host           : '' @ optional_string_to_string (tcp_host cfg),
      ''tcp port           : '' @ to_string_int (tcp_port cfg),
      ''timeout ms         : '' @ to_string_int (timeout_ms cfg),
      ''log level          : '' @ log_level cfg,
      ''========================================='']"

definition print_app_config :: "(nat \<Rightarrow> string) \<Rightarrow> app_config \<Rightarrow> logger \<Rightarrow> logger" where
  "print_app_config stamps cfg l = log_infos stamps ''CONFIG'' (config_messages cfg) l"

section \<open>The pipeline\<close>

definition pipeline_messages :: "app_config \<Rightarrow> string list" where
  "pipeline_messages cfg =
     [''========== Pipeline Capture =========='',
      ''target frames      : '' @ to_string_int (pipeline_frames cfg),
      ''ring capacity      : '' @ to_string_int (ring_capacity cfg),
      ''poll timeout       : '' @ to_string_int (timeout_ms cfg) @ '' ms'',
      ''consumer delay     : '' @ to_string_int (consumer_delay_ms cfg) @ '' ms'',
      ''pipeline save      : '' @ yes_no (pipeline_save cfg),
      ''save limit         : '' @ to_string_int (save_limit cfg),
      ''output dir         : '' @ app_config.output_dir cfg,
      ''stats output       : '' @ app_config.stats_output cfg,
      ''camera recovery    : '' @ enabled_disabled (camera_recovery_enabled cfg),
      ''camera timeout threshold: '' @ to_string_int (camera_timeout_recovery_threshold cfg),
      ''camera invalid threshold: '' @ to_string_int (camera_invalid_frame_recovery_threshold cfg),
      ''camera invalid cooldown frames: '' @ to_string_int (camera_invalid_frame_recovery_cooldown_frames cfg),
      ''camera invalid recovery budget: '' @ to_string_int (camera_invalid_frame_recovery_max_count cfg),
      ''camera recovery attempts: '' @ to_string_int (camera_recovery_max_attempts cfg),
      ''camera recovery delay ms: '' @ to_string_int (camera_recovery_retry_delay_ms cfg),
      ''tcp send           : '' @ yes_no (tcp_enabled cfg)] @
     (case tcp_host cfg of
        Some host \<Rightarrow>
          if tcp_port cfg > 0 then
            [''tcp target         : '' @ host @ '':'' @ to_string_int (tcp_port cfg),
             ''tcp queue capacity : '' @ to_string_int (tcp_queue_capacity cfg),
             ''tcp connect attempts: '' @ to_string_int (tcp_connect_max_attempts cfg),
             ''tcp retry delay ms  : '' @ to_string_int (tcp_connect_retry_delay_ms cfg),
             ''tcp send timeout ms : '' @ to_string_int (tcp_send_timeout_ms cfg)]
          else []
      | None \<Rightarrow> [])"

definition latency_message :: "string \<Rightarrow> latency_summary \<Rightarrow> string" where
  "latency_message name summary =
     name @ '' '' @ ''samples='' @ to_string (sample_count summary) @
     '' min_us='' @ fixed3 (min_us summary) @ '' mean_us='' @ fixed3 (mean_us summary) @
     '' p50_us='' @ fixed3 (p50_us summary) @ '' p95_us='' @ fixed3 (p95_us summary) @
     '' p99_us='' @ fixed3 (p99_us summary) @ '' max_us='' @ fixed3 (max_us summary) @
     '' jitter_us='' @ fixed3 (jitter_us summary)"

definition stats_messages :: "pipeline_snapshot \<Rightarrow> string list" where
  "stats_messages snap =
     (let st = snap_counters snap in
      [''========== Pipeline Statistics =========='',
      ''produced frames      : '' @ to_string (captured st),
      ''consumed frames      : '' @ to_string (consumed st),
      ''ring dropped frames  : '' @ to_string (capture_dropped st),
      ''remaining ring size  : '' @ to_string (capture_queue_remaining st),
      ''elapsed seconds      : '' @ fixed3 (elapsed_seconds snap),
      ''producer FPS         : '' @ fixed3 (producer_fps snap),
      ''consumer FPS         : '' @ fixed3 (consumer_fps snap),
      ''saved frames         : '' @ to_string (saved st),
      ''tcp queued frames    : '' @ to_string (tcp_queued st),
      ''tcp queue dropped    : '' @ to_string (tcp_dropped st),
      ''tcp queue remaining  : '' @ to_string (tcp_queue_remaining st),
      ''tcp sent frames      : '' @ to_string (tcp_sent st),
      ''tcp sent bytes       : '' @ to_string (tcp_sent_bytes st),
      ''tcp send errors      : '' @ to_string (tcp_send_errors st),
      ''tcp send timeouts    : '' @ to_string (tcp_send_timeouts st),
      ''tcp send cancellations: '' @ to_string (tcp_send_cancellations st),
      ''tcp connect attempts : '' @ to_string (tcp_connect_attempts st),
      ''tcp connect retries  : '' @ to_string (tcp_connect_retries st),
      ''camera capture timeouts: '' @ to_string (camera_capture_timeouts st),
      ''camera temporary unavailable: '' @ to_string (camera_temporary_unavailable st),
      ''camera device errors : '' @ to_string (camera_device_errors st),
      ''camera buffer error frames: '' @ to_string (camera_buffer_error_frames st),
      ''camera incomplete frames: '' @ to_string (camera_incomplete_frames st),
      ''camera invalid streak peak: '' @ to_string (camera_consecutive_invalid_peak st),
      ''camera invalid recoveries: '' @ to_string (camera_invalid_frame_recoveries st),
      ''camera invalid recovery cooldown suppressions: '' @ to_string (camera_invalid_recovery_suppressed_cooldown st)] @
      (if stats_last_error st \<noteq> [] then [''tcp last error       : '' @ stats_last_error st] else []) @
      [''invalid frames       : '' @ to_string (invalid st),
       ''consumed bytes       : '' @ to_string (consumed_bytes st)])"

definition log_statistics :: "(nat \<Rightarrow> string) \<Rightarrow> pipeline_snapshot \<Rightarrow> logger \<Rightarrow> logger" where
  "log_statistics stamps snap l =
     (let n = length (stats_messages snap);
          l = log_infos stamps ''STATS'' (stats_messages snap) l;
          l = log_message (stamps n) INFO ''LATENCY'' (latency_message ''capture_to_consumer'' (snap_consumer_latency snap)) l;
          l = log_message (stamps (n + 1)) INFO ''LATENCY'' (latency_message ''capture_to_send'' (snap_send_latency snap)) l
      in log_message (stamps (n + 2)) INFO ''STATS'' ''========================================='' l)"

section \<open>The device\<close>

text \<open>The flags of \<open>linux/videodev2.h\<close>.\<close>

definition V4L2_CAP_VIDEO_CAPTURE :: u32 where "V4L2_CAP_VIDEO_CAPTURE = 0x00000001"

definition V4L2_CAP_VIDEO_OUTPUT :: u32 where "V4L2_CAP_VIDEO_OUTPUT = 0x00000002"

definition V4L2_CAP_READWRITE :: u32 where "V4L2_CAP_READWRITE = 0x01000000"

definition V4L2_CAP_STREAMING :: u32 where "V4L2_CAP_STREAMING = 0x04000000"

definition V4L2_CAP_DEVICE_CAPS :: u32 where "V4L2_CAP_DEVICE_CAPS = 0x80000000"

record v4l2_capability =
  vc_driver :: string
  vc_card :: string
  vc_bus_info :: string
  vc_version :: u32
  vc_capabilities :: u32
  vc_device_caps :: u32

definition effective_caps :: "v4l2_capability \<Rightarrow> u32" where
  "effective_caps cap = (if vc_capabilities cap AND V4L2_CAP_DEVICE_CAPS \<noteq> 0 then vc_device_caps cap else vc_capabilities cap)"

definition print_capability_flag :: "u32 \<Rightarrow> u32 \<Rightarrow> string \<Rightarrow> string" where
  "print_capability_flag caps flag name = ''  '' @ name @ '': '' @ yes_no (caps AND flag \<noteq> 0)"

definition capability_lines :: "v4l2_capability \<Rightarrow> string list" where
  "capability_lines cap =
     (let caps = effective_caps cap; v = vc_version cap in
      [''========== V4L2 Capability =========='',
       ''driver      : '' @ c_string (vc_driver cap),
       ''card        : '' @ c_string (vc_card cap),
       ''bus_info    : '' @ c_string (vc_bus_info cap),
       ''version     : '' @ to_string (unat (drop_bit 16 v AND 0xFF)) @ ''.'' @ to_string (unat (drop_bit 8 v AND 0xFF)) @
         ''.'' @ to_string (unat (v AND 0xFF)),
       ''capabilities: 0x'' @ to_hex (unat (vc_capabilities cap)),
       ''device_caps : 0x'' @ to_hex (unat (vc_device_caps cap)),
       ''---------- Effective Capabilities ----------'',
       print_capability_flag caps V4L2_CAP_VIDEO_CAPTURE ''V4L2_CAP_VIDEO_CAPTURE'',
       print_capability_flag caps V4L2_CAP_VIDEO_OUTPUT ''V4L2_CAP_VIDEO_OUTPUT'',
       print_capability_flag caps V4L2_CAP_READWRITE ''V4L2_CAP_READWRITE'',
       print_capability_flag caps V4L2_CAP_STREAMING ''V4L2_CAP_STREAMING''] @
      (if caps AND V4L2_CAP_VIDEO_CAPTURE = 0 then [''[WARN] This device does not report VIDEO_CAPTURE capability.''] else []) @
      (if caps AND V4L2_CAP_STREAMING = 0 then [''[WARN] This device does not support STREAMING I/O.''] else []) @
      [''====================================='']) "

text \<open>\<open>query_capability\<close> with the answer of the driver: what it does and what it prints.\<close>

definition print_capability :: "kernel \<Rightarrow> v4l2_capability \<Rightarrow> camera \<Rightarrow> string" where
  "print_capability k cap c =
     (case query_capability k c of (Ok u, c') \<Rightarrow> text_lines (capability_lines cap) | _ \<Rightarrow> [])"

definition measurement_lines :: "int \<Rightarrow> capture_counters \<Rightarrow> capture_statistics \<Rightarrow> string list" where
  "measurement_lines frame_count st r =
     [''========== Capture Statistics =========='',
      ''requested frames      : '' @ to_string_int frame_count,
      ''captured frames       : '' @ to_string (cap_captured st),
      ''elapsed seconds       : '' @ fixed3 (cs_elapsed_s r),
      ''actual FPS            : '' @ fixed3 (cs_fps r),
      ''interval samples      : '' @ to_string (length (cap_intervals st)),
      ''avg interval ms       : '' @ fixed3 (cs_avg_interval_ms r),
      ''p50 interval ms       : '' @ fixed3 (cs_p50_ms r),
      ''p95 interval ms       : '' @ fixed3 (cs_p95_ms r),
      ''p99 interval ms       : '' @ fixed3 (cs_p99_ms r),
      ''max interval ms       : '' @ fixed3 (cs_max_interval_ms r),
      ''poll timeouts         : '' @ to_string (cap_poll_timeouts st),
      ''dqbuf errors          : '' @ to_string (cap_dqbuf_errors st),
      ''min bytesused         : '' @ to_string (unat (cap_min_bytes st)),
      ''max bytesused         : '' @ to_string (unat (cap_max_bytes st)),
      ''avg bytesused         : '' @ fixed3 (cs_avg_bytes r),
      ''========================================'']"

section \<open>Receiver and sender\<close>

definition latency_lines :: "latency_summary \<Rightarrow> string list" where
  "latency_lines summary =
     [''latency samples     : '' @ to_string (sample_count summary),
      ''e2e min us         : '' @ fixed3 (min_us summary),
      ''e2e mean us        : '' @ fixed3 (mean_us summary),
      ''e2e p50 us         : '' @ fixed3 (p50_us summary),
      ''e2e p95 us         : '' @ fixed3 (p95_us summary),
      ''e2e p99 us         : '' @ fixed3 (p99_us summary),
      ''e2e max us         : '' @ fixed3 (max_us summary),
      ''e2e jitter us      : '' @ fixed3 (jitter_us summary)]"

definition receiver_announcement :: "receiver_config \<Rightarrow> string list" where
  "receiver_announcement cfg =
     [''[INFO] tcp_receiver listening on port '' @ to_string_int (port cfg),
      ''[INFO] output dir: '' @ receiver_config.output_dir cfg,
      ''[INFO] stats output: '' @ receiver_config.stats_output cfg,
      ''[INFO] payload storage: '' @ (if save_payloads cfg then ''enabled'' else ''discard''),
      ''[INFO] max payload bytes: '' @ to_string (unat (max_payload_bytes cfg)),
      ''[INFO] max sessions: '' @ to_string_int (max_sessions cfg)]"

definition receiver_lines :: "receiver \<Rightarrow> string list" where
  "receiver_lines s =
     [''========== TCP Receiver Statistics =========='',
      ''received frames    : '' @ to_string (received_frames s),
      ''received bytes     : '' @ to_string (received_bytes s),
      ''saved files        : '' @ to_string (saved_files s),
      ''crc errors         : '' @ to_string (crc_errors s),
      ''header errors      : '' @ to_string (header_errors s),
      ''rejected frames    : '' @ to_string (rejected_frames s),
      ''accepted sessions  : '' @ to_string (accepted_sessions s),
      ''completed sessions : '' @ to_string (completed_sessions s),
      ''peer disconnects   : '' @ to_string (peer_disconnects s),
      ''latency clock errors: '' @ to_string (latency_clock_errors s)] @
     latency_lines (latency_snapshot (e2e_latency s)) @
     (if last_error s \<noteq> [] then [''last error         : '' @ last_error s] else []) @
     [''============================================='']"

definition sender_lines :: "tool_config \<Rightarrow> nat \<Rightarrow> nat \<Rightarrow> nat \<Rightarrow> string list" where
  "sender_lines cfg sent_bytes attempts retries =
     [''========== TCP Sender Statistics =========='',
      if tl_header_fault cfg = [] then ''sent frames : '' @ to_string_int (tl_frames cfg) else ''sent malformed headers : 1'',
      ''sent bytes       : '' @ to_string sent_bytes,
      ''connect attempts : '' @ to_string attempts,
      ''connect retries  : '' @ to_string retries,
      ''==========================================='']"

section \<open>Lemmas\<close>

lemma yes_no_inject [simp]: "yes_no a = yes_no b \<longleftrightarrow> a = b"
  by (cases a; cases b; simp add: yes_no_def)

lemma enabled_disabled_inject [simp]: "enabled_disabled a = enabled_disabled b \<longleftrightarrow> a = b"
  by (cases a; cases b; simp add: enabled_disabled_def)

lemma to_string_int_inject [simp]: "to_string_int a = to_string_int b \<longleftrightarrow> a = b"
proof -
  have "to_string n \<noteq> CHR ''-'' # to_string m" for n m
    using to_string_digits [of "CHR ''-''" n] by (auto simp: isdigit_def)
  from this this [symmetric] show ?thesis by (auto simp: to_string_int_def to_string_inject)
qed

lemma to_string_not_unset: "to_string n \<noteq> ''unset''"
proof
  assume "to_string n = ''unset''"
  then have "isdigit (CHR ''u'')" using to_string_digits [of "CHR ''u''" n] by simp
  then show False by (simp add: isdigit_def)
qed

lemma optional_u32_inject [simp]: "optional_u32_to_string a = optional_u32_to_string b \<longleftrightarrow> a = b"
  using to_string_not_unset to_string_not_unset [symmetric]
  by (auto simp: optional_u32_to_string_def to_string_inject word_unat_eq_iff split: option.splits)

lemma optional_string_inject:
  "a \<noteq> Some ''unset'' \<Longrightarrow> b \<noteq> Some ''unset'' \<Longrightarrow> optional_string_to_string a = optional_string_to_string b \<longleftrightarrow> a = b"
  by (auto simp: optional_string_to_string_def split: option.splits)

text \<open>The lines a sequence of messages adds, and that they determine the messages.\<close>

lemma log_infos_out:
  "log_out (log_infos stamps md msgs l) = log_out l @
     (if level_number INFO < level_number (current_level l) then []
      else map (\<lambda>(i, m). log_line (stamps i) INFO md m) (enumerate 0 msgs))"
  by (simp add: log_infos_def log_calls_lines written_lines_def uses_stderr_def less_eq_log_level_def comp_def filter_map
      case_prod_unfold)

lemma log_line_inject: "log_line t lv md m = log_line t lv md m' \<longleftrightarrow> m = m'"
  by (simp add: log_line_def)

lemma log_infos_inject:
  assumes "current_level l \<le> INFO" and "log_out (log_infos stamps md a l) = log_out (log_infos stamps md b l)"
  shows "a = b"
proof -
  have eq: "map (\<lambda>(i, m). log_line (stamps i) INFO md m) (enumerate 0 a) =
      map (\<lambda>(i, m). log_line (stamps i) INFO md m) (enumerate 0 b)"
    using assms by (auto simp: log_infos_out less_eq_log_level_def)
  then have len: "length a = length b" by (metis length_map length_enumerate)
  have "a ! i = b ! i" if "i < length a" for i
    using arg_cong [OF eq, of "\<lambda>ls. ls ! i"] that len by (simp add: nth_enumerate_eq log_line_inject)
  with len show ?thesis by (rule nth_equalityI)
qed

lemma config_messages_inject:
  assumes "config_messages a = config_messages b"
    and "pixel_format a \<noteq> Some ''unset''" "pixel_format b \<noteq> Some ''unset''" "tcp_host a \<noteq> Some ''unset''" "tcp_host b \<noteq> Some ''unset''"
  shows "a = b"
  using assms by (intro app_config.equality) (simp_all add: config_messages_def optional_string_inject)

section \<open>Properties\<close>

text \<open>
  The effective configuration is disclosed in full. With a log level up to INFO the lines that
  \<open>print_app_config\<close> writes determine every setting (as long as no host and no pixel format is the word
  the program prints for a missing one); above that level it writes nothing.
\<close>

theorem printed_config_complete:
  assumes "pixel_format a \<noteq> Some ''unset''" and "pixel_format b \<noteq> Some ''unset''"
    and "tcp_host a \<noteq> Some ''unset''" and "tcp_host b \<noteq> Some ''unset''"
  shows "(current_level l \<le> INFO \<longrightarrow>
      (log_out (print_app_config stamps a l) = log_out (print_app_config stamps b l) \<longleftrightarrow> a = b)) \<and>
    (\<not> current_level l \<le> INFO \<longrightarrow> log_out (print_app_config stamps a l) = log_out l)"
  using config_messages_inject [OF _ assms] log_infos_inject [of l stamps]
  by (auto simp: print_app_config_def log_infos_out less_eq_log_level_def)

theorem printed_config_complete_witness:
  "log_out (print_app_config (\<lambda>i. ''12:00'') AppConfig Logger) \<noteq>
   log_out (print_app_config (\<lambda>i. ''12:00'') (AppConfig\<lparr>tcp_port := 9000\<rparr>) Logger)"
  using printed_config_complete [of AppConfig "AppConfig\<lparr>tcp_port := 9000\<rparr>" Logger "\<lambda>i. ''12:00''"]
  by (simp add: AppConfig_def Logger_def)

text \<open>The capability report warns exactly when the effective capabilities lack one of the two that capturing needs.\<close>

lemma capability_warnings:
  "(''[WARN] This device does not report VIDEO_CAPTURE capability.'' \<in> set (capability_lines cap) \<longleftrightarrow>
      effective_caps cap AND V4L2_CAP_VIDEO_CAPTURE = 0) \<and>
   (''[WARN] This device does not support STREAMING I/O.'' \<in> set (capability_lines cap) \<longleftrightarrow>
      effective_caps cap AND V4L2_CAP_STREAMING = 0)"
  by (simp add: capability_lines_def Let_def print_capability_flag_def)

end
