(* ===== verification/Pipeline_Report.thy ===== *)
theory Pipeline_Report
  imports Stats_Reports Pipeline_Runs
begin

text \<open>
  The beginning and the end of \<open>run_pipeline\<close> around its threads: the checks, the connection with its retries and
  the report when it fails; after the joins the final counters, the report and the exception that leaves the
  function. Between them runs a schedule of the three threads (\<open>Pipeline_Runs\<close>).
\<close>

section \<open>Before the threads\<close>

datatype pipeline_start = Started int pipe | StartFailed exn | Connecting

definition with_connects :: "connect_counters \<Rightarrow> pipeline_stats \<Rightarrow> pipeline_stats" where
  "with_connects cc st = st\<lparr>tcp_connect_attempts := cc_attempts cc, tcp_connect_retries := cc_retries cc\<rparr>"

definition connect_failed :: "exn \<Rightarrow> pipeline_stats \<Rightarrow> pipeline_stats" where
  "connect_failed e st = st\<lparr>tcp_send_errors := tcp_send_errors st + 1, stats_last_error := what e\<rparr>"

text \<open>The result, and the contents the file system goes through.\<close>

definition begin_pipeline ::
    "(errno \<Rightarrow> string) \<Rightarrow> app_config \<Rightarrow> connect_env list \<Rightarrow> write_env \<Rightarrow> files \<Rightarrow> pipeline_start \<times> files list" where
  "begin_pipeline strerror cfg connects env fs =
     (case start_threads cfg PipelineStats of
        Inl e \<Rightarrow> (StartFailed e, [fs])
      | Inr s \<Rightarrow>
          if \<not> run_tcp_enabled cfg then (Started (-1) s, [fs])
          else
            (case connect_to_tcp_receiver_with_retry strerror (the (tcp_host cfg)) (tcp_port cfg) (tcp_connect_max_attempts cfg)
                    \<lparr>cc_attempts = 0, cc_retries = 0\<rparr> connects of
               (None, cc) \<Rightarrow> (Connecting, [fs])
             | (Some (Inr fd), cc) \<Rightarrow> (Started fd (s\<lparr>stats := with_connects cc (stats s)\<rparr>), [fs])
             | (Some (Inl e), cc) \<Rightarrow>
                 (let st = connect_failed e (with_connects cc (stats s)) in
                  case write_pipeline_stats_json env (app_config.stats_output cfg) (stats_snapshot 0 st) fs of
                    (states, Some w) \<Rightarrow> (StartFailed w, states)
                  | (states, None) \<Rightarrow> (StartFailed e, states))))"

section \<open>After the threads\<close>

definition finish_pipeline :: "write_env \<Rightarrow> app_config \<Rightarrow> real \<Rightarrow> pipe \<Rightarrow> files \<Rightarrow> exn option \<times> files list" where
  "finish_pipeline env cfg elapsed_s s fs =
     (case write_pipeline_stats_json env (app_config.stats_output cfg) (stats_snapshot elapsed_s (final_stats s)) fs of
        (states, write_error) \<Rightarrow> (pipeline_result write_error s, states))"

section \<open>Lemmas\<close>

lemma start_threads_stats: "start_threads cfg st = Inr s \<Longrightarrow> start_threads cfg st' = Inr (s\<lparr>stats := st'\<rparr>)"
  by (auto simp: start_threads_def)

text \<open>A started pipeline is a reachable state whose descriptor is not negative when it sends.\<close>

lemma begin_pipeline_reachable:
  assumes "begin_pipeline strerror cfg connects env fs = (Started fd s, states)"
  shows "\<exists>st. fresh_stats st \<and> (\<forall>fd'. reachable strerror fd' cfg st s) \<and> (run_tcp_enabled cfg \<longrightarrow> 0 \<le> fd)"
proof -
  obtain s0 where s0: "start_threads cfg PipelineStats = Inr s0"
    using assms by (cases "start_threads cfg PipelineStats") (auto simp: begin_pipeline_def)
  have st: "start_threads cfg st = Inr (s0\<lparr>stats := st\<rparr>)" for st by (rule start_threads_stats [OF s0])
  then have s0': "stats s0 = PipelineStats" using s0 by (auto simp: start_threads_def)
  show ?thesis
  proof (cases "run_tcp_enabled cfg")
    case False
    then have "s = s0" using assms s0 by (simp add: begin_pipeline_def)
    then show ?thesis using False s0 fresh_PipelineStats by (auto intro: reachable.start)
  next
    case True
    let ?c0 = "\<lparr>cc_attempts = 0, cc_retries = 0\<rparr>" and ?max = "nat (tcp_connect_max_attempts cfg)"
    from assms True s0 obtain cc where
      run: "connect_attempts strerror (the (tcp_host cfg)) (tcp_port cfg) ?max 1 [] ?c0 connects = (Some (Inr fd), cc)"
      and s: "s = s0\<lparr>stats := with_connects cc PipelineStats\<rparr>"
      by (auto simp: begin_pipeline_def connect_to_tcp_receiver_with_retry_def s0' Let_def split: prod.splits option.splits sum.splits)
    have "1 \<le> ?max" using run by (cases "?max") (auto simp: connect_attempts.simps)
    from connect_attempts_result [OF this run] obtain i where "connect_to_tcp_receiver strerror (the (tcp_host cfg)) (connects ! i) = Inr fd"
      by auto
    then have "0 \<le> fd" by (auto simp: connect_to_tcp_receiver_def)
    moreover have "fresh_stats (with_connects cc PipelineStats)" by (simp add: fresh_stats_def with_connects_def PipelineStats_def)
    ultimately show ?thesis using st s by (auto intro: reachable.start)
  qed
qed

text \<open>What a report that was written holds.\<close>

lemma pipeline_report_written:
  assumes "write_pipeline_stats_json env path (stats_snapshot elapsed st) fs = (states, None)" and "\<And>t. we_flushed env t = t"
  obtains content ms where "last states path = Some content" and "read_object content = Some ms"
    and "\<forall>(k, v) \<in> set (counter_fields st). map_of ms k = Some (JNumber v)"
    and "map_of ms ''last_error'' = Some (JString (stats_last_error st))"
proof -
  let ?snap = "stats_snapshot elapsed st"
  have c: "snap_counters ?snap = st" by (simp add: stats_snapshot_def)
  obtain content where "last states path = Some content"
    "read_object content = Some (report_content (pipeline_report_fields ?snap) (stats_last_error st))"
    using written_report [OF _ assms(2) good_pipeline_fields, of path ?snap "stats_last_error st" fs states] assms(1)
    unfolding write_pipeline_stats_json_def c by blast
  moreover have "set (counter_fields st) \<subseteq> set (pipeline_report_fields ?snap)"
    by (auto simp: pipeline_report_fields_def c)
  ultimately show thesis
    using that report_lookup [OF distinct_pipeline_keys, of ?snap "stats_last_error st"] by blast
qed

section \<open>Properties\<close>

text \<open>
  C7: a connection that cannot be made leaves a report. When every attempt fails, no thread is started, the exception
  of the last attempt leaves the function, and the report it wrote names one send error, the configured
  number of attempts, no captured frame, and the text of that exception.
\<close>

theorem connect_failure_reported:
  assumes "begin_pipeline strerror cfg connects env fs = (StartFailed e, states)" and "start_threads cfg PipelineStats = Inr s"
    and "\<And>t. we_flushed env t = t" and "\<And>t. snd (write_atomic_text_file env (app_config.stats_output cfg) t fs) = None"
    and "0 < tcp_connect_max_attempts cfg"
  shows "run_tcp_enabled cfg \<and> (\<exists>text ms. last states (app_config.stats_output cfg) = Some text \<and> read_object text = Some ms \<and>
    map_of ms ''tcp_send_errors'' = Some (JNumber (to_string 1)) \<and>
    map_of ms ''tcp_connect_attempts'' = Some (JNumber (to_string (nat (tcp_connect_max_attempts cfg)))) \<and>
    map_of ms ''produced_frames'' = Some (JNumber (to_string 0)) \<and>
    map_of ms ''last_error'' = Some (JString (what e)))"
proof -
  let ?c0 = "\<lparr>cc_attempts = 0, cc_retries = 0\<rparr>" and ?max = "nat (tcp_connect_max_attempts cfg)"
  have tcp: "run_tcp_enabled cfg" using assms(1,2) by (auto simp: begin_pipeline_def split: if_splits)
  have s: "stats s = PipelineStats" using assms(2) by (auto simp: start_threads_def)
  have ok: "snd (write_pipeline_stats_json env (app_config.stats_output cfg) snap fs) = None" for snap
    using assms(4) by (simp add: write_pipeline_stats_json_def)
  obtain cc where run: "connect_attempts strerror (the (tcp_host cfg)) (tcp_port cfg) ?max 1 [] ?c0 connects = (Some (Inl e), cc)"
    and w: "write_pipeline_stats_json env (app_config.stats_output cfg)
      (stats_snapshot 0 (connect_failed e (with_connects cc PipelineStats))) fs = (states, None)"
    using assms(1,2) tcp ok
    by (auto simp: begin_pipeline_def connect_to_tcp_receiver_with_retry_def s Let_def split: prod.splits option.splits sum.splits)
      (metis option.distinct(1) snd_conv)+
  have "cc_attempts cc = ?max" using connect_attempts_result [OF _ run] assms(5) by simp
  then have fields: "(''tcp_send_errors'', to_string 1) \<in> set (counter_fields (connect_failed e (with_connects cc PipelineStats)))"
    "(''tcp_connect_attempts'', to_string ?max) \<in> set (counter_fields (connect_failed e (with_connects cc PipelineStats)))"
    "(''produced_frames'', to_string 0) \<in> set (counter_fields (connect_failed e (with_connects cc PipelineStats)))"
    by (simp_all add: counter_fields_def connect_failed_def with_connects_def PipelineStats_def)
  obtain content ms where "last states (app_config.stats_output cfg) = Some content" "read_object content = Some ms"
    "\<forall>(k, v) \<in> set (counter_fields (connect_failed e (with_connects cc PipelineStats))). map_of ms k = Some (JNumber v)"
    "map_of ms ''last_error'' = Some (JString (stats_last_error (connect_failed e (with_connects cc PipelineStats))))"
    by (rule pipeline_report_written [OF w assms(3)])
  moreover from this(3) have "map_of ms k = Some (JNumber v)"
    if "(k, v) \<in> set (counter_fields (connect_failed e (with_connects cc PipelineStats)))" for k v using that by blast
  note this [OF fields(1)] this [OF fields(2)] this [OF fields(3)]
  moreover have "stats_last_error (connect_failed e (with_connects cc PipelineStats)) = what e" by (simp add: connect_failed_def)
  ultimately show ?thesis using tcp by auto
qed

lemma fine_write: "snd (write_atomic_text_file fine_write_env (app_config.stats_output demo_cfg) t fs) = None"
  by (simp add: write_atomic_text_file_def fine_write_env_def Let_def demo_cfg_def AppConfig_def)

definition demo_connect :: "int \<Rightarrow> connect_env" where
  "demo_connect ret = \<lparr>socket_ret = 4, socket_errno = EINVAL, inet_pton_ret = 1, connect_ret = ret, connect_errno = Errno 111\<rparr>"

theorem connect_failure_reported_witness:
  "\<exists>e states text ms. begin_pipeline (\<lambda>n. ''refused'') demo_cfg (replicate 5 (demo_connect (-1))) fine_write_env Map.empty =
       (StartFailed e, states) \<and> last states (app_config.stats_output demo_cfg) = Some text \<and> read_object text = Some ms \<and>
     map_of ms ''tcp_connect_attempts'' = Some (JNumber (to_string 5))"
proof -
  have max: "tcp_connect_max_attempts demo_cfg = 5" by (simp add: demo_cfg_def AppConfig_def)
  have tcp: "run_tcp_enabled demo_cfg" by (simp add: demo_cfg_def AppConfig_def run_tcp_enabled_def)
  have "\<exists>e cc. connect_to_tcp_receiver_with_retry (\<lambda>n. ''refused'') (the (tcp_host demo_cfg)) (tcp_port demo_cfg) 5
      \<lparr>cc_attempts = 0, cc_retries = 0\<rparr> (replicate 5 (demo_connect (-1))) = (Some (Inl e), cc)"
    by (simp add: connect_to_tcp_receiver_with_retry_def demo_connect_def connect_attempts.simps connect_to_tcp_receiver_def
        throw_if_def numeral_eq_Suc)
  then obtain e cc where run: "connect_to_tcp_receiver_with_retry (\<lambda>n. ''refused'') (the (tcp_host demo_cfg)) (tcp_port demo_cfg) 5
      \<lparr>cc_attempts = 0, cc_retries = 0\<rparr> (replicate 5 (demo_connect (-1))) = (Some (Inl e), cc)" by blast
  obtain states where "write_pipeline_stats_json fine_write_env (app_config.stats_output demo_cfg)
      (stats_snapshot 0 (connect_failed e (with_connects cc (stats demo_start)))) Map.empty = (states, None)"
    using fine_write unfolding write_pipeline_stats_json_def by (metis prod.collapse)
  then have b: "begin_pipeline (\<lambda>n. ''refused'') demo_cfg (replicate 5 (demo_connect (-1))) fine_write_env Map.empty = (StartFailed e, states)"
    using tcp run by (simp add: begin_pipeline_def demo_start max Let_def)
  have "we_flushed fine_write_env t = t" for t by (simp add: fine_write_env_def)
  from connect_failure_reported [OF b demo_start this fine_write] max b show ?thesis by auto
qed


definition demo_connected :: pipe where
  "demo_connected = demo_start\<lparr>stats := with_connects \<lparr>cc_attempts = 1, cc_retries = 0\<rparr> PipelineStats\<rparr>"


end
