(* ===== verification/Spec2Isabelle.thy ===== *)
theory Spec2Isabelle
  imports Pipeline_Runs Protocol_Fixture Stats_Reports Capture_Main Tcp_Sender Diagnostics_Report Throughput_Check Console_Reports Pipeline_Report
begin

text \<open>
  Verification of the V4L2 capture pipeline.

  \<^bold>\<open>The program.\<close> A capture program (\<open>src/main.cpp\<close>) reads its configuration (\<open>src/app_config.cpp\<close>), opens a
  V4L2 camera (\<open>src/camera_device.cpp\<close>) and runs a pipeline of three threads: a producer captures frames
  into a ring buffer (\<open>include/ring_buffer.hpp\<close>) and rebuilds the camera according to the recovery policies
  (\<open>include/capture_recovery.hpp\<close>), a consumer checks and saves the frames and puts them into a second ring
  buffer, and a sender transmits them with bounded sends (\<open>src/tcp_send.cpp\<close>) in the format of
  \<open>include/frame_protocol.hpp\<close>. A receiver program (\<open>src/tcp_receiver.cpp\<close>) reads that format, checks and
  counts the frames. A ROS 2 adapter (\<open>tcp_diagnostics_node.cpp\<close>) does the same in a thread, publishes the frames as
  images (\<open>yuyv_conversion.hpp\<close>) and its counters as diagnostics; another node (\<open>image_throughput_check.cpp\<close>) measures
  these images. Two tools send test frames (\<open>src/tcp_sender.cpp\<close>) and write or verify a stream of frames
  (\<open>src/protocol_fixture.cpp\<close>). The programs report to a JSON file (\<open>src/stats_json.cpp\<close>) and a log (\<open>src/logger.cpp\<close>).

  \<^bold>\<open>The theories\<close>, in the order of their imports:
  \<^item> \<open>Capture_Prelude\<close>: types, the exceptions \<open>exn\<close>, results, the lemma collections, and lemmas on lists and
    words. \<open>Cpp_Strings\<close>: the parts of \<open>std::string\<close>, \<open>std::stoi\<close> and \<open>std::to_string\<close> the program uses.
  \<^item> \<open>Frame_Protocol\<close> (\<open>frame_protocol.hpp\<close>): header codec, CRC32, validation. The codec is a bijection
    between headers and 44 bytes; the fields' readers and writers share the locale \<open>wire_field\<close>, the validation accepts exactly the documented headers, the CRC detects
    every burst of at most 32 bits.
  \<^item> \<open>Ring_Buffer\<close> (\<open>ring_buffer.hpp\<close>): the circular array refines a bounded queue that drops its oldest item;
    the queue's laws are the locale \<open>drop_oldest_queue\<close>, interpreted on the ring.
  \<^item> \<open>Capture_Recovery\<close> (\<open>capture_recovery.hpp\<close>, \<open>camera_capture_error.hpp\<close>): the two recovery controllers.
  \<^item> \<open>Tcp_Send\<close> (\<open>tcp_send.cpp\<close>): the send loop over a script of what the system calls return; what is sent is
    always a prefix of the data, and the loop ends by its deadline.
  \<^item> \<open>Latency_Stats\<close> (\<open>latency_stats.hpp\<close>): samples and their summary, over the real numbers.
  \<^item> \<open>Yuyv\<close> (\<open>main.cpp\<close>, \<open>yuyv_conversion.hpp\<close>): the converters (instances of the locale \<open>macropixel_loop\<close>) and their agreement.
  \<^item> \<open>App_Config\<close> (\<open>app_config.cpp\<close>): configuration file, command line and validation.
  \<^item> \<open>Frame_Io\<close> (\<open>main.cpp\<close>, \<open>frame.hpp\<close>): the helpers of the pipeline: connecting with retries, sending one
    frame, usability, saving, initialising the camera.
  \<^item> \<open>Tcp_Receiver\<close> (\<open>tcp_receiver.cpp\<close>): the receiver from its arguments to its exit code.
  \<^item> \<open>Pipeline\<close> (\<open>run_pipeline\<close>): one step function per thread over the shared state \<open>pipe\<close>. A step is the
    code between two accesses to shared state. \<open>Pipeline_Safety\<close>: the invariant of the step relation and
    what it gives on reachable states. \<open>Pipeline_Runs\<close>: schedules, termination and the properties of runs.
  \<^item> \<open>Camera_Device\<close> (\<open>camera_device.cpp\<close>): the device over a trace of system calls. \<open>Camera_Safety\<close>: resources
    and buffers. \<open>Camera_Results\<close>: captured frames, initialisation, measurement. \<open>Camera_Reports\<close>: the listing of
    formats and the statistics of a measurement.
  \<^item> \<open>Stats_Json\<close> (\<open>stats_json.cpp\<close>): escaping, number formats and the atomic file write, with a reader of JSON
    objects. \<open>Stats_Reports\<close>: the two reports, which the reader reads back. \<open>Pipeline_Report\<close>: the start of
    \<open>run_pipeline\<close> with its connection and its end with the report.
  \<^item> \<open>Logger\<close> (\<open>logger.cpp\<close>): levels, lines and streams. \<open>Console_Reports\<close>: the configuration, statistics and
    capabilities the programs print. \<open>Capture_Main\<close> (\<open>main\<close> of \<open>main.cpp\<close>): the modes and the exit code; every path
    releases the device.
  \<^item> \<open>Tcp_Sender\<close> and \<open>Protocol_Fixture\<close>: the two tools; the fixture's verification accepts exactly the
    streams of valid frames with the announced numbers.
  \<^item> \<open>Diagnostics_Node\<close> (\<open>tcp_diagnostics_node.cpp\<close>): the ROS adapter. The members of the class are the record
    \<open>node\<close>, which also logs the frames taken over, the messages published and the open descriptors.
    \<open>Diagnostics_Safety\<close>: its invariants and the end of its loops after a stop request. \<open>Diagnostics_Delivery\<close>: what it does with complete streams,
    for a host header structure of 44 bytes and one of 48 bytes. \<open>Diagnostics_Report\<close>: the diagnostics message.
  \<^item> \<open>Throughput_Check\<close> (\<open>image_throughput_check.cpp\<close>): the measuring node over a sequence of callbacks, its verdict
    and its report.
  \<^item> This theory: the properties that span components.

  \<^bold>\<open>Effects.\<close> What the program cannot decide (results of system calls, clocks, files, interleaving) is an
  argument of the definitions: a script that is read in order, a function of the trace so far, or a
  schedule. A definition whose script ends while the code still waits returns a value of its own (\<open>Blocked\<close>,
  \<open>ReadBlocked\<close>, \<open>Waiting\<close>), so no theorem holds because a script was too short; where a call is claimed to
  return, a hypothesis bounds what the environment does and the theorem gives the result. The loops of the ROS
  adapter run on fuel and say when it is used up (\<open>ReadPending\<close>, \<open>ClientPending\<close>, \<open>LoopPending\<close>): one more than
  the number of environment reads before a stop request is enough to return, and so is one more than
  the length of a stream for a session; the enumeration loops of the camera need one turn more than the driver's table has entries.

  \<^bold>\<open>Bounds.\<close> Fields of the wire format and sizes of the driver interface are words of their width; counters
  of 64 bits are natural numbers, since no run reaches their bound; \<open>int\<close> configuration values are integers
  whose range the parsing checks. Doubles are real numbers, with one value for those that are not finite.

  \<^bold>\<open>Not modelled.\<close> The usage texts; log lines about single events (a retry, a skipped frame, a recovery step), since they
  change no state; a failing memory allocation; the ROS library (parameter server, creation of publishers, executor), which
  is an argument; another thread's update between two reads of the diagnostics timer; the memory model
  below whole accesses to atomics and to structures protected by a mutex; rounding of doubles.
\<close>

section \<open>From a loaded configuration to running threads\<close>

text \<open>
  C25: a configuration that loads and selects the pipeline starts it. None of the checks of
  \<open>run_pipeline\<close>, none of the constructors of the rings and recovery controllers throws, and the camera
  initialisation has every setting it needs: when the device calls succeed it makes all five, in order.
\<close>

theorem loaded_config_starts_pipeline:
  assumes "load_app_config cfg_files args = Inr c" and "0 < pipeline_frames c"
  shows "(\<exists>s. start_threads c st = Inr s) \<and>
    (\<exists>w h p n. initialize_pipeline_camera c (\<lambda>call. None) =
       ([OpenDevice, QueryCapability, SetFormat w h p, InitMmapBuffers n, StartStreaming], None))"
proof -
  from assms(1) obtain c0 where c0: "config_ranges c0" "apply_cli_args c0 args = Inr c" and v: "validate_app_config c = Inr ()"
    by (rule load_app_config_cases)
  then have r: "config_ranges c" using apply_cli_args_ranges by blast
  then have "\<exists>s. start_threads c st = Inr s"
    using assms(2) by (simp add: start_threads_def pipeline_guards_def RingBuffer_def CaptureRecoveryController_def
        InvalidFrameRecoveryController_def config_ranges_def)
  moreover have "0 < capture_mode_count c" using assms(2) by (simp add: capture_mode_count_def)
  then have "mmap_buffers c \<noteq> None" "wants_set_format c"
      "wants_set_format c \<longrightarrow> width c \<noteq> None \<and> height c \<noteq> None \<and> pixel_format c \<noteq> None"
    using v by (auto simp: validate_app_config_def)
  then have "\<exists>w h p n. initialize_pipeline_camera c (\<lambda>call. None) =
       ([OpenDevice, QueryCapability, SetFormat w h p, InitMmapBuffers n, StartStreaming], None)"
    by (auto simp: initialize_pipeline_camera_def)
  ultimately show ?thesis by blast
qed

theorem loaded_config_starts_pipeline_witness:
  "\<exists>c s. load_app_config (\<lambda>path. None) [''--width'', ''2'', ''--height'', ''1'', ''--format'', ''YUYV'',
       ''--mmap-buffers'', ''4'', ''--pipeline-frames'', ''1''] = Inr c \<and> start_threads c PipelineStats = Inr s"
proof -
  let ?args = "[''--width'', ''2'', ''--height'', ''1'', ''--format'', ''YUYV'',
       ''--mmap-buffers'', ''4'', ''--pipeline-frames'', ''1'']"
  let ?c = "AppConfig\<lparr>width := Some 2, height := Some 1, pixel_format := Some ''YUYV'', mmap_buffers := Some 4,
       pipeline_frames := 1\<rparr>"
  have p: "parse_positive_int ''1'' n 1000000 = Inr 1" "parse_positive_int ''2'' n 1000000 = Inr 2"
    "parse_positive_int ''4'' n 1000000 = Inr 4" for n
    by (simp_all add: parse_positive_int_def stol_def scan_int_def scan_sign_def isspace_def isdigit_def digits_value_def)
  have e: "load_app_config (\<lambda>path. None) ?args = Inr ?c"
    by (simp add: load_app_config_def load_config_file_into_def cli_flag_def cli_option_def parse_u32_value_def p)
      (simp add: AppConfig_def validate_app_config_def wants_set_format_def capture_mode_count_def tcp_enabled_def)
  then show ?thesis using loaded_config_starts_pipeline [OF e, of PipelineStats] by simp
qed

section \<open>From the camera to the receiver\<close>

lemma frame_wire_bytes: "frame_wire f = frame_bytes (frame_wire_header f, frm_data f)"
  by (simp add: frame_wire_def frame_bytes_def)

lemma sent_frame_good:
  assumes "validate_header (frame_wire_header f) m = None" and "length (frm_data f) < 2 ^ 32"
  shows "good_frame m (frame_wire_header f, frm_data f)"
  using assms by (simp add: good_frame_def frame_wire_header_def make_header_def unat_of_nat take_bit_nat_eq_self)

text \<open>
  C1: end to end delivery. Let the bytes the pipeline has put on the connection so far arrive at the
  receiver, cut into \<open>recv\<close> results in any way and interrupted any number of times, and let the connection
  end there. If the receiver's header validation accepts the frames involved, it takes over exactly the
  frames the pipeline counts as sent, in order, with their headers and payloads, and reports no CRC
  and no header error, even when the pipeline gave up in the middle of a frame.
\<close>

theorem end_to_end_delivery:
  assumes "reachable strerror fd cfg st s" and "0 \<le> fd" and "fresh_stats st"
    and "stream_ok c" and "pending c = tcp_wire s"
    and "\<forall>f \<in> set (sent_log s) \<union> set_option (tcp_failed s).
       validate_header (frame_wire_header f) (max_payload_bytes rcfg) = None \<and> length (frm_data f) < 2 ^ 32"
    and "\<And>path. file_system env path = FileOk" and "max_frames rcfg = 0"
  shows "\<exists>complete r'. session_loop rcfg env c r = (SessionDone complete, r') \<and>
    frames r' = frames r @ map (\<lambda>f. (frame_wire_header f, frm_data f)) (sent_log s) \<and>
    header_errors r' = header_errors r \<and> crc_errors r' = crc_errors r \<and> (tcp_failed s = None \<longrightarrow> complete)"
proof -
  let ?fl = "map (\<lambda>f. (frame_wire_header f, frm_data f)) (sent_log s)"
  have wire: "wire_ok s" using reachable_inv [OF assms(1-3)] by (simp add: pipe_inv_def inv_send_def)
  then obtain part where part: "tcp_wire s = concat (map frame_wire (sent_log s)) @ part"
    "case tcp_failed s of None \<Rightarrow> part = [] | Some f \<Rightarrow> strict_prefix part (frame_wire f)" by (auto simp: wire_ok_def)
  define g where "g = (case tcp_failed s of None \<Rightarrow> undefined | Some f \<Rightarrow> (frame_wire_header f, frm_data f))"
  have "part = [] \<or> good_frame (max_payload_bytes rcfg) g \<and> strict_prefix part (frame_bytes g)"
    using part(2) assms(6) by (auto simp: g_def sent_frame_good frame_wire_bytes split: option.splits)
  moreover have "pending c = concat (map frame_bytes ?fl) @ part"
    using assms(5) part(1) by (simp add: comp_def flip: frame_wire_bytes)
  moreover have "\<forall>f \<in> set ?fl. good_frame (max_payload_bytes rcfg) f" using assms(6) sent_frame_good by auto
  ultimately have "\<exists>r'. session_loop rcfg env c r = (SessionDone (length part < kWireHeaderSize), r') \<and>
      frames r' = frames r @ ?fl \<and> header_errors r' = header_errors r \<and> crc_errors r' = crc_errors r \<and>
      peer_disconnects r' = peer_disconnects r + 1 \<and> fatal_protocol_error r' = fatal_protocol_error r"
    using assms(7,8) by (intro session_loop_tail [OF assms(4)]) auto
  moreover have "tcp_failed s = None \<longrightarrow> length part < kWireHeaderSize" using part(2) by (auto simp: kWireHeaderSize_def)
  ultimately show ?thesis by (intro exI [of _ "length part < kWireHeaderSize"]) auto
qed

lemma demo_final_logs: "sent_log demo_final = [sample_frame] \<and> tcp_failed demo_final = None \<and>
    tcp_wire demo_final = frame_wire sample_frame"
  by (simp add: demo_final_def demo_eval2 sample_sent PipelineStats_def)

theorem end_to_end_delivery_witness:
  "\<exists>r'. session_loop default_receiver_config sample_receiver_env
      \<lparr>pending = tcp_wire demo_final, events = RecvError EINTR # replicate 60 (Ready 7)\<rparr> init_receiver =
        (SessionDone True, r') \<and>
    frames r' = [(frame_wire_header sample_frame, frm_data sample_frame)] \<and> crc_errors r' = 0"
proof -
  have "length (frame_wire sample_frame) = 48"
    by (simp add: frame_wire_def kWireHeaderSize_def sample_frame_def)
  then have ok: "stream_ok \<lparr>pending = tcp_wire demo_final, events = RecvError EINTR # replicate 60 (Ready 7)\<rparr>"
    by (simp add: stream_ok_def demo_final_logs)
  have len: "length (frm_data sample_frame) < 2 ^ 32" by (simp add: sample_frame_def)
  have v: "validate_header (frame_wire_header sample_frame) (max_payload_bytes default_receiver_config) = None"
    unfolding frame_header_valid_iff [OF len]
    by (simp add: sample_frame_def default_receiver_config_def kDefaultMaxPayloadBytes_def V4L2_PIX_FMT_YUYV_def empty_frame_def)
  from end_to_end_delivery [OF demo_reachable _ fresh_PipelineStats ok, of default_receiver_config sample_receiver_env init_receiver]
  show ?thesis using v len
    by (auto simp: demo_final_logs sample_receiver_env_def default_receiver_config_def init_receiver_def)
qed

section \<open>From the camera to ROS images\<close>

text \<open>
  C2: end to end publication. Let the bytes of a run of the pipeline in which no send failed arrive at the ROS
  adapter, on a host whose header structure has the size of the wire header, cut in any way. When the adapter
  accepts the headers and the frames are YUYV, it publishes one image per frame the pipeline counts as sent, in
  order: the conversion of that frame. All these images are valid for a throughput check that expects
  the adapter's encoding and the size of the frames.
\<close>

theorem end_to_end_ros_images:
  assumes "reachable strerror fd cfg st s" and "0 \<le> fd" and "fresh_stats st" and "tcp_failed s = None"
    and "TcpDiagnosticsNode ncfg = Inr parts" and "nc_max_frames ncfg = 0" and "publishing ncfg env"
    and "readable env" and "ne_host_header env = 44" and "length (tcp_wire s) < fuel"
    and "ck_expected_encoding chk = nc_output_encoding ncfg"
    and "\<forall>f \<in> set (sent_log s). validate_header (frame_wire_header f) (word_of_int (nc_max_payload_bytes ncfg)) = None \<and>
      length (frm_data f) < 2 ^ 32 \<and> frm_pixel_format f = V4L2_PIX_FMT_YUYV \<and>
      frm_width f = word_of_int (ck_expected_width chk) \<and> frm_height f = word_of_int (ck_expected_height chk)"
  shows "\<exists>n' imgs. handle_client ncfg env fuel fuel (tcp_wire s) n = (True, [], n') \<and> nd_images n' = nd_images n @ imgs \<and>
    map Inr imgs = map (\<lambda>f. node_image ncfg (frame_wire_header f) (frm_data f)) (sent_log s) \<and>
    (\<forall>img \<in> set imgs. image_valid chk img) \<and> nd_crc_errors n' = nd_crc_errors n \<and> nd_header_errors n' = nd_header_errors n"
proof -
  let ?fl = "map (\<lambda>f. (frame_wire_header f, frm_data f)) (sent_log s)"
  let ?m = "word_of_int (nc_max_payload_bytes ncfg) :: u32"
  have "wire_ok s" using reachable_inv [OF assms(1-3)] by (simp add: pipe_inv_def inv_send_def)
  then have wire: "tcp_wire s = concat (map frame_bytes ?fl)"
    using assms(4) by (simp add: wire_ok_def comp_def flip: frame_wire_bytes)
  have good: "\<forall>f \<in> set ?fl. good_frame ?m f" using assms(12) sent_frame_good by auto
  have yuyv: "\<forall>(h, p) \<in> set ?fl. hdr_pixel_format h = V4L2_PIX_FMT_YUYV"
    using assms(12) by (auto simp: frame_wire_header_def make_header_def)
  obtain n' where n': "handle_client ncfg env fuel fuel (tcp_wire s) n = (True, [], n')"
    "nd_crc_errors n' = nd_crc_errors n" "nd_header_errors n' = nd_header_errors n"
    "map Inr (nd_images n') = map Inr (nd_images n) @ map (\<lambda>(h, p). node_image ncfg h p) ?fl"
    using session_frames_fuel [OF assms(8) _ _ good, of fuel n] assms(6,7,9,10) yuyv
    by (auto simp: wire kWireHeaderSize_def shown_def)
  let ?imgs = "drop (length (nd_images n)) (nd_images n')"
  have imgs: "nd_images n' = nd_images n @ ?imgs" "map Inr ?imgs = map (\<lambda>(h, p). node_image ncfg h p) ?fl"
    using n'(4) by (auto simp: map_eq_append_conv)
  have "image_valid chk img" if "img \<in> set ?imgs" for img
  proof -
    have "Inr img \<in> set (map (\<lambda>(h, p). node_image ncfg h p) ?fl)" using that by (simp only: imgs(2) [symmetric] set_map) blast
    then obtain f where f: "f \<in> set (sent_log s)" "node_image ncfg (frame_wire_header f) (frm_data f) = Inr img" by auto
    have "good_frame ?m (frame_wire_header f, frm_data f)" using f(1) good by auto
    from good_image_valid [OF this _ f(2) assms(5) _ assms(11)] f(1) assms(7,12) show ?thesis
      by (auto simp: publishing_def frame_wire_header_def make_header_def)
  qed
  with n' imgs show ?thesis by (intro exI [of _ n'] exI [of _ ?imgs]) (simp add: comp_def)
qed

theorem end_to_end_ros_images_witness:
  "\<exists>n' img. handle_client default_node_config (demo_node_env 44 (\<lambda>t. False)) 60 60 (tcp_wire demo_final) new_node = (True, [], n') \<and>
     nd_images n' = [img] \<and> image_valid (default_check_config\<lparr>ck_expected_width := 2, ck_expected_height := 1\<rparr>) img"
proof -
  let ?env = "demo_node_env 44 (\<lambda>t. False)" and ?chk = "default_check_config\<lparr>ck_expected_width := 2, ck_expected_height := 1\<rparr>"
  have len: "length (frm_data sample_frame) < 2 ^ 32" by (simp add: sample_frame_def)
  have v: "validate_header (frame_wire_header sample_frame) (word_of_int (nc_max_payload_bytes default_node_config)) = None"
    unfolding frame_header_valid_iff [OF len]
    by (simp add: sample_frame_def default_node_config_def kDefaultMaxPayloadBytes_def V4L2_PIX_FMT_YUYV_def empty_frame_def)
  have wire: "length (tcp_wire demo_final) < 60"
    by (simp add: demo_final_logs frame_wire_def kWireHeaderSize_def sample_frame_def)
  have env: "publishing default_node_config ?env" "ne_host_header ?env = 44" "nc_max_frames default_node_config = 0"
    by (simp_all add: publishing_def demo_node_env_def default_node_config_def)
  have enc: "ck_expected_encoding ?chk = nc_output_encoding default_node_config"
    by (simp add: default_check_config_def default_node_config_def)
  have "frm_pixel_format sample_frame = V4L2_PIX_FMT_YUYV" "frm_width sample_frame = word_of_int (ck_expected_width ?chk)"
    "frm_height sample_frame = word_of_int (ck_expected_height ?chk)"
    by (simp_all add: sample_frame_def empty_frame_def)
  moreover obtain parts where parts: "TcpDiagnosticsNode default_node_config = Inr parts" using default_accepted by blast
  moreover have "tcp_failed demo_final = None" by (simp add: demo_final_logs)
  ultimately have "\<exists>n' imgs. handle_client default_node_config ?env 60 60 (tcp_wire demo_final) new_node = (True, [], n') \<and>
      nd_images n' = nd_images new_node @ imgs \<and>
      map Inr imgs = map (\<lambda>f. node_image default_node_config (frame_wire_header f) (frm_data f)) [sample_frame] \<and>
      (\<forall>img \<in> set imgs. image_valid ?chk img)"
    using end_to_end_ros_images [OF demo_reachable _ fresh_PipelineStats _ parts env(3,1) demo_readable env(2) wire enc, of new_node] v len
    by (auto simp: demo_final_logs)
  then show ?thesis by (auto simp: new_node_def map_eq_Cons_conv)
qed

end
